(* ===== verification/Prelude.thy ===== *)
theory Prelude
  imports "HOL-Library.Word" "HOL-Library.State_Monad"
begin

unbundle bit_operations_syntax

text \<open>
  Shared vocabulary of the development: bytes and big-endian integers as the
  Go package encoding/binary reads and writes them, the fact collections the
  components add to, and generic lemmas on lists and the state monad.
\<close>

named_theorems codec_simps \<open>one-step evaluation of readers and writers\<close>

type_synonym byte = "8 word"

section \<open>Big-endian integers\<close>

text \<open>
  binary.BigEndian.PutUint16/32/64 and AppendUint16/32/64: the most
  significant byte comes first; the number of bytes is fixed by the type.
\<close>

definition be_put :: "'a::len word \<Rightarrow> byte list" where
  "be_put w = map (\<lambda>i. ucast (drop_bit (8 * i) w)) (rev [0..<LENGTH('a) div 8])"

text \<open>binary.BigEndian.Uint16/32/64 on exactly the bytes it reads.\<close>

definition be_get :: "byte list \<Rightarrow> 'a::len word" where
  "be_get bs = foldl (\<lambda>a b. push_bit 8 a OR ucast b) 0 bs"

lemma length_be_put [simp]: "length (be_put (w :: 'a::len word)) = LENGTH('a) div 8"
  by (simp add: be_put_def)

lemma be_get_snoc: "be_get (bs @ [b]) = push_bit 8 (be_get bs) OR ucast b"
  by (simp add: be_get_def)

lemma be_get_Nil [simp]: "be_get [] = 0"
  by (simp add: be_get_def)

lemma bit_be_get:
  "bit (be_get bs :: 'a::len word) k \<longleftrightarrow>
     k < LENGTH('a) \<and> k < 8 * length bs \<and> bit (rev bs ! (k div 8)) (k mod 8)"
proof (induction bs arbitrary: k rule: rev_induct)
  case Nil
  then show ?case by simp
next
  case (snoc b bs)
  show ?case
  proof (cases "k < 8")
    case True
    then show ?thesis
      by (auto simp: be_get_snoc bit_simps)
  next
    case False
    then obtain j where j: "k = j + 8" by (metis le_add_diff_inverse2 not_less)
    then have "k div 8 = Suc (j div 8)" "k mod 8 = j mod 8" by simp_all
    then show ?thesis
      using snoc.IH [of j] bit_imp_le_length [of b k] j
      by (auto simp: be_get_snoc bit_simps simp del: div_add_self2)
  qed
qed

lemma rev_be_put: "rev (be_put w) = map (\<lambda>i. ucast (drop_bit (8 * i) w)) [0..<LENGTH('a) div 8]"
  for w :: "'a::len word"
  by (simp add: be_put_def rev_map)

lemma be_get_put:
  assumes "LENGTH('a) mod 8 = 0"
  shows "be_get (be_put (w :: 'a::len word)) = w"
proof (rule bit_word_eqI)
  fix k assume k: "k < LENGTH('a)"
  from assms obtain n where n: "LENGTH('a) = 8 * n" by (auto elim: dvdE)
  with k have "k div 8 < n" by (simp add: less_mult_imp_div_less)
  moreover have "8 * (k div 8) + k mod 8 = k" by simp
  moreover have "k mod 8 < LENGTH(8)" by simp
  ultimately show "bit (be_get (be_put w) :: 'a word) k = bit w k"
    using k n
    by (simp add: bit_be_get rev_be_put bit_simps add.commute del: len_num0 len_bit0)
qed

lemma be_get_put_sizes [simp]:
  "be_get (be_put (a :: 8 word)) = a"
  "be_get (be_put (b :: 16 word)) = b"
  "be_get (be_put (c :: 32 word)) = c"
  "be_get (be_put (d :: 64 word)) = d"
  "be_get (be_put (e :: 128 word)) = e"
  by (simp_all add: be_get_put)

lemma be_put_get:
  assumes "LENGTH('a) = 8 * length bs"
  shows "be_put (be_get bs :: 'a::len word) = bs"
proof -
  have "rev (be_put (be_get bs :: 'a word)) ! i = rev bs ! i" if "i < length bs" for i
  proof (rule bit_word_eqI)
    fix k assume k: "k < LENGTH(8)"
    then have "k < 8" by simp
    then have "(8 * i + k) div 8 = i" "(8 * i + k) mod 8 = k" "8 * i + k < 8 * length bs"
      using that by simp_all
    moreover have "rev (be_put (be_get bs :: 'a word)) ! i = ucast (drop_bit (8 * i) (be_get bs :: 'a word))"
      using that assms by (simp add: rev_be_put)
    ultimately show "bit (rev (be_put (be_get bs :: 'a word)) ! i) k = bit (rev bs ! i) k"
      using k by (simp add: bit_ucast_iff bit_drop_bit_eq bit_be_get assms)
  qed
  moreover have "length (be_put (be_get bs :: 'a word)) = length bs"
    using assms by simp
  ultimately have "rev (be_put (be_get bs :: 'a word)) = rev bs"
    by (intro nth_equalityI) (simp_all only: length_rev)
  then show ?thesis by simp
qed

lemma be_put_get4 [simp]: "length bs = 4 \<Longrightarrow> be_put (be_get bs :: 32 word) = bs"
  by (rule be_put_get) simp

lemma be_get_eq_iff:
  assumes "LENGTH('a) = 8 * length a" "length b = length a"
  shows "((be_get a :: 'a::len word) = be_get b) = (a = b)"
  using be_put_get [of a, where 'a = 'a] be_put_get [of b, where 'a = 'a] assms by metis

section \<open>Words as naturals\<close>

lemma unat_and_mask: "unat (w AND mask n) = unat w mod 2 ^ n" for w :: "'a::len word"
  by (simp add: unsigned_take_bit_eq flip: take_bit_eq_mask take_bit_eq_mod)

lemma unat_and_masks:
  "unat (w AND 63) = unat w mod 64" "unat (w AND 127) = unat w mod 128"
  for w :: "64 word"
  using unat_and_mask [of w 6] unat_and_mask [of w 7]
  by (simp_all add: mask_eq_exp_minus_1)

lemma unat_drop_bit_div: "unat (drop_bit n w) = unat w div 2 ^ n" for w :: "'a::len word"
proof -
  have "take_bit LENGTH('a) (unat w) = unat w" by (simp add: take_bit_nat_eq_self_iff)
  then show ?thesis by (simp add: unsigned_drop_bit_eq flip: drop_bit_eq_div)
qed

section \<open>Go strings and checked results\<close>

text \<open>A Go string literal as the bytes it denotes.\<close>

definition go_str :: "string \<Rightarrow> byte list" where
  "go_str s = map of_char s"

text \<open>
  The idiom "x, err := f(); if err != nil { return err }": an error ends the
  computation, a result is passed on.
\<close>

definition ebind :: "'e + 'a \<Rightarrow> ('a \<Rightarrow> 'e + 'b) \<Rightarrow> 'e + 'b" where
  "ebind m k = (case m of Inl e \<Rightarrow> Inl e | Inr a \<Rightarrow> k a)"

lemma ebind_simps [simp]: "ebind (Inl e) k = Inl e" "ebind (Inr a) k = k a"
  by (simp_all add: ebind_def)

lemma ebind_eq_Inr: "ebind m k = Inr b \<longleftrightarrow> (\<exists>a. m = Inr a \<and> k a = Inr b)"
  by (cases m) simp_all

lemma ebind_cong [fundef_cong]:
  "\<lbrakk>m = m'; \<And>a. m' = Inr a \<Longrightarrow> k a = k' a\<rbrakk> \<Longrightarrow> ebind m k = ebind m' k'"
  by (cases m') simp_all

text \<open>The built-in copy(dst[off:], src).\<close>

definition copy_at :: "nat \<Rightarrow> 'a list \<Rightarrow> 'a list \<Rightarrow> 'a list" where
  "copy_at off src dst =
     take off dst @ take (length dst - off) src @ drop (off + length src) dst"

lemma length_copy_at [simp]: "off \<le> length dst \<Longrightarrow> length (copy_at off src dst) = length dst"
  by (simp add: copy_at_def)

text \<open>A loop that overwrites the slots off, off+1, ... one by one.\<close>

lemma fold_list_update:
  "off + n \<le> length xs \<Longrightarrow>
   fold (\<lambda>i b. b[off + i := f i]) [0..<n] xs = take off xs @ map f [0..<n] @ drop (off + n) xs"
proof (induction n)
  case (Suc n)
  have "drop (off + n) xs = xs ! (off + n) # drop (Suc (off + n)) xs"
    using Suc.prems by (intro Cons_nth_drop_Suc [symmetric]) simp
  with Suc show ?case by (simp add: list_update_append)
qed simp

section \<open>Big integers\<close>

text \<open>big.Int from and to big-endian bytes, and its bit length.\<close>

definition bytes_to_nat :: "byte list \<Rightarrow> nat" where
  "bytes_to_nat bs = foldl (\<lambda>a b. a * 256 + unat b) 0 bs"

definition fill_bytes :: "nat \<Rightarrow> nat \<Rightarrow> byte list" where
  "fill_bytes len n = map (\<lambda>i. of_nat (n div 256 ^ i)) (rev [0..<len])"

fun bit_len :: "nat \<Rightarrow> nat" where
  "bit_len n = (if n = 0 then 0 else Suc (bit_len (n div 2)))"

lemma bytes_to_nat_snoc: "bytes_to_nat (bs @ [b]) = bytes_to_nat bs * 256 + unat b"
  by (simp add: bytes_to_nat_def)

lemma unat_byte_less: "unat (b :: byte) < 256"
  using unsigned_less [of b] by simp

lemma bytes_to_nat_bound: "bytes_to_nat bs < 256 ^ length bs"
proof (induction bs rule: rev_induct)
  case (snoc b bs)
  then have "Suc (bytes_to_nat bs) * 256 \<le> 256 ^ length bs * 256" by (intro mult_right_mono) simp_all
  then show ?case using unat_byte_less [of b] by (simp add: bytes_to_nat_snoc)
qed (simp add: bytes_to_nat_def)

lemma fill_bytes_Suc: "fill_bytes (Suc k) n = fill_bytes k (n div 256) @ [of_nat n]"
proof -
  have "rev [0..<Suc k] = map Suc (rev [0..<k]) @ [0]"
    by (simp add: map_Suc_upt upt_conv_Cons flip: rev_map)
  then show ?thesis by (simp add: fill_bytes_def div_mult2_eq)
qed

lemma fill_bytes_bytes_to_nat: "fill_bytes (length bs) (bytes_to_nat bs) = bs"
proof (induction bs rule: rev_induct)
  case (snoc b bs)
  have "(bytes_to_nat bs * 256 + unat b) div 256 = bytes_to_nat bs"
    using unat_byte_less [of b] by simp
  moreover have "(of_nat (bytes_to_nat bs * 256 + unat b) :: byte) = b"
  proof -
    have "(of_nat (bytes_to_nat bs * 256) :: byte) = of_nat (bytes_to_nat bs) * of_nat 256" by simp
    also have "(of_nat 256 :: byte) = 0" by simp
    finally show ?thesis by simp
  qed
  ultimately show ?case using snoc by (simp only: length_append_singleton fill_bytes_Suc bytes_to_nat_snoc)
qed (simp add: fill_bytes_def)

lemma bytes_to_nat_fill_bytes: "n < 256 ^ k \<Longrightarrow> bytes_to_nat (fill_bytes k n) = n"
proof (induction k arbitrary: n)
  case (Suc k)
  then have "n div 256 < 256 ^ k" by (simp add: less_mult_imp_div_less mult.commute)
  moreover have "unat (of_nat n :: byte) = n mod 256" by (simp add: unat_of_nat)
  ultimately show ?case using Suc.IH [of "n div 256"]
    by (simp add: fill_bytes_Suc bytes_to_nat_snoc)
qed (simp add: fill_bytes_def bytes_to_nat_def)

declare bit_len.simps [simp del]

lemma bit_len_eq: "\<lbrakk>2 ^ k \<le> n; n < 2 ^ Suc k\<rbrakk> \<Longrightarrow> bit_len n = Suc k"
proof (induction k arbitrary: n)
  case 0
  then have "n = 1" by simp
  then show ?case by (simp add: bit_len.simps [of "Suc 0"] bit_len.simps [of 0])
next
  case (Suc k)
  then have "2 ^ k \<le> n div 2" "n div 2 < 2 ^ Suc k" by simp_all
  with Suc show ?case by (simp add: bit_len.simps [of n])
qed

lemma bit_len_bound: "n < 2 ^ bit_len n"
proof (induction n rule: bit_len.induct)
  case (1 n)
  then show ?case by (cases "n = 0") (simp_all add: bit_len.simps [of n])
qed

lemma bytes_to_nat_Cons_ge: "unat b * 256 ^ length bs \<le> bytes_to_nat (b # bs)"
proof (induction bs rule: rev_induct)
  case (snoc c bs)
  have "unat b * 256 ^ length bs * 256 \<le> bytes_to_nat (b # bs) * 256"
    using snoc by (rule mult_le_mono1)
  moreover have "bytes_to_nat (b # bs @ [c]) = bytes_to_nat (b # bs) * 256 + unat c"
    using bytes_to_nat_snoc [of "b # bs" c] by simp
  ultimately show ?case by simp
qed (simp add: bytes_to_nat_def)

lemma byte_top_bit: "bit (b :: byte) 7 \<Longrightarrow> 128 \<le> unat b"
proof (rule ccontr)
  assume *: "bit b 7" "\<not> 128 \<le> unat b"
  then have "take_bit 7 (unat b) = unat b" by (simp add: take_bit_nat_eq_self_iff)
  moreover have "bit (unat b) 7" using *(1) by (simp add: bit_unsigned_iff)
  moreover have "\<not> bit (take_bit 7 (unat b)) 7" by (simp add: bit_take_bit_iff)
  ultimately show False by simp
qed

lemma bytes_to_nat_top:
  assumes "bit b 7"
  shows "2 ^ (8 * length bs + 7) \<le> bytes_to_nat (b # bs)"
proof -
  have "(2::nat) ^ (8 * length bs + 7) = 128 * 256 ^ length bs"
    by (simp add: power_add power_mult)
  also have "\<dots> \<le> unat b * 256 ^ length bs"
    by (rule mult_le_mono1) (rule byte_top_bit [OF assms])
  also note bytes_to_nat_Cons_ge
  finally show ?thesis .
qed

lemma bit_len_bytes:
  "\<lbrakk>length bs = Suc k; bit (hd bs) 7\<rbrakk> \<Longrightarrow> bit_len (bytes_to_nat bs) = 8 * Suc k"
proof -
  assume *: "length bs = Suc k" "bit (hd bs) 7"
  then obtain b cs where bs: "bs = b # cs" by (cases bs) auto
  have "2 ^ (8 * k + 7) \<le> bytes_to_nat bs" using * bytes_to_nat_top [of b cs] by (simp add: bs)
  moreover have "bytes_to_nat bs < 2 ^ Suc (8 * k + 7)"
    using bytes_to_nat_bound [of bs] *(1) by (simp add: power_mult power_add)
  ultimately have "bit_len (bytes_to_nat bs) = Suc (8 * k + 7)" by (rule bit_len_eq)
  then show ?thesis by simp
qed

end
