(* ===== verification/Netip.thy ===== *)
theory Netip
  imports Prelude
begin

text \<open>
  The part of Go's standard package net/netip the sources use: addresses as
  values of three kinds (the invalid zero Addr, IPv4, IPv6 with a zone) and
  the operations on them.  A panic of the package is the value None.
\<close>

section \<open>Addresses\<close>

datatype Addr = AddrZero | Addr4 "32 word" | Addr6 "128 word" "byte list"

fun addr_IsValid :: "Addr \<Rightarrow> bool" where
  "addr_IsValid AddrZero = False"
| "addr_IsValid _ = True"

fun addr_Is4 :: "Addr \<Rightarrow> bool" where
  "addr_Is4 (Addr4 _) = True"
| "addr_Is4 _ = False"

fun addr_Is6 :: "Addr \<Rightarrow> bool" where
  "addr_Is6 (Addr6 _ _) = True"
| "addr_Is6 _ = False"

fun addr_Is4In6 :: "Addr \<Rightarrow> bool" where
  "addr_Is4In6 (Addr6 w _) = (drop_bit 32 w = 0xFFFF)"
| "addr_Is4In6 _ = False"

fun addr_Unmap :: "Addr \<Rightarrow> Addr" where
  "addr_Unmap (Addr6 w z) = (if drop_bit 32 w = 0xFFFF then Addr4 (ucast w) else Addr6 w z)"
| "addr_Unmap a = a"

fun addr_BitLen :: "Addr \<Rightarrow> nat" where
  "addr_BitLen AddrZero = 0"
| "addr_BitLen (Addr4 _) = 32"
| "addr_BitLen (Addr6 _ _) = 128"

fun addr_As4 :: "Addr \<Rightarrow> byte list option" where
  "addr_As4 AddrZero = None"
| "addr_As4 (Addr4 w) = Some (be_put w)"
| "addr_As4 (Addr6 w _) = (if drop_bit 32 w = 0xFFFF then Some (be_put (ucast w :: 32 word)) else None)"

definition map4in6 :: "32 word \<Rightarrow> 128 word" where
  "map4in6 w = push_bit 32 0xFFFF OR ucast w"

fun addr_As16 :: "Addr \<Rightarrow> byte list" where
  "addr_As16 AddrZero = be_put (0 :: 128 word)"
| "addr_As16 (Addr4 w) = be_put (map4in6 w)"
| "addr_As16 (Addr6 w _) = be_put w"

definition AddrFrom4 :: "byte list \<Rightarrow> Addr" where
  "AddrFrom4 b = Addr4 (be_get b)"

definition AddrFrom16 :: "byte list \<Rightarrow> Addr" where
  "AddrFrom16 b = Addr6 (be_get b) []"

definition AddrFromSlice :: "byte list \<Rightarrow> Addr option" where
  "AddrFromSlice b = (if length b = 4 then Some (AddrFrom4 b)
     else if length b = 16 then Some (AddrFrom16 b) else None)"

record Prefix =
  pfx_Addr :: Addr
  pfx_Bits :: nat

record AddrPort =
  ap_Addr :: Addr
  ap_Port :: "16 word"

text \<open>AddrPort.MarshalBinary: the address bytes, the zone, and the port little-endian.\<close>

fun addr_MarshalBinary :: "Addr \<Rightarrow> byte list" where
  "addr_MarshalBinary AddrZero = []"
| "addr_MarshalBinary (Addr4 w) = be_put w"
| "addr_MarshalBinary (Addr6 w z) = be_put w @ z"

definition ap_MarshalBinary :: "AddrPort \<Rightarrow> byte list" where
  "ap_MarshalBinary p = addr_MarshalBinary (ap_Addr p) @ rev (be_put (ap_Port p))"

lemma addr_As4_Unmap: "addr_Is4 a \<or> addr_Is4In6 a \<Longrightarrow> \<exists>w. addr_Unmap a = Addr4 w"
  by (cases a) auto

end
