(* ===== verification/Wire.thy ===== *)
theory Wire
  imports Netip
begin

text \<open>
  The binary frame protocol of the Agent-Master WebSocket (core/wire): frames,
  the append-only writer, the reader with its sticky error, and every message
  with its Marshal and Unmarshal.  Go strings and byte slices are byte lists, a
  [32]byte is a byte list of length 32, int64 and float64 values are kept as
  their 64-bit patterns (the codec only copies the bits).
\<close>

section \<open>Frames\<close>

type_synonym MsgType = byte

definition headerLen :: nat where "headerLen = 5"
definition MaxFrameBytes :: nat where "MaxFrameBytes = 2 ^ 20"
definition MaxPeers :: nat where "MaxPeers = 4096"
definition MaxIPs :: nat where "MaxIPs = 8192"
definition MaxForwards :: nat where "MaxForwards = 1024"
definition maxString :: nat where "maxString = 4096"
definition MaxPresenceNodes :: nat where "MaxPresenceNodes = 8192"
definition maxReleaseBytes :: nat where "maxReleaseBytes = 256 * 2 ^ 10"

datatype wire_error =
    ErrShort
  | ErrFrameTooLarge nat
  | ErrBadIPLength byte
  | ErrTooMany string nat
  | ErrReleaseTooLarge nat

record Frame =
  frame_Type :: MsgType
  frame_Seq :: "32 word"
  frame_Payload :: "byte list"

definition EncodeFrame :: "MsgType \<Rightarrow> 32 word \<Rightarrow> byte list \<Rightarrow> byte list" where
  "EncodeFrame t seq payload = [t] @ be_put seq @ payload"

definition DecodeFrame :: "byte list \<Rightarrow> wire_error + Frame" where
  "DecodeFrame b =
     (if length b < headerLen then Inl ErrShort
      else if length b > MaxFrameBytes then Inl (ErrFrameTooLarge (length b))
      else Inr \<lparr>frame_Type = b ! 0, frame_Seq = be_get (take 4 (drop 1 b)),
                frame_Payload = drop headerLen b\<rparr>)"

section \<open>Writer\<close>

record writer = wb :: "byte list"

type_synonym 'a wr = "(writer, 'a) state"

definition writer0 :: writer where "writer0 = \<lparr>wb = []\<rparr>"

definition w_append :: "byte list \<Rightarrow> unit wr" where
  "w_append bs = State_Monad.update (\<lambda>w. w\<lparr>wb := wb w @ bs\<rparr>)"

definition w_u8 :: "byte \<Rightarrow> unit wr" where "w_u8 v = w_append [v]"
definition w_u16 :: "16 word \<Rightarrow> unit wr" where "w_u16 v = w_append (be_put v)"
definition w_u32 :: "32 word \<Rightarrow> unit wr" where "w_u32 v = w_append (be_put v)"
definition w_u64 :: "64 word \<Rightarrow> unit wr" where "w_u64 v = w_append (be_put v)"
definition w_i64 :: "64 word \<Rightarrow> unit wr" where "w_i64 v = w_u64 v"

definition w_str :: "byte list \<Rightarrow> unit wr" where
  "w_str s =
     (let s = (if length s > maxString then take maxString s else s)
      in do { w_u16 (of_nat (length s)); w_append s })"

definition w_ip :: "Addr \<Rightarrow> unit wr" where
  "w_ip a =
     (if \<not> addr_IsValid a then w_u8 0
      else if addr_Is4 a \<or> addr_Is4In6 a then
        do { w_u8 4; w_append (the (addr_As4 (addr_Unmap a))) }
      else do { w_u8 16; w_append (addr_As16 a) })"

definition w_bool :: "bool \<Rightarrow> unit wr" where
  "w_bool v = (if v then w_u8 1 else w_u8 0)"

fun w_each :: "('a \<Rightarrow> unit wr) \<Rightarrow> 'a list \<Rightarrow> unit wr" where
  "w_each f [] = State_Monad.return ()"
| "w_each f (x # xs) = do { f x; w_each f xs }"

definition marshal :: "unit wr \<Rightarrow> byte list" where
  "marshal m = wb (snd (run_state m writer0))"

section \<open>Reader\<close>

record reader =
  rb :: "byte list"
  rerr :: "wire_error option"

type_synonym 'a rd = "(reader, 'a) state"

definition reader0 :: "byte list \<Rightarrow> reader" where
  "reader0 b = \<lparr>rb = b, rerr = None\<rparr>"

definition r_need :: "nat \<Rightarrow> bool rd" where
  "r_need n = do {
     r \<leftarrow> State_Monad.get;
     if rerr r \<noteq> None then State_Monad.return False
     else if length (rb r) < n then
       do { State_Monad.set (r\<lparr>rerr := Some ErrShort\<rparr>); State_Monad.return False }
     else State_Monad.return True }"

text \<open>The common body of u8, u16, u32 and u64: n bytes, big-endian.\<close>

definition r_uint :: "nat \<Rightarrow> ('a::len word) rd" where
  "r_uint n = do {
     ok \<leftarrow> r_need n;
     if \<not> ok then State_Monad.return 0
     else do {
       r \<leftarrow> State_Monad.get;
       State_Monad.set (r\<lparr>rb := drop n (rb r)\<rparr>);
       State_Monad.return (be_get (take n (rb r))) } }"

definition r_u8 :: "byte rd" where "r_u8 = r_uint 1"
definition r_u16 :: "16 word rd" where "r_u16 = r_uint 2"
definition r_u32 :: "32 word rd" where "r_u32 = r_uint 4"
definition r_u64 :: "64 word rd" where "r_u64 = r_uint 8"
definition r_i64 :: "64 word rd" where "r_i64 = r_u64"

text \<open>None is Go's nil slice.\<close>

definition r_bytes :: "nat \<Rightarrow> byte list option rd" where
  "r_bytes n = do {
     ok \<leftarrow> r_need n;
     if \<not> ok then State_Monad.return None
     else do {
       r \<leftarrow> State_Monad.get;
       State_Monad.set (r\<lparr>rb := drop n (rb r)\<rparr>);
       State_Monad.return (Some (take n (rb r))) } }"

definition r_str :: "byte list rd" where
  "r_str = do {
     n \<leftarrow> r_u16;
     b \<leftarrow> r_bytes (unat n);
     State_Monad.return (case b of None \<Rightarrow> [] | Some s \<Rightarrow> s) }"

definition r_ip :: "Addr rd" where
  "r_ip = do {
     n \<leftarrow> r_u8;
     if n = 0 then State_Monad.return AddrZero
     else if n = 4 then do {
       b \<leftarrow> r_bytes 4;
       State_Monad.return (case b of None \<Rightarrow> AddrZero | Some b \<Rightarrow> AddrFrom4 b) }
     else if n = 16 then do {
       b \<leftarrow> r_bytes 16;
       State_Monad.return (case b of None \<Rightarrow> AddrZero | Some b \<Rightarrow> AddrFrom16 b) }
     else do {
       r \<leftarrow> State_Monad.get;
       State_Monad.set (if rerr r = None then r\<lparr>rerr := Some (ErrBadIPLength n)\<rparr> else r);
       State_Monad.return AddrZero } }"

definition r_count :: "nat \<Rightarrow> string \<Rightarrow> nat rd" where
  "r_count mx what = do {
     n \<leftarrow> r_u16;
     r \<leftarrow> State_Monad.get;
     State_Monad.set (if unat n > mx \<and> rerr r = None
                      then r\<lparr>rerr := Some (ErrTooMany what (unat n))\<rparr> else r);
     State_Monad.return (unat n) }"

definition r_err :: "wire_error option rd" where
  "r_err = do { r \<leftarrow> State_Monad.get; State_Monad.return (rerr r) }"

text \<open>A loop of a fixed number of reads into a preallocated slice.\<close>

fun r_times :: "nat \<Rightarrow> 'a rd \<Rightarrow> 'a list rd" where
  "r_times 0 m = State_Monad.return []"
| "r_times (Suc n) m = do { x \<leftarrow> m; xs \<leftarrow> r_times n m; State_Monad.return (x # xs) }"

section \<open>Messages between agent and master\<close>

record Hello =
  hello_Token :: "byte list"
  hello_Version :: "byte list"
  hello_PublicV4 :: Addr
  hello_PublicV6 :: Addr

definition Hello_Marshal :: "Hello \<Rightarrow> byte list" where
  "Hello_Marshal m = marshal (do {
     w_str (hello_Token m);
     w_str (hello_Version m);
     w_ip (hello_PublicV4 m);
     w_ip (hello_PublicV6 m) })"

definition Hello_Unmarshal :: "byte list \<Rightarrow> Hello \<times> wire_error option" where
  "Hello_Unmarshal b = fst (run_state (do {
     t \<leftarrow> r_str;
     v \<leftarrow> r_str;
     v4 \<leftarrow> r_ip;
     v6 \<leftarrow> r_ip;
     e \<leftarrow> r_err;
     State_Monad.return (\<lparr>hello_Token = t, hello_Version = v, hello_PublicV4 = v4,
                          hello_PublicV6 = v6\<rparr>, e) }) (reader0 b))"

record HelloAck =
  helloAck_NodeID :: "byte list"
  helloAck_StatsIntervalMs :: "32 word"

definition HelloAck_Marshal :: "HelloAck \<Rightarrow> byte list" where
  "HelloAck_Marshal m = marshal (do {
     w_str (helloAck_NodeID m); w_u32 (helloAck_StatsIntervalMs m) })"

definition HelloAck_Unmarshal :: "byte list \<Rightarrow> HelloAck \<times> wire_error option" where
  "HelloAck_Unmarshal b = fst (run_state (do {
     i \<leftarrow> r_str;
     s \<leftarrow> r_u32;
     e \<leftarrow> r_err;
     State_Monad.return (\<lparr>helloAck_NodeID = i, helloAck_StatsIntervalMs = s\<rparr>, e) }) (reader0 b))"

record PeerStat =
  ps_PublicKey :: "byte list"
  ps_RxBytes :: "64 word"
  ps_TxBytes :: "64 word"
  ps_LastHandshakeNano :: "64 word"
  ps_HandshakeRTTMicros :: "32 word"

record IPStat =
  is_IP :: Addr
  is_RxBytes :: "64 word"
  is_TxBytes :: "64 word"

record ForwardStat =
  fs_Protocol :: "byte list"
  fs_Listen :: "byte list"
  fs_RxBytes :: "64 word"
  fs_TxBytes :: "64 word"

record Stats =
  stats_UnixMilli :: "64 word"
  stats_RxBytes :: "64 word"
  stats_TxBytes :: "64 word"
  stats_Peers :: "PeerStat list"
  stats_IPs :: "IPStat list"
  stats_Forwards :: "ForwardStat list"

definition w_PeerStat :: "PeerStat \<Rightarrow> unit wr" where
  "w_PeerStat p = do {
     w_append (ps_PublicKey p);
     w_u64 (ps_RxBytes p);
     w_u64 (ps_TxBytes p);
     w_i64 (ps_LastHandshakeNano p) }"

definition w_IPStat :: "IPStat \<Rightarrow> unit wr" where
  "w_IPStat s = do { w_ip (is_IP s); w_u64 (is_RxBytes s); w_u64 (is_TxBytes s) }"

definition w_ForwardStat :: "ForwardStat \<Rightarrow> unit wr" where
  "w_ForwardStat f = do {
     w_str (fs_Protocol f); w_str (fs_Listen f); w_u64 (fs_RxBytes f); w_u64 (fs_TxBytes f) }"

text \<open>len(xs) > max: xs = xs[:max].\<close>

definition cap :: "nat \<Rightarrow> 'a list \<Rightarrow> 'a list" where
  "cap n xs = (if length xs > n then take n xs else xs)"

definition Stats_Marshal :: "Stats \<Rightarrow> byte list" where
  "Stats_Marshal m =
     (let peers = cap MaxPeers (stats_Peers m);
          ips = cap MaxIPs (stats_IPs m);
          fwds = cap MaxForwards (stats_Forwards m)
      in marshal (do {
        w_i64 (stats_UnixMilli m);
        w_u64 (stats_RxBytes m);
        w_u64 (stats_TxBytes m);
        w_u16 (of_nat (length peers));
        w_each w_PeerStat peers;
        w_u16 (of_nat (length ips));
        w_each w_IPStat ips;
        w_u16 (of_nat (length fwds));
        w_each w_ForwardStat fwds;
        w_u16 (of_nat (length peers));
        w_each (\<lambda>p. w_u32 (ps_HandshakeRTTMicros p)) peers }))"

text \<open>Go's copy into a zeroed 32-byte array; a nil source leaves the zeros.\<close>

definition copy32 :: "byte list option \<Rightarrow> byte list" where
  "copy32 b = (case b of None \<Rightarrow> replicate 32 0
     | Some s \<Rightarrow> take 32 s @ drop (length s) (replicate 32 0))"

definition r_PeerStat :: "PeerStat rd" where
  "r_PeerStat = do {
     k \<leftarrow> r_bytes 32;
     rx \<leftarrow> r_u64;
     tx \<leftarrow> r_u64;
     h \<leftarrow> r_i64;
     State_Monad.return \<lparr>ps_PublicKey = copy32 k, ps_RxBytes = rx, ps_TxBytes = tx,
                         ps_LastHandshakeNano = h, ps_HandshakeRTTMicros = 0\<rparr> }"

definition r_IPStat :: "IPStat rd" where
  "r_IPStat = do {
     a \<leftarrow> r_ip;
     rx \<leftarrow> r_u64;
     tx \<leftarrow> r_u64;
     State_Monad.return \<lparr>is_IP = a, is_RxBytes = rx, is_TxBytes = tx\<rparr> }"

definition r_ForwardStat :: "ForwardStat rd" where
  "r_ForwardStat = do {
     p \<leftarrow> r_str;
     l \<leftarrow> r_str;
     rx \<leftarrow> r_u64;
     tx \<leftarrow> r_u64;
     State_Monad.return \<lparr>fs_Protocol = p, fs_Listen = l, fs_RxBytes = rx, fs_TxBytes = tx\<rparr> }"

text \<open>
  if n := r.count(max, what); r.err == nil \{ dst = make([]T, n); ... \}:
  the destination keeps its old value when the count could not be read.
\<close>

definition r_section :: "nat \<Rightarrow> string \<Rightarrow> 'a rd \<Rightarrow> 'a list \<Rightarrow> 'a list rd" where
  "r_section mx what item old = do {
     n \<leftarrow> r_count mx what;
     e \<leftarrow> r_err;
     if e = None then r_times n item else State_Monad.return old }"

fun set_rtts :: "PeerStat list \<Rightarrow> 32 word list \<Rightarrow> PeerStat list" where
  "set_rtts (p # ps) (x # xs) = p\<lparr>ps_HandshakeRTTMicros := x\<rparr> # set_rtts ps xs"
| "set_rtts ps _ = ps"

text \<open>The optional trailing section with the handshake round-trip times.\<close>

definition r_rtts :: "PeerStat list \<Rightarrow> PeerStat list rd" where
  "r_rtts peers = do {
     r \<leftarrow> State_Monad.get;
     if rerr r = None \<and> length (rb r) > 0 then do {
       n \<leftarrow> r_count MaxPeers ''peer rtts'';
       e \<leftarrow> r_err;
       if e = None \<and> n = length peers then do {
         xs \<leftarrow> r_times (length peers) r_u32;
         State_Monad.return (set_rtts peers xs) }
       else State_Monad.return peers }
     else State_Monad.return peers }"

definition Stats_Unmarshal :: "Stats \<Rightarrow> byte list \<Rightarrow> Stats \<times> wire_error option" where
  "Stats_Unmarshal m b = fst (run_state (do {
     t \<leftarrow> r_i64;
     rx \<leftarrow> r_u64;
     tx \<leftarrow> r_u64;
     peers \<leftarrow> r_section MaxPeers ''peers'' r_PeerStat (stats_Peers m);
     ips \<leftarrow> r_section MaxIPs ''ips'' r_IPStat (stats_IPs m);
     fwds \<leftarrow> r_section MaxForwards ''forwards'' r_ForwardStat (stats_Forwards m);
     peers \<leftarrow> r_rtts peers;
     e \<leftarrow> r_err;
     State_Monad.return (\<lparr>stats_UnixMilli = t, stats_RxBytes = rx, stats_TxBytes = tx,
       stats_Peers = peers, stats_IPs = ips, stats_Forwards = fwds\<rparr>, e) }) (reader0 b))"

record Ping = ping_UnixNano :: "64 word"

definition Ping_Marshal :: "Ping \<Rightarrow> byte list" where
  "Ping_Marshal m = marshal (w_i64 (ping_UnixNano m))"

definition Ping_Unmarshal :: "byte list \<Rightarrow> Ping \<times> wire_error option" where
  "Ping_Unmarshal b = fst (run_state (do {
     t \<leftarrow> r_i64; e \<leftarrow> r_err; State_Monad.return (\<lparr>ping_UnixNano = t\<rparr>, e) }) (reader0 b))"

record ConfigAck =
  configAck_Revision :: "32 word"
  configAck_OK :: bool
  configAck_Error :: "byte list"

definition ConfigAck_Marshal :: "ConfigAck \<Rightarrow> byte list" where
  "ConfigAck_Marshal m = marshal (do {
     w_u32 (configAck_Revision m); w_bool (configAck_OK m); w_str (configAck_Error m) })"

definition ConfigAck_Unmarshal :: "byte list \<Rightarrow> ConfigAck \<times> wire_error option" where
  "ConfigAck_Unmarshal b = fst (run_state (do {
     r \<leftarrow> r_u32;
     k \<leftarrow> r_u8;
     s \<leftarrow> r_str;
     e \<leftarrow> r_err;
     State_Monad.return (\<lparr>configAck_Revision = r, configAck_OK = (k = 1), configAck_Error = s\<rparr>, e) })
     (reader0 b))"

record ErrorMsg =
  errorMsg_Code :: "16 word"
  errorMsg_Message :: "byte list"

definition ErrorMsg_Marshal :: "ErrorMsg \<Rightarrow> byte list" where
  "ErrorMsg_Marshal m = marshal (do { w_u16 (errorMsg_Code m); w_str (errorMsg_Message m) })"

definition ErrorMsg_Unmarshal :: "byte list \<Rightarrow> ErrorMsg \<times> wire_error option" where
  "ErrorMsg_Unmarshal b = fst (run_state (do {
     c \<leftarrow> r_u16;
     s \<leftarrow> r_str;
     e \<leftarrow> r_err;
     State_Monad.return (\<lparr>errorMsg_Code = c, errorMsg_Message = s\<rparr>, e) }) (reader0 b))"

section \<open>Messages between admin UI and master\<close>

record UIHello = uiHello_Token :: "byte list"

definition UIHello_Marshal :: "UIHello \<Rightarrow> byte list" where
  "UIHello_Marshal m = marshal (w_str (uiHello_Token m))"

definition UIHello_Unmarshal :: "byte list \<Rightarrow> UIHello \<times> wire_error option" where
  "UIHello_Unmarshal b = fst (run_state (do {
     s \<leftarrow> r_str; e \<leftarrow> r_err; State_Monad.return (\<lparr>uiHello_Token = s\<rparr>, e) }) (reader0 b))"

record UIHelloAck = uiHelloAck_PresenceIntervalMs :: "32 word"

definition UIHelloAck_Marshal :: "UIHelloAck \<Rightarrow> byte list" where
  "UIHelloAck_Marshal m = marshal (w_u32 (uiHelloAck_PresenceIntervalMs m))"

definition UIHelloAck_Unmarshal :: "byte list \<Rightarrow> UIHelloAck \<times> wire_error option" where
  "UIHelloAck_Unmarshal b = fst (run_state (do {
     s \<leftarrow> r_u32; e \<leftarrow> r_err;
     State_Monad.return (\<lparr>uiHelloAck_PresenceIntervalMs = s\<rparr>, e) }) (reader0 b))"

record UISubscribe = uiSubscribe_NodeID :: "byte list"

definition UISubscribe_Marshal :: "UISubscribe \<Rightarrow> byte list" where
  "UISubscribe_Marshal m = marshal (w_str (uiSubscribe_NodeID m))"

definition UISubscribe_Unmarshal :: "byte list \<Rightarrow> UISubscribe \<times> wire_error option" where
  "UISubscribe_Unmarshal b = fst (run_state (do {
     s \<leftarrow> r_str; e \<leftarrow> r_err; State_Monad.return (\<lparr>uiSubscribe_NodeID = s\<rparr>, e) }) (reader0 b))"

record PresenceNode =
  pn_NodeID :: "byte list"
  pn_Link :: byte
  pn_LastSeenMs :: "64 word"
  pn_RxRate :: "64 word"
  pn_TxRate :: "64 word"
  pn_RTTMicros :: "32 word"

record Presence =
  presence_NowMs :: "64 word"
  presence_Nodes :: "PresenceNode list"

definition w_PresenceNode :: "PresenceNode \<Rightarrow> unit wr" where
  "w_PresenceNode e = do {
     w_str (pn_NodeID e);
     w_u8 (pn_Link e);
     w_i64 (pn_LastSeenMs e);
     w_u64 (pn_RxRate e);
     w_u64 (pn_TxRate e);
     w_u32 (pn_RTTMicros e) }"

definition Presence_Marshal :: "Presence \<Rightarrow> byte list" where
  "Presence_Marshal p =
     (let n = min (length (presence_Nodes p)) MaxPresenceNodes
      in marshal (do {
        w_i64 (presence_NowMs p);
        w_u16 (of_nat n);
        w_each w_PresenceNode (take n (presence_Nodes p)) }))"

definition r_PresenceNode :: "PresenceNode rd" where
  "r_PresenceNode = do {
     i \<leftarrow> r_str;
     l \<leftarrow> r_u8;
     s \<leftarrow> r_i64;
     rx \<leftarrow> r_u64;
     tx \<leftarrow> r_u64;
     t \<leftarrow> r_u32;
     State_Monad.return \<lparr>pn_NodeID = i, pn_Link = l, pn_LastSeenMs = s, pn_RxRate = rx,
                         pn_TxRate = tx, pn_RTTMicros = t\<rparr> }"

text \<open>for i := 0; i < n and r.err == nil; i++: the loop stops at the first error.\<close>

fun r_while_ok :: "nat \<Rightarrow> 'a rd \<Rightarrow> 'a list rd" where
  "r_while_ok 0 m = State_Monad.return []"
| "r_while_ok (Suc n) m = do {
     e \<leftarrow> r_err;
     if e \<noteq> None then State_Monad.return []
     else do { x \<leftarrow> m; xs \<leftarrow> r_while_ok n m; State_Monad.return (x # xs) } }"

definition Presence_Unmarshal :: "Presence \<Rightarrow> byte list \<Rightarrow> Presence \<times> wire_error option" where
  "Presence_Unmarshal p b = fst (run_state (do {
     t \<leftarrow> r_i64;
     n \<leftarrow> r_count MaxPresenceNodes ''presence nodes'';
     e \<leftarrow> r_err;
     if e \<noteq> None then State_Monad.return (p\<lparr>presence_NowMs := t\<rparr>, e)
     else do {
       ns \<leftarrow> r_while_ok n r_PresenceNode;
       e \<leftarrow> r_err;
       State_Monad.return (\<lparr>presence_NowMs = t, presence_Nodes = ns\<rparr>, e) } }) (reader0 b))"

section \<open>Update messages\<close>

record UpdateCmd =
  updateCmd_Force :: bool
  updateCmd_Proxy :: "byte list"
  updateCmd_Release :: "byte list"

definition UpdateCmd_Marshal :: "UpdateCmd \<Rightarrow> byte list" where
  "UpdateCmd_Marshal m =
     (let rel = (if length (updateCmd_Release m) > maxReleaseBytes then [] else updateCmd_Release m)
      in marshal (do {
        w_bool (updateCmd_Force m);
        if updateCmd_Proxy m = [] \<and> length rel = 0 then State_Monad.return ()
        else do {
          w_str (updateCmd_Proxy m);
          w_u32 (of_nat (length rel));
          w_append rel } }))"

text \<open>The size check of the release manifest and the read that follows it.\<close>

definition r_release :: "32 word \<Rightarrow> byte list option rd" where
  "r_release n = do {
     r \<leftarrow> State_Monad.get;
     State_Monad.set (if unat n > maxReleaseBytes \<and> rerr r = None
                      then r\<lparr>rerr := Some (ErrReleaseTooLarge (unat n))\<rparr> else r);
     r_bytes (unat n) }"

definition UpdateCmd_Unmarshal :: "UpdateCmd \<Rightarrow> byte list \<Rightarrow> UpdateCmd \<times> wire_error option" where
  "UpdateCmd_Unmarshal m b = fst (run_state (do {
     k \<leftarrow> r_u8;
     r \<leftarrow> State_Monad.get;
     if rerr r \<noteq> None \<or> length (rb r) = 0
     then State_Monad.return (m\<lparr>updateCmd_Force := (k = 1)\<rparr>, rerr r)
     else do {
       px \<leftarrow> r_str;
       n \<leftarrow> r_u32;
       rel \<leftarrow> r_release n;
       e \<leftarrow> r_err;
       State_Monad.return (\<lparr>updateCmd_Force = (k = 1), updateCmd_Proxy = px,
         updateCmd_Release = (case rel of None \<Rightarrow> updateCmd_Release m
            | Some x \<Rightarrow> if length x > 0 then x else updateCmd_Release m)\<rparr>, e) } }) (reader0 b))"

record UpdateAck =
  updateAck_OK :: bool
  updateAck_Message :: "byte list"

definition UpdateAck_Marshal :: "UpdateAck \<Rightarrow> byte list" where
  "UpdateAck_Marshal m = marshal (do { w_bool (updateAck_OK m); w_str (updateAck_Message m) })"

definition UpdateAck_Unmarshal :: "byte list \<Rightarrow> UpdateAck \<times> wire_error option" where
  "UpdateAck_Unmarshal b = fst (run_state (do {
     k \<leftarrow> r_u8;
     s \<leftarrow> r_str;
     e \<leftarrow> r_err;
     State_Monad.return (\<lparr>updateAck_OK = (k = 1), updateAck_Message = s\<rparr>, e) }) (reader0 b))"

end
