(* ===== verification/Wire_Codec.thy ===== *)
theory Wire_Codec
  imports Wire "HOL-Library.Sublist"
begin

text \<open>
  Correctness of the frame protocol of theory Wire: a small calculus of
  append-only writers and sticky readers, the interface field_codec with its
  interpretations on the fields and items of the code, and the properties of
  the frames and messages.
\<close>

section \<open>Codec calculus\<close>

text \<open>
  A writer step only appends; a reader step decodes a byte string to a value
  when it consumes exactly that string, and fails on each of its proper
  prefixes; every reader step leaves a reader that has already failed alone.
\<close>

definition appends :: "unit wr \<Rightarrow> bool" where
  "appends m \<longleftrightarrow> (\<forall>w. run_state m w = ((), w\<lparr>wb := wb w @ marshal m\<rparr>))"

definition decodes :: "'a rd \<Rightarrow> byte list \<Rightarrow> 'a \<Rightarrow> bool" where
  "decodes m bs v \<longleftrightarrow>
     (\<forall>r. run_state m (reader0 (bs @ r)) = (v, reader0 r)) \<and>
     (\<forall>p. strict_prefix p bs \<longrightarrow> rerr (snd (run_state m (reader0 p))) \<noteq> None)"

definition sticky :: "'a rd \<Rightarrow> bool" where
  "sticky m \<longleftrightarrow> (\<forall>r. rerr r \<noteq> None \<longrightarrow> snd (run_state m r) = r)"

named_theorems codec_intros \<open>compositional rules for appends, decodes and sticky\<close>

lemma appendsI: "(\<And>w. run_state m w = ((), w\<lparr>wb := wb w @ bs\<rparr>)) \<Longrightarrow> appends m \<and> marshal m = bs"
  by (simp add: appends_def marshal_def writer0_def)

lemma appends_run: "appends m \<Longrightarrow> run_state m w = ((), w\<lparr>wb := wb w @ marshal m\<rparr>)"
  by (simp add: appends_def)

lemma w_append_both: "appends (w_append bs) \<and> marshal (w_append bs) = bs"
  by (rule appendsI) (simp add: w_append_def State_Monad.update_def)

lemmas appends_w_append [codec_intros] = w_append_both [THEN conjunct1]
lemmas marshal_w_append [codec_simps] = w_append_both [THEN conjunct2]

lemma appends_bind_both:
  assumes "appends m" "appends n"
  shows "appends (do { m; n }) \<and> marshal (do { m; n }) = marshal m @ marshal n"
  by (rule appendsI) (simp add: appends_run [OF assms(1)] appends_run [OF assms(2)])

lemmas appends_bind [codec_intros] = appends_bind_both [THEN conjunct1]
lemmas marshal_bind = appends_bind_both [THEN conjunct2]

lemma appends_return_both:
  "appends (State_Monad.return ()) \<and> marshal (State_Monad.return ()) = []"
  by (rule appendsI) simp

lemmas appends_return [codec_intros] = appends_return_both [THEN conjunct1]
lemmas marshal_return [codec_simps] = appends_return_both [THEN conjunct2]

lemma stickyI: "(\<And>r. rerr r \<noteq> None \<Longrightarrow> snd (run_state m r) = r) \<Longrightarrow> sticky m"
  by (simp add: sticky_def)

lemma sticky_run: "sticky m \<Longrightarrow> rerr r \<noteq> None \<Longrightarrow> snd (run_state m r) = r"
  by (simp add: sticky_def)

lemma sticky_bind [codec_intros]:
  "sticky m \<Longrightarrow> (\<And>x. sticky (f x)) \<Longrightarrow> sticky (State_Monad.bind m f)"
  by (rule stickyI) (simp add: sticky_def case_prod_beta)

lemma sticky_return [codec_intros]: "sticky (State_Monad.return x)"
  by (simp add: sticky_def)

lemma sticky_get [codec_intros]: "sticky State_Monad.get"
  by (simp add: sticky_def)

lemma sticky_r_err [codec_intros]: "sticky r_err"
  by (simp add: sticky_def r_err_def)

lemma sticky_r_need [codec_intros]: "sticky (r_need n)"
  by (simp add: sticky_def r_need_def)

lemma sticky_r_uint [codec_intros]: "sticky (r_uint n)"
  by (rule stickyI) (simp add: r_uint_def r_need_def)

lemma sticky_r_bytes [codec_intros]: "sticky (r_bytes n)"
  by (rule stickyI) (simp add: r_bytes_def r_need_def)

lemma sticky_r_times [codec_intros]: "sticky m \<Longrightarrow> sticky (r_times n m)"
  by (induction n) (auto intro!: codec_intros)

lemma sticky_r_count [codec_intros]: "sticky (r_count mx what)"
  by (rule stickyI) (auto simp: r_count_def r_u16_def r_uint_def r_need_def)

lemma decodesI:
  assumes "\<And>r. run_state m (reader0 (bs @ r)) = (v, reader0 r)"
    and "\<And>p. strict_prefix p bs \<Longrightarrow> rerr (snd (run_state m (reader0 p))) \<noteq> None"
  shows "decodes m bs v"
  using assms by (simp add: decodes_def)

lemma decodes_run: "decodes m bs v \<Longrightarrow> run_state m (reader0 (bs @ r)) = (v, reader0 r)"
  by (simp add: decodes_def)

lemma decodes_run_Nil: "decodes m bs v \<Longrightarrow> run_state m (reader0 bs) = (v, reader0 [])"
  using decodes_run [of m bs v "[]"] by simp

lemma decodes_short:
  "decodes m bs v \<Longrightarrow> strict_prefix p bs \<Longrightarrow> rerr (snd (run_state m (reader0 p))) \<noteq> None"
  by (simp add: decodes_def)

lemma strict_prefix_append_cases:
  assumes "strict_prefix p (bs @ cs)"
  obtains "strict_prefix p bs" | q where "p = bs @ q" "strict_prefix q cs"
  using assms by (cases "p = bs") (auto simp: strict_prefix_def prefix_append)

lemma decodes_bind:
  assumes m: "decodes m bs a" and f: "decodes (f a) cs v" and s: "\<And>x. sticky (f x)"
  shows "decodes (State_Monad.bind m f) (bs @ cs) v"
proof (rule decodesI)
  show "run_state (State_Monad.bind m f) (reader0 ((bs @ cs) @ r)) = (v, reader0 r)" for r
    by (simp add: decodes_run [OF m] decodes_run [OF f])
  fix p assume "strict_prefix p (bs @ cs)"
  then show "rerr (snd (run_state (State_Monad.bind m f) (reader0 p))) \<noteq> None"
  proof (cases rule: strict_prefix_append_cases)
    case 1
    then show ?thesis
      using decodes_short [OF m] sticky_run [OF s] by (simp split: prod.splits) (metis snd_conv)
  next
    case (2 q)
    then show ?thesis
      using decodes_short [OF f] by (simp add: decodes_run [OF m])
  qed
qed

lemma decodes_return: "decodes (State_Monad.return v) [] v"
  by (simp add: decodes_def)

lemma decodes_r_err: "decodes r_err [] None"
  by (simp add: decodes_def r_err_def reader0_def)

lemmas decodes_bind_Nil = decodes_bind [where cs = "[]", simplified]
lemmas decodes_Nil_bind = decodes_bind [where bs = "[]", simplified]

lemma decodes_r_uint:
  assumes "LENGTH('a) = 8 * n"
  shows "decodes (r_uint n) (be_put (v :: 'a::len word)) v"
proof (rule decodesI)
  have n: "length (be_put v) = n" using assms by simp
  show "run_state (r_uint n) (reader0 (be_put v @ r)) = (v, reader0 r)" for r
    using n assms by (simp add: r_uint_def r_need_def reader0_def be_get_put)
  show "rerr (snd (run_state (r_uint n :: 'a word rd) (reader0 p))) \<noteq> None"
    if "strict_prefix p (be_put v)" for p
    using prefix_length_less [OF that] n by (simp add: r_uint_def r_need_def reader0_def)
qed

lemma decodes_r_bytes: "decodes (r_bytes (length bs)) bs (Some bs)"
  by (rule decodesI) (auto simp: r_bytes_def r_need_def reader0_def dest: prefix_length_less)


section \<open>The interface of a field\<close>

text \<open>
  A field codec: a writer and a reader of the same field.  norm is what the
  reader returns for a written value (writers may truncate or normalise), ok
  the values the Go type can hold.
\<close>

locale field_codec =
  fixes wr :: "'a \<Rightarrow> unit wr" and rd :: "'b rd" and norm :: "'a \<Rightarrow> 'b" and ok :: "'a \<Rightarrow> bool"
  assumes wr_appends: "appends (wr a)"
    and rd_decodes: "ok a \<Longrightarrow> decodes rd (marshal (wr a)) (norm a)"
    and rd_sticky: "sticky rd"
begin

lemma each_appends: "appends (w_each wr xs)"
  by (induction xs) (auto intro: codec_intros wr_appends)

lemma each_marshal: "marshal (w_each wr (x # xs)) = marshal (wr x) @ marshal (w_each wr xs)"
  by (simp add: marshal_bind wr_appends each_appends)

lemma times_decodes:
  "list_all ok xs \<Longrightarrow> decodes (r_times (length xs) rd) (marshal (w_each wr xs)) (map norm xs)"
proof (induction xs)
  case Nil
  then show ?case by (simp add: codec_simps decodes_return)
next
  case (Cons x xs)
  then have x: "ok x" and xs: "list_all ok xs" by simp_all
  show ?case
    unfolding each_marshal length_Cons r_times.simps list.map
    by (rule decodes_bind [OF rd_decodes [OF x] decodes_bind_Nil [OF Cons.IH [OF xs]]])
       (intro decodes_return codec_intros rd_sticky)+
qed

lemma while_ok_sticky: "sticky (r_while_ok n rd)"
  by (induction n) (auto intro!: codec_intros rd_sticky)

lemma while_ok_decodes:
  "list_all ok xs \<Longrightarrow> decodes (r_while_ok (length xs) rd) (marshal (w_each wr xs)) (map norm xs)"
proof (induction xs)
  case Nil
  then show ?case by (simp add: codec_simps decodes_return)
next
  case (Cons x xs)
  then have x: "ok x" and xs: "list_all ok xs" by simp_all
  have "decodes (do { x \<leftarrow> rd; xs \<leftarrow> r_while_ok (length xs) rd; State_Monad.return (x # xs) })
          (marshal (wr x) @ marshal (w_each wr xs)) (norm x # map norm xs)"
    by (rule decodes_bind [OF rd_decodes [OF x] decodes_bind_Nil [OF Cons.IH [OF xs]]])
       (intro decodes_return codec_intros while_ok_sticky)+
  then show ?case
    unfolding each_marshal length_Cons r_while_ok.simps list.map
    by (intro decodes_Nil_bind [OF decodes_r_err])
       (auto intro!: codec_intros rd_sticky while_ok_sticky)
qed

end

section \<open>Fields of the frame protocol\<close>

definition norm_ip :: "Addr \<Rightarrow> Addr" where
  "norm_ip a = (case addr_Unmap a of Addr6 w z \<Rightarrow> Addr6 w [] | b \<Rightarrow> b)"

abbreviation any :: "'a \<Rightarrow> bool" where "any \<equiv> \<lambda>_. True"

lemma r_uints_unfold:
  "r_u8 = r_uint 1" "r_u16 = r_uint 2" "r_u32 = r_uint 4" "r_u64 = r_uint 8" "r_i64 = r_uint 8"
  by (simp_all add: r_u8_def r_u16_def r_u32_def r_u64_def r_i64_def)

lemma marshal_uints [codec_simps]:
  "marshal (w_u8 a) = be_put a" "marshal (w_u16 b) = be_put b" "marshal (w_u32 c) = be_put c"
  "marshal (w_u64 d) = be_put d" "marshal (w_i64 d) = be_put d"
  by (simp_all add: w_u8_def w_u16_def w_u32_def w_u64_def w_i64_def marshal_w_append be_put_def)

lemma appends_uints [codec_intros]:
  "appends (w_u8 a)" "appends (w_u16 b)" "appends (w_u32 c)" "appends (w_u64 d)" "appends (w_i64 d)"
  by (simp_all add: w_u8_def w_u16_def w_u32_def w_u64_def w_i64_def appends_w_append)

interpretation c8: field_codec w_u8 r_u8 "\<lambda>v. v" any
  by unfold_locales
     (simp_all add: marshal_uints r_uints_unfold codec_intros decodes_r_uint del: One_nat_def)

interpretation c16: field_codec w_u16 r_u16 "\<lambda>v. v" any
  by unfold_locales (simp_all add: marshal_uints r_uints_unfold codec_intros decodes_r_uint)

interpretation c32: field_codec w_u32 r_u32 "\<lambda>v. v" any
  by unfold_locales (simp_all add: marshal_uints r_uints_unfold codec_intros decodes_r_uint)

interpretation c64: field_codec w_u64 r_u64 "\<lambda>v. v" any
  by unfold_locales (simp_all add: marshal_uints r_uints_unfold codec_intros decodes_r_uint)

interpretation ci64: field_codec w_i64 r_i64 "\<lambda>v. v" any
  by unfold_locales (simp_all add: marshal_uints r_uints_unfold codec_intros decodes_r_uint)

lemma w_str_cap: "w_str s = do { w_u16 (of_nat (length (cap maxString s))); w_append (cap maxString s) }"
  by (simp add: w_str_def cap_def)

lemma length_cap: "length (cap n xs) = min n (length xs)"
  by (simp add: cap_def)

lemma unat_of_nat16 [simp]: "n < 65536 \<Longrightarrow> unat (of_nat n :: 16 word) = n"
  by (simp add: unat_of_nat take_bit_eq_mod)

interpretation cstr: field_codec w_str r_str "cap maxString" any
proof
  show "appends (w_str s)" for s :: "byte list"
    unfolding w_str_cap by (intro codec_intros c16.wr_appends)
  show "sticky r_str"
    unfolding r_str_def by (intro codec_intros c16.rd_sticky)
  fix s :: "byte list"
  have len: "unat (of_nat (length (cap maxString s)) :: 16 word) = length (cap maxString s)"
    by (rule unat_of_nat16) (simp add: length_cap maxString_def)
  have "marshal (w_str s) = be_put (of_nat (length (cap maxString s)) :: 16 word) @ cap maxString s"
    unfolding w_str_cap by (simp add: marshal_bind codec_intros c16.wr_appends codec_simps)
  moreover have "decodes r_str \<dots> (cap maxString s)"
    unfolding r_str_def
    by (rule decodes_bind [OF c16.rd_decodes [unfolded codec_simps]], simp_all add: len)
       (auto intro!: decodes_bind_Nil [OF decodes_r_bytes] decodes_return codec_intros)
  ultimately show "decodes r_str (marshal (w_str s)) (cap maxString s)" by simp
qed

lemma w_ip_norm:
  "w_ip a = (case norm_ip a of AddrZero \<Rightarrow> w_u8 0
     | Addr4 w \<Rightarrow> do { w_u8 4; w_append (be_put w) }
     | Addr6 w z \<Rightarrow> do { w_u8 16; w_append (be_put w) })"
  by (cases a) (auto simp: w_ip_def norm_ip_def)

lemma norm_ip_zone: "norm_ip a = Addr6 w z \<Longrightarrow> z = []"
  by (auto simp: norm_ip_def split: Addr.splits)

lemma sticky_if [codec_intros]: "sticky m \<Longrightarrow> sticky n \<Longrightarrow> sticky (if c then m else n)"
  by simp

lemma sticky_fail [codec_intros]:
  "sticky (do { r \<leftarrow> State_Monad.get;
     State_Monad.set (if rerr r = None then g r else r); State_Monad.return x })"
  by (rule stickyI) auto

lemma decodes_returnI: "v = v' \<Longrightarrow> decodes (State_Monad.return v) [] v'"
  by (simp add: decodes_return)

lemma decodes_r_ip_tagged:
  assumes "length bs = n" "n = 4 \<or> n = 16"
  shows "decodes r_ip (be_put (of_nat n :: 8 word) @ bs) (if n = 4 then AddrFrom4 bs else AddrFrom16 bs)"
proof -
  have "decodes (r_bytes n) bs (Some bs)"
    using decodes_r_bytes [of bs] assms by simp
  then have "decodes (do { b \<leftarrow> r_bytes n;
       State_Monad.return (case b of None \<Rightarrow> AddrZero | Some b \<Rightarrow> f b) }) bs (f bs)" for f
    by (rule decodes_bind_Nil) (auto intro: decodes_return codec_intros)
  with assms(2) show ?thesis
    unfolding r_ip_def
    by (intro decodes_bind [OF c8.rd_decodes [unfolded marshal_uints]] TrueI codec_intros)
       auto
qed

interpretation cip: field_codec w_ip r_ip norm_ip any
proof
  show "appends (w_ip a)" for a
    unfolding w_ip_norm by (auto split: Addr.splits intro!: codec_intros)
  show "sticky r_ip"
    unfolding r_ip_def by (intro codec_intros c8.rd_sticky)
  fix a
  show "decodes r_ip (marshal (w_ip a)) (norm_ip a)"
  proof (cases "norm_ip a")
    case AddrZero
    then show ?thesis
      unfolding w_ip_norm r_ip_def AddrZero Addr.case marshal_uints
      by (intro decodes_bind_Nil [OF c8.rd_decodes [unfolded marshal_uints]] TrueI codec_intros)
         (simp add: decodes_return)
  next
    case (Addr4 w)
    then show ?thesis
      using decodes_r_ip_tagged [of "be_put w" 4]
      by (simp add: w_ip_norm marshal_bind codec_intros codec_simps AddrFrom4_def)
  next
    case (Addr6 w z)
    then show ?thesis
      using decodes_r_ip_tagged [of "be_put w" 16] norm_ip_zone [OF Addr6]
      by (simp add: w_ip_norm marshal_bind codec_intros codec_simps AddrFrom16_def)
  qed
qed

lemmas field_appends [codec_intros] = cstr.wr_appends cip.wr_appends
lemmas field_sticky [codec_intros] =
  c8.rd_sticky c16.rd_sticky c32.rd_sticky c64.rd_sticky ci64.rd_sticky cstr.rd_sticky cip.rd_sticky

text \<open>Decoding a sequence of fields: one rule per field, tried left to right.\<close>

lemmas seq_decodes =
  decodes_bind [OF c8.rd_decodes [OF TrueI, unfolded marshal_uints]]
  decodes_bind [OF c16.rd_decodes [OF TrueI, unfolded marshal_uints]]
  decodes_bind [OF c32.rd_decodes [OF TrueI, unfolded marshal_uints]]
  decodes_bind [OF c64.rd_decodes [OF TrueI, unfolded marshal_uints]]
  decodes_bind [OF ci64.rd_decodes [OF TrueI, unfolded marshal_uints]]
  decodes_bind [OF cstr.rd_decodes [OF TrueI]]
  decodes_bind [OF cip.rd_decodes [OF TrueI]]

lemma decodes_append_Nil: "decodes m (bs @ []) v \<Longrightarrow> decodes m bs v"
  by simp

definition wf_PeerStat :: "PeerStat \<Rightarrow> bool" where
  "wf_PeerStat p \<longleftrightarrow> length (ps_PublicKey p) = 32"

definition norm_IPStat :: "IPStat \<Rightarrow> IPStat" where
  "norm_IPStat s = s\<lparr>is_IP := norm_ip (is_IP s)\<rparr>"

definition norm_ForwardStat :: "ForwardStat \<Rightarrow> ForwardStat" where
  "norm_ForwardStat f = f\<lparr>fs_Protocol := cap maxString (fs_Protocol f),
                           fs_Listen := cap maxString (fs_Listen f)\<rparr>"

definition norm_PresenceNode :: "PresenceNode \<Rightarrow> PresenceNode" where
  "norm_PresenceNode e = e\<lparr>pn_NodeID := cap maxString (pn_NodeID e)\<rparr>"

interpretation cpeer: field_codec w_PeerStat r_PeerStat "\<lambda>p. p\<lparr>ps_HandshakeRTTMicros := 0\<rparr>" wf_PeerStat
proof
  show "appends (w_PeerStat p)" for p
    unfolding w_PeerStat_def by (intro codec_intros)
  show "sticky r_PeerStat"
    unfolding r_PeerStat_def by (intro codec_intros)
  fix p :: PeerStat assume "wf_PeerStat p"
  then have "decodes (r_bytes 32) (ps_PublicKey p) (Some (ps_PublicKey p))" "length (ps_PublicKey p) = 32"
    using decodes_r_bytes [of "ps_PublicKey p"] by (simp_all add: wf_PeerStat_def)
  note key = this(1) and len = this(2)
  have "marshal (w_PeerStat p) = ps_PublicKey p @ be_put (ps_RxBytes p) @ be_put (ps_TxBytes p)
          @ be_put (ps_LastHandshakeNano p) @ []"
    unfolding w_PeerStat_def by (simp add: marshal_bind codec_intros codec_simps)
  moreover have "decodes r_PeerStat \<dots> (p\<lparr>ps_HandshakeRTTMicros := 0\<rparr>)"
    unfolding r_PeerStat_def
    by (intro decodes_bind [OF key] seq_decodes codec_intros decodes_returnI)
       (use len in \<open>cases p, simp add: copy32_def\<close>)
  ultimately show "decodes r_PeerStat (marshal (w_PeerStat p)) (p\<lparr>ps_HandshakeRTTMicros := 0\<rparr>)"
    by simp
qed

interpretation cips: field_codec w_IPStat r_IPStat norm_IPStat any
proof
  show "appends (w_IPStat p)" for p
    unfolding w_IPStat_def by (intro codec_intros)
  show "sticky r_IPStat"
    unfolding r_IPStat_def by (intro codec_intros)
  fix s :: IPStat
  have "marshal (w_IPStat s) = marshal (w_ip (is_IP s)) @ be_put (is_RxBytes s) @ be_put (is_TxBytes s) @ []"
    unfolding w_IPStat_def by (simp add: marshal_bind codec_intros codec_simps)
  moreover have "decodes r_IPStat \<dots> (norm_IPStat s)"
    unfolding r_IPStat_def
    by (intro seq_decodes codec_intros decodes_returnI) (cases s, simp add: norm_IPStat_def)
  ultimately show "decodes r_IPStat (marshal (w_IPStat s)) (norm_IPStat s)" by simp
qed

interpretation cfwd: field_codec w_ForwardStat r_ForwardStat norm_ForwardStat any
proof
  show "appends (w_ForwardStat p)" for p
    unfolding w_ForwardStat_def by (intro codec_intros)
  show "sticky r_ForwardStat"
    unfolding r_ForwardStat_def by (intro codec_intros)
  fix f :: ForwardStat
  have "marshal (w_ForwardStat f) = marshal (w_str (fs_Protocol f)) @ marshal (w_str (fs_Listen f))
          @ be_put (fs_RxBytes f) @ be_put (fs_TxBytes f) @ []"
    unfolding w_ForwardStat_def by (simp add: marshal_bind codec_intros codec_simps)
  moreover have "decodes r_ForwardStat \<dots> (norm_ForwardStat f)"
    unfolding r_ForwardStat_def
    by (intro seq_decodes codec_intros decodes_returnI) (cases f, simp add: norm_ForwardStat_def)
  ultimately show "decodes r_ForwardStat (marshal (w_ForwardStat f)) (norm_ForwardStat f)" by simp
qed

interpretation cpn: field_codec w_PresenceNode r_PresenceNode norm_PresenceNode any
proof
  show "appends (w_PresenceNode p)" for p
    unfolding w_PresenceNode_def by (intro codec_intros)
  show "sticky r_PresenceNode"
    unfolding r_PresenceNode_def by (intro codec_intros)
  fix e :: PresenceNode
  have "marshal (w_PresenceNode e) = marshal (w_str (pn_NodeID e)) @ be_put (pn_Link e)
          @ be_put (pn_LastSeenMs e) @ be_put (pn_RxRate e) @ be_put (pn_TxRate e)
          @ be_put (pn_RTTMicros e) @ []"
    unfolding w_PresenceNode_def by (simp add: marshal_bind codec_intros codec_simps)
  moreover have "decodes r_PresenceNode \<dots> (norm_PresenceNode e)"
    unfolding r_PresenceNode_def
    by (intro seq_decodes codec_intros decodes_returnI) (cases e, simp add: norm_PresenceNode_def)
  ultimately show "decodes r_PresenceNode (marshal (w_PresenceNode e)) (norm_PresenceNode e)" by simp
qed

interpretation crtt: field_codec "\<lambda>p. w_u32 (ps_HandshakeRTTMicros p)" r_u32 ps_HandshakeRTTMicros any
  by unfold_locales (auto intro: codec_intros c32.rd_decodes)

lemmas item_sticky [codec_intros] =
  cpeer.rd_sticky cips.rd_sticky cfwd.rd_sticky cpn.rd_sticky cpn.while_ok_sticky
lemmas item_appends [codec_intros] =
  cpeer.each_appends cips.each_appends cfwd.each_appends cpn.each_appends crtt.each_appends

section \<open>Counted sections\<close>

lemma decodes_r_count:
  assumes "n \<le> mx" "mx < 65536"
  shows "decodes (r_count mx what) (be_put (of_nat n :: 16 word)) n"
proof -
  have n: "unat (of_nat n :: 16 word) = n" using assms by simp
  have "decodes (do { r \<leftarrow> State_Monad.get;
     State_Monad.set (if unat (of_nat n :: 16 word) > mx \<and> rerr r = None
                      then r\<lparr>rerr := Some (ErrTooMany what (unat (of_nat n :: 16 word)))\<rparr> else r);
     State_Monad.return (unat (of_nat n :: 16 word)) }) [] n"
    by (rule decodesI) (use assms n in \<open>auto simp: strict_prefix_def\<close>)
  then show ?thesis
    unfolding r_count_def
    by (intro decodes_bind_Nil [OF c16.rd_decodes [unfolded marshal_uints]])
       (auto intro: stickyI)
qed

lemma sticky_r_section [codec_intros]: "sticky item \<Longrightarrow> sticky (r_section mx what item old)"
  unfolding r_section_def by (intro codec_intros)

context field_codec
begin

lemma section_decodes:
  assumes "list_all ok xs" "length xs \<le> mx" "mx < 65536"
  shows "decodes (r_section mx what rd old)
           (be_put (of_nat (length xs) :: 16 word) @ marshal (w_each wr xs)) (map norm xs)"
  unfolding r_section_def
  by (intro decodes_bind [OF decodes_r_count] decodes_Nil_bind [OF decodes_r_err] codec_intros
        rd_sticky assms)
     (simp add: times_decodes assms)

end

section \<open>Messages\<close>

text \<open>
  The contract of a message type: unmarshalling a marshalled message gives it
  back up to normalisation, and no proper prefix of it is accepted.
\<close>

definition message_ok :: "('m \<Rightarrow> byte list) \<Rightarrow> (byte list \<Rightarrow> 'm \<times> wire_error option) \<Rightarrow> ('m \<Rightarrow> 'm) \<Rightarrow> bool"
  where "message_ok mar unmar norm \<longleftrightarrow>
     (\<forall>m. unmar (mar m) = (norm m, None) \<and>
          (\<forall>p. strict_prefix p (mar m) \<longrightarrow> snd (unmar p) \<noteq> None))"

text \<open>A reader program that returns its own error last.\<close>

definition reports :: "('m \<times> wire_error option) rd \<Rightarrow> bool" where
  "reports m \<longleftrightarrow> (\<forall>r. snd (fst (run_state m r)) = rerr (snd (run_state m r)))"

lemma reports_bind [codec_intros]: "(\<And>x. reports (f x)) \<Longrightarrow> reports (State_Monad.bind m f)"
  by (simp add: reports_def case_prod_beta)

lemma reports_err [codec_intros]: "reports (State_Monad.bind r_err (\<lambda>e. State_Monad.return (x, e)))"
  by (simp add: reports_def r_err_def)

lemma reports_short:
  "decodes m bs v \<Longrightarrow> reports m \<Longrightarrow> strict_prefix p bs \<Longrightarrow> snd (fst (run_state m (reader0 p))) \<noteq> None"
  by (simp add: reports_def decodes_short)

lemma message_okI:
  assumes "\<And>m. decodes prog (mar m) (norm m, None)" "reports prog"
    and "\<And>b. unmar b = fst (run_state prog (reader0 b))"
  shows "message_ok mar unmar norm"
  using assms(1) reports_short [OF assms(1,2)]
  by (auto simp: message_ok_def assms(3) decodes_run_Nil [OF assms(1)])

lemma seq_done:
  "decodes (do { e \<leftarrow> r_err; State_Monad.return (x, e) }) [] (x, None)"
  by (intro decodes_Nil_bind [OF decodes_r_err] decodes_return codec_intros)

definition norm_Hello :: "Hello \<Rightarrow> Hello" where
  "norm_Hello m = \<lparr>hello_Token = cap maxString (hello_Token m), hello_Version = cap maxString (hello_Version m),
     hello_PublicV4 = norm_ip (hello_PublicV4 m), hello_PublicV6 = norm_ip (hello_PublicV6 m)\<rparr>"

lemma Hello_bytes:
  "Hello_Marshal m = marshal (w_str (hello_Token m)) @ marshal (w_str (hello_Version m))
     @ marshal (w_ip (hello_PublicV4 m)) @ marshal (w_ip (hello_PublicV6 m)) @ []"
  by (simp add: Hello_Marshal_def marshal_bind codec_intros)

lemma Hello_ok: "message_ok Hello_Marshal Hello_Unmarshal norm_Hello"
  by (rule message_okI [OF _ _ Hello_Unmarshal_def]; (unfold Hello_bytes norm_Hello_def)?)
     (intro seq_decodes seq_done codec_intros)+

definition norm_HelloAck :: "HelloAck \<Rightarrow> HelloAck" where
  "norm_HelloAck m = \<lparr>helloAck_NodeID = cap maxString (helloAck_NodeID m),
     helloAck_StatsIntervalMs = helloAck_StatsIntervalMs m\<rparr>"

lemma HelloAck_bytes:
  "HelloAck_Marshal m = marshal (w_str (helloAck_NodeID m)) @ be_put (helloAck_StatsIntervalMs m) @ []"
  by (simp add: HelloAck_Marshal_def marshal_bind codec_intros codec_simps)

lemma HelloAck_ok: "message_ok HelloAck_Marshal HelloAck_Unmarshal norm_HelloAck"
  by (rule message_okI [OF _ _ HelloAck_Unmarshal_def]; (unfold HelloAck_bytes norm_HelloAck_def)?)
     (intro seq_decodes seq_done codec_intros)+

lemma Ping_bytes: "Ping_Marshal m = be_put (ping_UnixNano m) @ []"
  by (simp add: Ping_Marshal_def codec_simps)

lemma Ping_ok: "message_ok Ping_Marshal Ping_Unmarshal (\<lambda>m. m)"
proof -
  have "message_ok Ping_Marshal Ping_Unmarshal (\<lambda>m. \<lparr>ping_UnixNano = ping_UnixNano m\<rparr>)"
    by (rule message_okI [OF _ _ Ping_Unmarshal_def]; (unfold Ping_bytes)?)
       (intro seq_decodes seq_done codec_intros)+
  then show ?thesis by (simp add: message_ok_def)
qed

lemma w_bool_u8: "w_bool v = w_u8 (of_bool v)"
  by (simp add: w_bool_def)

definition norm_ConfigAck :: "ConfigAck \<Rightarrow> ConfigAck" where
  "norm_ConfigAck m = \<lparr>configAck_Revision = configAck_Revision m,
     configAck_OK = configAck_OK m, configAck_Error = cap maxString (configAck_Error m)\<rparr>"

lemma norm_ConfigAck_alt:
  "norm_ConfigAck m = \<lparr>configAck_Revision = configAck_Revision m,
     configAck_OK = ((of_bool (configAck_OK m) :: byte) = 1),
     configAck_Error = cap maxString (configAck_Error m)\<rparr>"
  by (simp add: norm_ConfigAck_def)

lemma ConfigAck_bytes:
  "ConfigAck_Marshal m = be_put (configAck_Revision m) @ be_put (of_bool (configAck_OK m) :: byte)
     @ marshal (w_str (configAck_Error m)) @ []"
  by (simp add: ConfigAck_Marshal_def w_bool_u8 marshal_bind codec_intros codec_simps)

lemma ConfigAck_ok: "message_ok ConfigAck_Marshal ConfigAck_Unmarshal norm_ConfigAck"
  by (rule message_okI [OF _ _ ConfigAck_Unmarshal_def]; (unfold ConfigAck_bytes norm_ConfigAck_alt)?)
     (intro seq_decodes seq_done codec_intros)+

definition norm_ErrorMsg :: "ErrorMsg \<Rightarrow> ErrorMsg" where
  "norm_ErrorMsg m = \<lparr>errorMsg_Code = errorMsg_Code m,
     errorMsg_Message = cap maxString (errorMsg_Message m)\<rparr>"

lemma ErrorMsg_bytes:
  "ErrorMsg_Marshal m = be_put (errorMsg_Code m) @ marshal (w_str (errorMsg_Message m)) @ []"
  by (simp add: ErrorMsg_Marshal_def marshal_bind codec_intros codec_simps)

lemma ErrorMsg_ok: "message_ok ErrorMsg_Marshal ErrorMsg_Unmarshal norm_ErrorMsg"
  by (rule message_okI [OF _ _ ErrorMsg_Unmarshal_def]; (unfold ErrorMsg_bytes norm_ErrorMsg_def)?)
     (intro seq_decodes seq_done codec_intros)+

definition norm_UIHello :: "UIHello \<Rightarrow> UIHello" where
  "norm_UIHello m = \<lparr>uiHello_Token = cap maxString (uiHello_Token m)\<rparr>"

lemma UIHello_bytes: "UIHello_Marshal m = marshal (w_str (uiHello_Token m)) @ []"
  by (simp add: UIHello_Marshal_def)

lemma UIHello_ok: "message_ok UIHello_Marshal UIHello_Unmarshal norm_UIHello"
  by (rule message_okI [OF _ _ UIHello_Unmarshal_def]; (unfold UIHello_bytes norm_UIHello_def)?)
     (intro seq_decodes seq_done codec_intros)+

lemma UIHelloAck_bytes: "UIHelloAck_Marshal m = be_put (uiHelloAck_PresenceIntervalMs m) @ []"
  by (simp add: UIHelloAck_Marshal_def codec_simps)

lemma UIHelloAck_ok: "message_ok UIHelloAck_Marshal UIHelloAck_Unmarshal (\<lambda>m. m)"
proof -
  have "message_ok UIHelloAck_Marshal UIHelloAck_Unmarshal
      (\<lambda>m. \<lparr>uiHelloAck_PresenceIntervalMs = uiHelloAck_PresenceIntervalMs m\<rparr>)"
    by (rule message_okI [OF _ _ UIHelloAck_Unmarshal_def]; (unfold UIHelloAck_bytes)?)
       (intro seq_decodes seq_done codec_intros)+
  then show ?thesis by (simp add: message_ok_def)
qed

definition norm_UISubscribe :: "UISubscribe \<Rightarrow> UISubscribe" where
  "norm_UISubscribe m = \<lparr>uiSubscribe_NodeID = cap maxString (uiSubscribe_NodeID m)\<rparr>"

lemma UISubscribe_bytes: "UISubscribe_Marshal m = marshal (w_str (uiSubscribe_NodeID m)) @ []"
  by (simp add: UISubscribe_Marshal_def)

lemma UISubscribe_ok: "message_ok UISubscribe_Marshal UISubscribe_Unmarshal norm_UISubscribe"
  by (rule message_okI [OF _ _ UISubscribe_Unmarshal_def]; (unfold UISubscribe_bytes norm_UISubscribe_def)?)
     (intro seq_decodes seq_done codec_intros)+

definition norm_UpdateAck :: "UpdateAck \<Rightarrow> UpdateAck" where
  "norm_UpdateAck m = \<lparr>updateAck_OK = updateAck_OK m,
     updateAck_Message = cap maxString (updateAck_Message m)\<rparr>"

lemma norm_UpdateAck_alt:
  "norm_UpdateAck m = \<lparr>updateAck_OK = ((of_bool (updateAck_OK m) :: byte) = 1),
     updateAck_Message = cap maxString (updateAck_Message m)\<rparr>"
  by (simp add: norm_UpdateAck_def)

lemma UpdateAck_bytes:
  "UpdateAck_Marshal m = be_put (of_bool (updateAck_OK m) :: byte) @ marshal (w_str (updateAck_Message m)) @ []"
  by (simp add: UpdateAck_Marshal_def w_bool_u8 marshal_bind codec_intros codec_simps)

lemma UpdateAck_ok: "message_ok UpdateAck_Marshal UpdateAck_Unmarshal norm_UpdateAck"
  by (rule message_okI [OF _ _ UpdateAck_Unmarshal_def]; (unfold UpdateAck_bytes norm_UpdateAck_alt)?)
     (intro seq_decodes seq_done codec_intros)+

definition norm_Presence :: "Presence \<Rightarrow> Presence" where
  "norm_Presence p = \<lparr>presence_NowMs = presence_NowMs p,
     presence_Nodes = map norm_PresenceNode (take MaxPresenceNodes (presence_Nodes p))\<rparr>"

lemma take_min_length: "take (min n (length xs)) xs = take n xs"
  by (simp add: min_def)

lemma Presence_bytes:
  "Presence_Marshal p = (let ns = take MaxPresenceNodes (presence_Nodes p) in
     be_put (presence_NowMs p) @ be_put (of_nat (length ns) :: 16 word) @ marshal (w_each w_PresenceNode ns) @ [])"
  by (simp add: Presence_Marshal_def Let_def marshal_bind codec_intros codec_simps take_min_length min.commute)

lemma reports_err_if [codec_intros]:
  "reports g \<Longrightarrow> reports (State_Monad.bind r_err (\<lambda>e. if e \<noteq> None then State_Monad.return (x, e) else g))"
  by (simp add: reports_def r_err_def)

lemma Presence_ok: "message_ok Presence_Marshal (Presence_Unmarshal p0) norm_Presence"
proof (rule message_okI [OF _ _ Presence_Unmarshal_def], goal_cases)
  case (1 p)
  define ns where "ns = take MaxPresenceNodes (presence_Nodes p)"
  have n: "length ns \<le> MaxPresenceNodes" "MaxPresenceNodes < 65536"
    by (simp_all add: ns_def MaxPresenceNodes_def)
  have ok: "list_all any ns" by (simp add: list_all_iff)
  show ?case
    unfolding Presence_bytes Let_def norm_Presence_def ns_def [symmetric]
    by (intro seq_decodes decodes_bind [OF decodes_r_count] decodes_Nil_bind [OF decodes_r_err]
          n codec_intros)
       (simp, intro decodes_bind_Nil [OF cpn.while_ok_decodes [OF ok]] seq_done codec_intros)
next
  case 2
  show ?case by (intro reports_bind reports_err_if reports_err)
qed

section \<open>Messages with optional trailing parts\<close>

lemma decodes_r_release:
  assumes "length bs \<le> maxReleaseBytes"
  shows "decodes (r_release (of_nat (length bs))) bs (Some bs)"
proof -
  have "unat (of_nat (length bs) :: 32 word) = length bs"
    using assms by (simp add: unat_of_nat take_bit_eq_mod maxReleaseBytes_def)
  then show ?thesis
    using assms decodes_r_bytes [of bs] by (simp add: decodes_def r_release_def)
qed

lemma sticky_r_release [codec_intros]: "sticky (r_release n)"
  by (rule stickyI) (auto simp: r_release_def r_bytes_def r_need_def)

definition UpdateCmd0 :: UpdateCmd where
  "UpdateCmd0 = \<lparr>updateCmd_Force = False, updateCmd_Proxy = [], updateCmd_Release = []\<rparr>"

definition kept_release :: "byte list \<Rightarrow> byte list" where
  "kept_release rel = (if length rel > maxReleaseBytes then [] else rel)"

definition norm_UpdateCmd :: "UpdateCmd \<Rightarrow> UpdateCmd" where
  "norm_UpdateCmd m = \<lparr>updateCmd_Force = updateCmd_Force m,
     updateCmd_Proxy = cap maxString (updateCmd_Proxy m),
     updateCmd_Release = kept_release (updateCmd_Release m)\<rparr>"

definition UpdateCmd_tail :: "UpdateCmd \<Rightarrow> byte list" where
  "UpdateCmd_tail m = (let rel = kept_release (updateCmd_Release m) in
     if updateCmd_Proxy m = [] \<and> rel = [] then []
     else marshal (w_str (updateCmd_Proxy m)) @ be_put (of_nat (length rel) :: 32 word) @ rel @ [])"

lemma UpdateCmd_bytes:
  "UpdateCmd_Marshal m = be_put (of_bool (updateCmd_Force m) :: byte) @ UpdateCmd_tail m"
  by (simp add: UpdateCmd_Marshal_def UpdateCmd_tail_def kept_release_def Let_def w_bool_u8
        marshal_bind codec_intros codec_simps)

definition r_UpdateCmd_tail :: "UpdateCmd \<Rightarrow> byte \<Rightarrow> (UpdateCmd \<times> wire_error option) rd" where
  "r_UpdateCmd_tail m0 k = do {
     px \<leftarrow> r_str;
     n \<leftarrow> r_u32;
     rel \<leftarrow> r_release n;
     e \<leftarrow> r_err;
     State_Monad.return (\<lparr>updateCmd_Force = (k = 1), updateCmd_Proxy = px,
       updateCmd_Release = (case rel of None \<Rightarrow> updateCmd_Release m0
         | Some x \<Rightarrow> if length x > 0 then x else updateCmd_Release m0)\<rparr>, e) }"

lemma UpdateCmd_Unmarshal_cases:
  "UpdateCmd_Unmarshal UpdateCmd0 [] = (UpdateCmd0, Some ErrShort)"
  "UpdateCmd_Unmarshal UpdateCmd0 [k] = (UpdateCmd0\<lparr>updateCmd_Force := (k = 1)\<rparr>, None)"
  "b \<noteq> [] \<Longrightarrow> UpdateCmd_Unmarshal UpdateCmd0 (k # b) = fst (run_state (r_UpdateCmd_tail UpdateCmd0 k) (reader0 b))"
  by (simp_all add: UpdateCmd_Unmarshal_def r_UpdateCmd_tail_def r_u8_def r_uint_def
        r_need_def reader0_def be_get_def) (simp add: UpdateCmd0_def)

lemma be_put_byte: "be_put (k :: byte) = [k]"
  by (simp add: be_put_def)

lemma reports_UpdateCmd_tail: "reports (r_UpdateCmd_tail m0 k)"
  unfolding r_UpdateCmd_tail_def by (intro codec_intros)

lemma decodes_UpdateCmd_tail:
  assumes "UpdateCmd_tail m \<noteq> []"
  shows "decodes (r_UpdateCmd_tail UpdateCmd0 (of_bool (updateCmd_Force m))) (UpdateCmd_tail m) (norm_UpdateCmd m, None)"
proof -
  define rel where "rel = kept_release (updateCmd_Release m)"
  have len: "length rel \<le> maxReleaseBytes"
    by (simp add: rel_def kept_release_def)
  have tail: "UpdateCmd_tail m = marshal (w_str (updateCmd_Proxy m)) @ be_put (of_nat (length rel) :: 32 word) @ rel @ []"
    using assms by (auto simp: UpdateCmd_tail_def Let_def rel_def split: if_splits)
  have norm: "norm_UpdateCmd m = \<lparr>updateCmd_Force = ((of_bool (updateCmd_Force m) :: byte) = 1),
     updateCmd_Proxy = cap maxString (updateCmd_Proxy m),
     updateCmd_Release = (case Some rel of None \<Rightarrow> updateCmd_Release UpdateCmd0
       | Some x \<Rightarrow> if length x > 0 then x else updateCmd_Release UpdateCmd0)\<rparr>"
    by (simp add: norm_UpdateCmd_def rel_def UpdateCmd0_def)
  show ?thesis
    unfolding tail norm r_UpdateCmd_tail_def
    by (intro seq_decodes decodes_bind [OF decodes_r_release [OF len]] seq_done codec_intros)
qed

lemma UpdateCmd_roundtrip: "UpdateCmd_Unmarshal UpdateCmd0 (UpdateCmd_Marshal m) = (norm_UpdateCmd m, None)"
proof (cases "UpdateCmd_tail m = []")
  case True
  then have "updateCmd_Proxy m = []" "kept_release (updateCmd_Release m) = []"
    by (auto simp: UpdateCmd_tail_def Let_def be_put_def split: if_splits)
  with True show ?thesis
    by (simp add: UpdateCmd_bytes be_put_byte UpdateCmd_Unmarshal_cases norm_UpdateCmd_def cap_def)
       (simp add: UpdateCmd0_def)
next
  case False
  then show ?thesis
    by (simp add: UpdateCmd_bytes be_put_byte UpdateCmd_Unmarshal_cases
          decodes_run_Nil [OF decodes_UpdateCmd_tail])
qed

lemma UpdateCmd_short:
  assumes "strict_prefix p (UpdateCmd_Marshal m)"
  shows "snd (UpdateCmd_Unmarshal UpdateCmd0 p) \<noteq> None \<or>
    UpdateCmd_Unmarshal UpdateCmd0 p = (UpdateCmd0\<lparr>updateCmd_Force := updateCmd_Force m\<rparr>, None)"
  using assms unfolding UpdateCmd_bytes
proof (cases rule: strict_prefix_append_cases)
  case 1
  then have "p = []" by (cases p) (auto simp: be_put_byte strict_prefix_def)
  then show ?thesis by (simp add: UpdateCmd_Unmarshal_cases)
next
  case (2 q)
  show ?thesis
  proof (cases "q = []")
    case True
    with 2 show ?thesis by (simp add: be_put_byte UpdateCmd_Unmarshal_cases)
  next
    case False
    then have "UpdateCmd_tail m \<noteq> []" using 2 by (auto simp: strict_prefix_def)
    from reports_short [OF decodes_UpdateCmd_tail [OF this] reports_UpdateCmd_tail 2(2)] False 2(1)
    show ?thesis by (simp add: be_put_byte UpdateCmd_Unmarshal_cases)
  qed
qed

section \<open>Stats\<close>

definition norm_Stats :: "Stats \<Rightarrow> Stats" where
  "norm_Stats m = m\<lparr>stats_Peers := cap MaxPeers (stats_Peers m),
     stats_IPs := map norm_IPStat (cap MaxIPs (stats_IPs m)),
     stats_Forwards := map norm_ForwardStat (cap MaxForwards (stats_Forwards m))\<rparr>"

text \<open>What a decoder sees that stops before the trailing section.\<close>

definition zero_rtts :: "Stats \<Rightarrow> Stats" where
  "zero_rtts m = m\<lparr>stats_Peers := map (\<lambda>p. p\<lparr>ps_HandshakeRTTMicros := 0\<rparr>) (stats_Peers m)\<rparr>"

definition Stats_head :: "Stats \<Rightarrow> byte list" where
  "Stats_head m = (let peers = cap MaxPeers (stats_Peers m); ips = cap MaxIPs (stats_IPs m);
        fwds = cap MaxForwards (stats_Forwards m) in
     be_put (stats_UnixMilli m) @ be_put (stats_RxBytes m) @ be_put (stats_TxBytes m)
     @ (be_put (of_nat (length peers) :: 16 word) @ marshal (w_each w_PeerStat peers))
     @ (be_put (of_nat (length ips) :: 16 word) @ marshal (w_each w_IPStat ips))
     @ (be_put (of_nat (length fwds) :: 16 word) @ marshal (w_each w_ForwardStat fwds)) @ [])"

definition Stats_trailer :: "Stats \<Rightarrow> byte list" where
  "Stats_trailer m = (let peers = cap MaxPeers (stats_Peers m) in
     be_put (of_nat (length peers) :: 16 word)
     @ marshal (w_each (\<lambda>p. w_u32 (ps_HandshakeRTTMicros p)) peers) @ [])"

lemma Stats_bytes: "Stats_Marshal m = Stats_head m @ Stats_trailer m"
  by (simp add: Stats_Marshal_def Stats_head_def Stats_trailer_def Let_def marshal_bind
        codec_intros codec_simps)

definition r_Stats_head :: "Stats \<Rightarrow> Stats rd" where
  "r_Stats_head m = do {
     t \<leftarrow> r_i64;
     rx \<leftarrow> r_u64;
     tx \<leftarrow> r_u64;
     peers \<leftarrow> r_section MaxPeers ''peers'' r_PeerStat (stats_Peers m);
     ips \<leftarrow> r_section MaxIPs ''ips'' r_IPStat (stats_IPs m);
     fwds \<leftarrow> r_section MaxForwards ''forwards'' r_ForwardStat (stats_Forwards m);
     State_Monad.return \<lparr>stats_UnixMilli = t, stats_RxBytes = rx, stats_TxBytes = tx,
       stats_Peers = peers, stats_IPs = ips, stats_Forwards = fwds\<rparr> }"

definition r_Stats_tail :: "Stats \<Rightarrow> (Stats \<times> wire_error option) rd" where
  "r_Stats_tail m = do {
     peers \<leftarrow> r_rtts (stats_Peers m);
     e \<leftarrow> r_err;
     State_Monad.return (m\<lparr>stats_Peers := peers\<rparr>, e) }"

lemma Stats_Unmarshal_split:
  "Stats_Unmarshal m b = fst (run_state (do { s \<leftarrow> r_Stats_head m; r_Stats_tail s }) (reader0 b))"
  by (simp add: Stats_Unmarshal_def r_Stats_head_def r_Stats_tail_def)

lemma cap_bounds:
  "length (cap MaxPeers a) \<le> MaxPeers" "length (cap MaxIPs b) \<le> MaxIPs"
  "length (cap MaxForwards c) \<le> MaxForwards"
  "MaxPeers < 65536" "MaxIPs < 65536" "MaxForwards < 65536"
  by (simp_all add: length_cap MaxPeers_def MaxIPs_def MaxForwards_def)

lemma list_all_cap: "list_all P xs \<Longrightarrow> list_all P (cap n xs)"
  by (auto simp: cap_def list_all_iff dest: in_set_takeD)

lemma list_all_any: "list_all any xs"
  by (simp add: list_all_iff)

lemma decodes_Stats_head:
  assumes "list_all wf_PeerStat (stats_Peers m)"
  shows "decodes (r_Stats_head m0) (Stats_head m) (zero_rtts (norm_Stats m))"
  unfolding Stats_head_def Let_def r_Stats_head_def
  by (intro seq_decodes decodes_bind [OF cpeer.section_decodes] decodes_bind [OF cips.section_decodes]
        decodes_bind [OF cfwd.section_decodes] cap_bounds list_all_any list_all_cap assms codec_intros
        decodes_returnI)
     (simp add: zero_rtts_def norm_Stats_def)

lemma set_rtts_zero:
  "set_rtts (map (\<lambda>p. p\<lparr>ps_HandshakeRTTMicros := 0\<rparr>) ps) (map ps_HandshakeRTTMicros ps) = ps"
  by (induction ps) simp_all

definition r_rtts_inner :: "PeerStat list \<Rightarrow> PeerStat list rd" where
  "r_rtts_inner peers = do {
     n \<leftarrow> r_count MaxPeers ''peer rtts'';
     e \<leftarrow> r_err;
     if e = None \<and> n = length peers then do {
       xs \<leftarrow> r_times (length peers) r_u32;
       State_Monad.return (set_rtts peers xs) }
     else State_Monad.return peers }"

lemma r_rtts_run:
  "run_state (r_rtts ps) (reader0 b) =
     (if b = [] then (ps, reader0 []) else run_state (r_rtts_inner ps) (reader0 b))"
  by (simp add: r_rtts_def r_rtts_inner_def reader0_def)

lemma decodes_rtts_inner:
  "decodes (r_rtts_inner (stats_Peers (zero_rtts (norm_Stats m)))) (Stats_trailer m)
     (stats_Peers (norm_Stats m))"
proof -
  let ?ps = "cap MaxPeers (stats_Peers m)"
  let ?zs = "map (\<lambda>p. p\<lparr>ps_HandshakeRTTMicros := 0\<rparr>) ?ps"
  have body: "decodes (do { xs \<leftarrow> r_times (length ?ps) r_u32; State_Monad.return (set_rtts ?zs xs) })
      (marshal (w_each (\<lambda>p. w_u32 (ps_HandshakeRTTMicros p)) ?ps) @ []) ?ps"
    by (intro decodes_bind [OF crtt.times_decodes [OF list_all_any]] decodes_returnI codec_intros)
       (simp add: set_rtts_zero)
  have "decodes (r_rtts_inner ?zs) (Stats_trailer m) ?ps"
    unfolding r_rtts_inner_def Stats_trailer_def Let_def
    by (intro decodes_bind [OF decodes_r_count] decodes_Nil_bind [OF decodes_r_err] cap_bounds
          codec_intros)
       (use body in simp)
  then show ?thesis by (simp add: zero_rtts_def norm_Stats_def)
qed

lemma Stats_trailer_ne: "Stats_trailer m \<noteq> []"
  by (simp add: Stats_trailer_def Let_def be_put_def)

lemma norm_Stats_peers: "(zero_rtts s)\<lparr>stats_Peers := stats_Peers s\<rparr> = s"
  by (simp add: zero_rtts_def)

lemma Stats_after_head:
  assumes "list_all wf_PeerStat (stats_Peers m)"
  shows "Stats_Unmarshal m0 (Stats_head m @ q) =
    fst (run_state (r_Stats_tail (zero_rtts (norm_Stats m))) (reader0 q))"
  by (simp add: Stats_Unmarshal_split decodes_run [OF decodes_Stats_head [OF assms]])

lemma Stats_roundtrip_aux:
  assumes "list_all wf_PeerStat (stats_Peers m)"
  shows "Stats_Unmarshal m0 (Stats_Marshal m) = (norm_Stats m, None)"
  unfolding Stats_bytes Stats_after_head [OF assms]
  by (simp add: r_Stats_tail_def r_rtts_run Stats_trailer_ne decodes_run_Nil [OF decodes_rtts_inner]
        decodes_run_Nil [OF decodes_r_err] norm_Stats_peers)

lemma reports_Stats: "reports (do { s \<leftarrow> r_Stats_head m; r_Stats_tail s })"
  unfolding r_Stats_tail_def by (intro codec_intros)

lemma sticky_rtts [codec_intros]: "sticky (r_rtts ps)"
  by (rule stickyI) (auto simp: r_rtts_def)

lemma Stats_short_head:
  assumes "list_all wf_PeerStat (stats_Peers m)" "strict_prefix p (Stats_head m)"
  shows "snd (Stats_Unmarshal m0 p) \<noteq> None"
proof -
  have st: "sticky (r_Stats_tail s)" for s
    unfolding r_Stats_tail_def by (intro codec_intros)
  have "rerr (snd (run_state (r_Stats_head m0) (reader0 p))) \<noteq> None"
    by (rule decodes_short [OF decodes_Stats_head [OF assms(1)] assms(2)])
  with st have "rerr (snd (run_state (do { s \<leftarrow> r_Stats_head m0; r_Stats_tail s }) (reader0 p))) \<noteq> None"
    by (simp add: case_prod_beta sticky_run)
  with reports_Stats show ?thesis
    unfolding Stats_Unmarshal_split reports_def by simp
qed

lemma Stats_short_trailer:
  assumes "list_all wf_PeerStat (stats_Peers m)" "strict_prefix q (Stats_trailer m)" "q \<noteq> []"
  shows "snd (Stats_Unmarshal m0 (Stats_head m @ q)) \<noteq> None"
proof -
  have "rerr (snd (run_state (r_rtts (stats_Peers (zero_rtts (norm_Stats m)))) (reader0 q))) \<noteq> None"
    using decodes_short [OF decodes_rtts_inner assms(2)] assms(3) by (simp add: r_rtts_run)
  then show ?thesis
    unfolding Stats_after_head [OF assms(1)]
    by (simp add: r_Stats_tail_def r_err_def case_prod_beta)
qed

lemma length_marshal_rtts:
  "length (marshal (w_each (\<lambda>p. w_u32 (ps_HandshakeRTTMicros p)) ps)) = 4 * length ps"
  by (induction ps) (simp add: codec_simps, simp add: crtt.each_marshal codec_simps del: w_each.simps)

lemma length_Stats_trailer: "length (Stats_trailer m) = 2 + 4 * min MaxPeers (length (stats_Peers m))"
  by (simp add: Stats_trailer_def Let_def length_marshal_rtts length_cap)

section \<open>Properties\<close>

text \<open>
  C11. Frames: every frame whose encoding stays within MaxFrameBytes decodes to
  exactly its type, sequence number and payload; a longer one is refused with
  its length; and DecodeFrame accepts a byte string only if it is the encoding
  of the frame it returns (so no two byte strings decode to the same frame).
\<close>

theorem frame_roundtrip:
  "DecodeFrame (EncodeFrame t seq payload) =
     (if headerLen + length payload \<le> MaxFrameBytes
      then Inr \<lparr>frame_Type = t, frame_Seq = seq, frame_Payload = payload\<rparr>
      else Inl (ErrFrameTooLarge (headerLen + length payload))) \<and>
   (DecodeFrame b = Inr f \<longrightarrow>
      b = EncodeFrame (frame_Type f) (frame_Seq f) (frame_Payload f))"
proof
  show "DecodeFrame (EncodeFrame t seq payload) =
     (if headerLen + length payload \<le> MaxFrameBytes
      then Inr \<lparr>frame_Type = t, frame_Seq = seq, frame_Payload = payload\<rparr>
      else Inl (ErrFrameTooLarge (headerLen + length payload)))"
    by (simp add: DecodeFrame_def EncodeFrame_def headerLen_def)
  show "DecodeFrame b = Inr f \<longrightarrow> b = EncodeFrame (frame_Type f) (frame_Seq f) (frame_Payload f)"
  proof
    assume "DecodeFrame b = Inr f"
    then have len: "\<not> length b < 5" and
      f: "frame_Type f = b ! 0" "frame_Seq f = be_get (take 4 (drop 1 b))" "frame_Payload f = drop 5 b"
      by (auto simp: DecodeFrame_def headerLen_def split: if_splits)
    from len obtain a c d e g r where "b = a # c # d # e # g # r"
      by (auto simp: numeral_eq_Suc not_less Suc_le_length_iff)
    with f show "b = EncodeFrame (frame_Type f) (frame_Seq f) (frame_Payload f)"
      using be_put_get4 [of "[c, d, e, g]"] by (simp add: EncodeFrame_def)
  qed
qed

theorem frame_roundtrip_witness:
  "DecodeFrame [3, 0, 0, 1, 2, 7] = Inr \<lparr>frame_Type = 3, frame_Seq = 258, frame_Payload = [7]\<rparr> \<and>
   [3, 0, 0, 1, 2, 7] = EncodeFrame 3 258 [7]"
proof -
  have "DecodeFrame [3, 0, 0, 1, 2, 7] = Inr \<lparr>frame_Type = 3, frame_Seq = 258, frame_Payload = [7]\<rparr>"
    by (simp add: DecodeFrame_def headerLen_def MaxFrameBytes_def be_get_def)
  then show ?thesis
    using frame_roundtrip [of 3 258 "[7]" "[3, 0, 0, 1, 2, 7]"
        "\<lparr>frame_Type = 3, frame_Seq = 258, frame_Payload = [7]\<rparr>"] by simp
qed

text \<open>
  C12. Stats: unmarshalling a marshalled Stats message, into whatever the
  destination held before, gives back the message: all counters, all peers with
  their handshake round-trip times, all addresses in canonical form (IPv4-mapped
  addresses unmapped, zones dropped) and all forwards, each list cut at its limit.
\<close>

theorem stats_roundtrip:
  assumes "list_all wf_PeerStat (stats_Peers m)"
  shows "Stats_Unmarshal m0 (Stats_Marshal m) = (norm_Stats m, None)"
  by (rule Stats_roundtrip_aux [OF assms])

definition sample_Stats :: Stats where
  "sample_Stats = \<lparr>stats_UnixMilli = 1700000000000, stats_RxBytes = 10, stats_TxBytes = 20,
     stats_Peers = [\<lparr>ps_PublicKey = replicate 32 9, ps_RxBytes = 1, ps_TxBytes = 2,
        ps_LastHandshakeNano = 3, ps_HandshakeRTTMicros = 1500\<rparr>],
     stats_IPs = [\<lparr>is_IP = Addr6 (map4in6 0x0A000001) [], is_RxBytes = 5, is_TxBytes = 6\<rparr>],
     stats_Forwards = []\<rparr>"

theorem stats_roundtrip_witness:
  "list_all wf_PeerStat (stats_Peers sample_Stats) \<and>
   Stats_Unmarshal sample_Stats (Stats_Marshal sample_Stats) = (norm_Stats sample_Stats, None) \<and>
   map is_IP (stats_IPs (norm_Stats sample_Stats)) = [Addr4 0x0A000001]"
proof -
  have "list_all wf_PeerStat (stats_Peers sample_Stats)"
    by (simp add: sample_Stats_def wf_PeerStat_def)
  moreover have "norm_ip (Addr6 (map4in6 0x0A000001) []) = Addr4 0x0A000001"
    by (simp add: norm_ip_def map4in6_def)
  then have "map is_IP (stats_IPs (norm_Stats sample_Stats)) = [Addr4 0x0A000001]"
    by (simp add: norm_Stats_def sample_Stats_def norm_IPStat_def cap_def MaxIPs_def)
  ultimately show ?thesis
    using stats_roundtrip [of sample_Stats sample_Stats] by simp
qed



text \<open>
  C14. Every fixed-format message of the protocol (Hello, HelloAck, Ping,
  ConfigAck, ErrorMsg, UIHello, UIHelloAck, UISubscribe, UpdateAck, and Presence
  whatever the destination held before): unmarshalling what Marshal produced
  gives the message back up to the truncation of strings and lists at their
  limits and the canonical form of addresses, and no proper prefix is accepted.
\<close>

theorem messages_roundtrip:
  "message_ok Hello_Marshal Hello_Unmarshal norm_Hello \<and>
   message_ok HelloAck_Marshal HelloAck_Unmarshal norm_HelloAck \<and>
   message_ok Ping_Marshal Ping_Unmarshal (\<lambda>m. m) \<and>
   message_ok ConfigAck_Marshal ConfigAck_Unmarshal norm_ConfigAck \<and>
   message_ok ErrorMsg_Marshal ErrorMsg_Unmarshal norm_ErrorMsg \<and>
   message_ok UIHello_Marshal UIHello_Unmarshal norm_UIHello \<and>
   message_ok UIHelloAck_Marshal UIHelloAck_Unmarshal (\<lambda>m. m) \<and>
   message_ok UISubscribe_Marshal UISubscribe_Unmarshal norm_UISubscribe \<and>
   message_ok UpdateAck_Marshal UpdateAck_Unmarshal norm_UpdateAck \<and>
   message_ok Presence_Marshal (Presence_Unmarshal p0) norm_Presence"
  using Hello_ok HelloAck_ok Ping_ok  ConfigAck_ok ErrorMsg_ok UIHello_ok UIHelloAck_ok
    UISubscribe_ok UpdateAck_ok Presence_ok by simp



definition Stats0 :: Stats where
  "Stats0 = \<lparr>stats_UnixMilli = 0, stats_RxBytes = 0, stats_TxBytes = 0,
     stats_Peers = [], stats_IPs = [], stats_Forwards = []\<rparr>"

lemma length_r_times: "length (fst (run_state (r_times n m) r)) = n"
  by (induction n arbitrary: r) (auto split: prod.splits, metis fst_conv)

lemma r_count_bound:
  "rerr (snd (run_state (r_count mx what) r)) = None \<Longrightarrow> fst (run_state (r_count mx what) r) \<le> mx"
  by (auto simp: r_count_def split: prod.splits if_splits)

lemma r_section_bound: "length (fst (run_state (r_section mx what item []) r)) \<le> mx"
  using r_count_bound [of mx what r]
  by (auto simp: r_section_def r_err_def length_r_times split: prod.splits)

lemma length_set_rtts: "length (set_rtts ps xs) = length ps"
  by (induction ps xs rule: set_rtts.induct) simp_all

lemma length_r_rtts: "length (fst (run_state (r_rtts ps) r)) = length ps"
  by (auto simp: r_rtts_def length_set_rtts split: prod.splits)

text \<open>
  C16. Whatever bytes arrive, and whether or not they decode, an agent cannot
  make the master build a Stats message beyond the declared limits: at most
  MaxPeers peers, MaxIPs addresses and MaxForwards forwards.
\<close>

theorem stats_limits:
  "length (stats_Peers (fst (Stats_Unmarshal Stats0 b))) \<le> MaxPeers \<and>
     length (stats_IPs (fst (Stats_Unmarshal Stats0 b))) \<le> MaxIPs \<and>
     length (stats_Forwards (fst (Stats_Unmarshal Stats0 b))) \<le> MaxForwards"
  unfolding Stats_Unmarshal_def Stats0_def
  by (simp add: case_prod_beta length_r_rtts r_section_bound)

end
