(* ===== verification/Replay.thy ===== *)
theory Replay
  imports Prelude
begin

text \<open>
  The anti-replay window of the transport layer (wireguard/utils/replay): a
  ring of 128 blocks of 64 bits.  The abstract filter is the highest counter
  with the set of all counters accepted so far; the ring refines it.
\<close>

section \<open>Model\<close>

definition blockBitLog :: nat where "blockBitLog = 6"
definition ringBlocks :: "64 word" where "ringBlocks = 128"
definition windowSize :: "64 word" where "windowSize = (ringBlocks - 1) * 64"
definition blockMask :: "64 word" where "blockMask = ringBlocks - 1"
definition bitMask :: "64 word" where "bitMask = 63"

record Filter =
  last_ctr :: "64 word"
  ring :: "64 word list"

definition Filter0 :: Filter where
  "Filter0 = \<lparr>last_ctr = 0, ring = replicate 128 0\<rparr>"

definition Filter_Reset :: "Filter \<Rightarrow> Filter" where
  "Filter_Reset f = f\<lparr>last_ctr := 0, ring := (ring f)[0 := 0]\<rparr>"

text \<open>for i := current + 1; i <= current+diff; i++: n iterations from i.\<close>

fun clear_blocks :: "nat \<Rightarrow> 64 word \<Rightarrow> 64 word list \<Rightarrow> 64 word list" where
  "clear_blocks 0 i r = r"
| "clear_blocks (Suc n) i r = clear_blocks n (i + 1) (r[unat (i AND blockMask) := 0])"

definition move_window :: "64 word \<Rightarrow> Filter \<Rightarrow> Filter" where
  "move_window counter f =
     (let indexBlock = drop_bit blockBitLog counter;
          current = drop_bit blockBitLog (last_ctr f);
          diff = indexBlock - current;
          diff = (if diff > ringBlocks then ringBlocks else diff)
      in f\<lparr>last_ctr := counter, ring := clear_blocks (unat diff) (current + 1) (ring f)\<rparr>)"

definition check_and_set :: "64 word \<Rightarrow> Filter \<Rightarrow> bool \<times> Filter" where
  "check_and_set counter f =
     (let indexBlock = unat (drop_bit blockBitLog counter AND blockMask);
          indexBit = unat (counter AND bitMask);
          old = ring f ! indexBlock;
          new = old OR push_bit indexBit 1
      in (old \<noteq> new, f\<lparr>ring := (ring f)[indexBlock := new]\<rparr>))"

definition ValidateCounter :: "64 word \<Rightarrow> 64 word \<Rightarrow> Filter \<Rightarrow> bool \<times> Filter" where
  "ValidateCounter counter limit f =
     (if counter \<ge> limit then (False, f)
      else if counter > last_ctr f then check_and_set counter (move_window counter f)
      else if last_ctr f - counter > windowSize then (False, f)
      else check_and_set counter f)"

section \<open>Abstract filter\<close>

record window =
  high :: nat
  seen :: "nat set"

definition window0 :: window where "window0 = \<lparr>high = 0, seen = {}\<rparr>"

definition window_accepts :: "nat \<Rightarrow> nat \<Rightarrow> window \<Rightarrow> bool" where
  "window_accepts c limit w \<longleftrightarrow> c < limit \<and> high w \<le> c + 8128 \<and> c \<notin> seen w"

definition window_validate :: "nat \<Rightarrow> nat \<Rightarrow> window \<Rightarrow> bool \<times> window" where
  "window_validate c limit w =
     (if window_accepts c limit w
      then (True, \<lparr>high = max (high w) c, seen = insert c (seen w)\<rparr>) else (False, w))"

text \<open>The ring represents the window: one bit per counter of the last 128 blocks.\<close>

definition ring_bit :: "Filter \<Rightarrow> nat \<Rightarrow> bool" where
  "ring_bit f c \<longleftrightarrow> bit (ring f ! (c div 64 mod 128)) (c mod 64)"

definition represents :: "Filter \<Rightarrow> window \<Rightarrow> bool" where
  "represents f w \<longleftrightarrow>
     length (ring f) = 128 \<and> high w = unat (last_ctr f) \<and> seen w \<subseteq> {..high w} \<and>
     (\<forall>c. c div 64 \<le> high w div 64 \<and> high w div 64 \<le> c div 64 + 127 \<longrightarrow>
          (ring_bit f c \<longleftrightarrow> c \<in> seen w))"

section \<open>Refinement\<close>

lemma word_block: "unat (drop_bit blockBitLog (c :: 64 word)) = unat c div 64"
  by (simp add: blockBitLog_def unat_drop_bit_div)

lemma word_slot: "unat (i AND blockMask) = unat i mod 128"
  by (simp add: blockMask_def ringBlocks_def unat_and_masks)

lemma word_bit: "unat (c AND bitMask) = unat c mod 64"
  by (simp add: bitMask_def unat_and_masks)

lemma length_clear_blocks [simp]: "length (clear_blocks n i r) = length r"
  by (induction n i r rule: clear_blocks.induct) simp_all

text \<open>The loop zeroes exactly the slots of the n blocks from i on.\<close>

lemma nth_clear_blocks:
  assumes "unat i + n < 2 ^ 64" "length r = 128" "k < 128"
  shows "clear_blocks n i r ! k = (if \<exists>j < n. (unat i + j) mod 128 = k then 0 else r ! k)"
  using assms
proof (induction n i r rule: clear_blocks.induct)
  case (1 i r)
  then show ?case by simp
next
  case (2 n i r)
  have i1: "unat (i + 1) = Suc (unat i)"
    using "2.prems"(1) by (simp add: unat_word_ariths)
  have ex: "(\<exists>j < Suc n. (unat i + j) mod 128 = k) \<longleftrightarrow>
      unat i mod 128 = k \<or> (\<exists>j < n. (Suc (unat i) + j) mod 128 = k)"
    by (auto simp: less_Suc_eq_0_disj)
  show ?case
    using "2.IH" "2.prems" i1 by (auto simp: ex word_slot nth_list_update)
qed

lemma or_bit_neq: "n < 64 \<Longrightarrow> (w \<noteq> set_bit n w) = (\<not> bit w n)" for w :: "64 word"
proof -
  assume n: "n < 64"
  have "set_bit n w = w" if "bit w n"
    by (rule bit_word_eqI) (use that in \<open>auto simp: bit_set_bit_iff\<close>)
  moreover have "bit (set_bit n w) n"
    using n by (simp add: bit_set_bit_iff)
  ultimately show ?thesis by force
qed

lemma mod_window_inj:
  fixes x y h :: nat
  assumes "x \<le> h" "h \<le> x + 127" "y \<le> h" "h \<le> y + 127" "x mod 128 = y mod 128"
  shows "x = y"
proof -
  obtain p q r where pqr: "x = 128 * p + r" "y = 128 * q + r"
    using assms(5) by (metis mult_div_mod_eq)
  have "p = q"
  proof (rule ccontr)
    assume "p \<noteq> q"
    then consider "p + 1 \<le> q" | "q + 1 \<le> p" by linarith
    then show False using assms(1-4) pqr by cases linarith+
  qed
  with pqr show ?thesis by simp
qed

lemma slot_eq_iff:
  fixes a b h :: nat
  assumes "a div 64 \<le> h" "h \<le> a div 64 + 127" "b div 64 \<le> h" "h \<le> b div 64 + 127"
  shows "(a div 64 mod 128 = b div 64 mod 128 \<and> a mod 64 = b mod 64) = (a = b)"
proof
  assume eq: "a div 64 mod 128 = b div 64 mod 128 \<and> a mod 64 = b mod 64"
  then have "a div 64 = b div 64" by (intro mod_window_inj [OF assms]) (rule conjunct1)
  then have "64 * (a div 64) + a mod 64 = 64 * (b div 64) + b mod 64"
    using eq by (simp only:)
  then show "a = b" by (simp only: mult_div_mod_eq)
qed simp

text \<open>Checking and setting a bit of a window block records exactly that counter.\<close>

lemma check_and_set_represents:
  assumes "represents f w" "unat c \<le> high w" "high w \<le> unat c + 8128"
  shows "check_and_set c f = (unat c \<notin> seen w, snd (check_and_set c f)) \<and>
    represents (snd (check_and_set c f)) (w\<lparr>seen := insert (unat c) (seen w)\<rparr>)"
proof -
  define k where "k = unat c div 64 mod 128"
  have in_win: "unat c div 64 \<le> high w div 64" "high w div 64 \<le> unat c div 64 + 127"
    using assms(2,3) by (auto simp: div_le_mono)
  have len: "length (ring f) = 128" "k < 128"
    using assms(1) by (simp_all add: represents_def k_def)
  have run: "check_and_set c f = (ring f ! k \<noteq> set_bit (unat c mod 64) (ring f ! k),
      f\<lparr>ring := (ring f)[k := set_bit (unat c mod 64) (ring f ! k)]\<rparr>)"
    by (simp add: check_and_set_def word_slot word_block word_bit k_def set_bit_eq_or Let_def)
  let ?f = "f\<lparr>ring := (ring f)[k := set_bit (unat c mod 64) (ring f ! k)]\<rparr>"
  have old: "(ring f ! k \<noteq> set_bit (unat c mod 64) (ring f ! k)) = (unat c \<notin> seen w)"
    using assms(1) in_win by (simp add: or_bit_neq represents_def ring_bit_def k_def)
  have "ring_bit ?f d \<longleftrightarrow> d \<in> insert (unat c) (seen w)"
    if d: "d div 64 \<le> high w div 64" "high w div 64 \<le> d div 64 + 127" for d
  proof -
    have "ring_bit ?f d \<longleftrightarrow> ring_bit f d \<or> (unat c div 64 mod 128 = d div 64 mod 128 \<and> unat c mod 64 = d mod 64)"
      using len by (auto simp: ring_bit_def nth_list_update bit_set_bit_iff k_def)
    then show ?thesis
      using slot_eq_iff [OF in_win d] assms(1) d by (auto simp: represents_def)
  qed
  then have "represents ?f (w\<lparr>seen := insert (unat c) (seen w)\<rparr>)"
    using assms(1,2) len by (auto simp: represents_def)
  with run old show ?thesis by simp
qed

lemma cleared_slots:
  fixes C cur B :: nat
  assumes "cur \<le> C" "B \<le> C" "C \<le> B + 127"
  shows "(\<exists>j < min 128 (C - cur). (cur + 1 + j) mod 128 = B mod 128) \<longleftrightarrow> cur < B"
proof
  assume "\<exists>j < min 128 (C - cur). (cur + 1 + j) mod 128 = B mod 128"
  then obtain j where j: "j < min 128 (C - cur)" "(cur + 1 + j) mod 128 = B mod 128" by blast
  show "cur < B"
  proof (rule ccontr)
    assume "\<not> cur < B"
    with j assms have "cur + 1 + j \<le> C" "C \<le> cur + 1 + j + 127" by auto
    with mod_window_inj [OF this assms(2,3) j(2)] \<open>\<not> cur < B\<close> show False by simp
  qed
next
  assume B: "cur < B"
  show "\<exists>j < min 128 (C - cur). (cur + 1 + j) mod 128 = B mod 128"
  proof (cases "C - cur \<le> 128")
    case True
    have "cur + 1 + (B - cur - 1) = B" using B by simp
    moreover have "B - cur - 1 < min 128 (C - cur)" using B True assms(2) by linarith
    ultimately show ?thesis by metis
  next
    case False
    let ?j = "(B + 127 * (cur + 1)) mod 128"
    have "(cur + 1 + ?j) mod 128 = (B + (cur + 1) * 128) mod 128"
      unfolding mod_add_right_eq by (rule arg_cong [where f = "\<lambda>n. n mod 128"]) simp
    also have "\<dots> = B mod 128" by (rule mod_mult_self1)
    finally have "(cur + 1 + ?j) mod 128 = B mod 128" .
    moreover have "?j < min 128 (C - cur)" using False by simp
    ultimately show ?thesis by blast
  qed
qed

lemma move_window_represents:
  assumes "represents f w" "high w < unat c"
  shows "represents (move_window c f) (w\<lparr>high := unat c\<rparr>)"
proof -
  define cur C where "cur = high w div 64" and "C = unat c div 64"
  let ?i = "drop_bit blockBitLog (last_ctr f) + 1"
  let ?d = "drop_bit blockBitLog c - drop_bit blockBitLog (last_ctr f)"
  have high: "high w = unat (last_ctr f)" and len: "length (ring f) = 128"
    and seen: "seen w \<subseteq> {..high w}"
    using assms(1) unfolding represents_def by blast+
  have le: "cur \<le> C" using assms(2) unfolding cur_def C_def by (simp add: div_le_mono)
  have "unat c < 2 ^ 64" using unsigned_less [of c] by simp
  then have C64: "C + 200 < 2 ^ 64" unfolding C_def by simp
  have i: "unat ?i = cur + 1"
    using le C64 by (simp add: unat_word_ariths word_block flip: high cur_def)
  have "unat ?d = C - cur"
    using le by (subst unat_sub) (simp_all add: word_le_nat_alt word_block flip: high cur_def C_def)
  then have d: "unat (if ?d > ringBlocks then ringBlocks else ?d) = min 128 (C - cur)"
    by (auto simp: ringBlocks_def word_less_nat_alt)
  have run: "move_window c f = f\<lparr>last_ctr := c, ring := clear_blocks (min 128 (C - cur)) ?i (ring f)\<rparr>"
    unfolding move_window_def Let_def d ..
  have bits: "ring_bit (move_window c f) b \<longleftrightarrow> b \<in> seen w"
    if b: "b div 64 \<le> C" "C \<le> b div 64 + 127" for b
  proof -
    have "ring_bit (move_window c f) b \<longleftrightarrow> \<not> cur < b div 64 \<and> ring_bit f b"
      using C64 le len unfolding run ring_bit_def cleared_slots [OF le b, symmetric]
      by (auto simp: nth_clear_blocks i)
    moreover have "ring_bit f b \<longleftrightarrow> b \<in> seen w" if "\<not> cur < b div 64"
      using assms(1) that b le unfolding represents_def cur_def by auto
    moreover have "b \<notin> seen w" if "cur < b div 64"
      using that seen unfolding cur_def by (auto dest: div_le_mono [where k = 64])
    ultimately show ?thesis by blast
  qed
  show ?thesis
    unfolding represents_def
    using assms(2) len seen bits unfolding C_def by (auto simp: run)
qed

text \<open>Every call of ValidateCounter is a step of the abstract filter.\<close>

lemma ValidateCounter_refines:
  assumes "represents f w"
  shows "fst (ValidateCounter c limit f) = fst (window_validate (unat c) (unat limit) w) \<and>
    represents (snd (ValidateCounter c limit f)) (snd (window_validate (unat c) (unat limit) w))"
proof -
  have high: "high w = unat (last_ctr f)" and seen: "seen w \<subseteq> {..high w}"
    using assms unfolding represents_def by blast+
  have win: "(last_ctr f - c > windowSize) = (unat c + 8128 < unat (last_ctr f))" if "\<not> last_ctr f < c"
    using that by (auto simp: windowSize_def ringBlocks_def word_less_nat_alt word_le_nat_alt unat_sub_if')
  consider "limit \<le> c" | "\<not> limit \<le> c" "last_ctr f < c" | "\<not> limit \<le> c" "\<not> last_ctr f < c" by blast
  then show ?thesis
  proof cases
    case 1
    then show ?thesis
      using assms by (simp add: ValidateCounter_def window_validate_def window_accepts_def word_le_nat_alt)
  next
    case 2
    have "high w < unat c" using 2 high by (simp add: word_less_nat_alt)
    moreover from this have "unat c \<notin> seen w" using seen by auto
    ultimately show ?thesis
      using 2 check_and_set_represents [OF move_window_represents [OF assms \<open>high w < unat c\<close>], of c]
      by (cases w) (auto simp: ValidateCounter_def window_validate_def window_accepts_def
          word_le_nat_alt max_def prod_eq_iff)
  next
    case 3
    have "unat c \<le> high w" using 3 high by (simp add: word_less_nat_alt)
    show ?thesis
    proof (cases "high w \<le> unat c + 8128")
      case True
      have "represents (snd (check_and_set c f)) (w\<lparr>seen := insert (unat c) (seen w)\<rparr>)"
        "fst (check_and_set c f) = (unat c \<notin> seen w)"
        using check_and_set_represents [OF assms \<open>unat c \<le> high w\<close> True] by (simp_all add: prod_eq_iff)
      moreover have "w\<lparr>seen := insert (unat c) (seen w)\<rparr> =
          \<lparr>high = max (high w) (unat c), seen = insert (unat c) (seen w)\<rparr>"
        using \<open>unat c \<le> high w\<close> by simp
      moreover have "w\<lparr>seen := insert (unat c) (seen w)\<rparr> = w" if "unat c \<in> seen w"
        using that by (simp add: insert_absorb)
      ultimately show ?thesis
        using 3 True win high
        by (auto simp: ValidateCounter_def window_validate_def window_accepts_def word_le_nat_alt)
    next
      case False
      then show ?thesis
        using 3 assms win high
        by (auto simp: ValidateCounter_def window_validate_def window_accepts_def)
    qed
  qed
qed

lemma represents_Filter0: "represents Filter0 window0"
  by (simp add: represents_def Filter0_def window0_def ring_bit_def)

lemma Reset_represents: "length (ring f) = 128 \<Longrightarrow> represents (Filter_Reset f) window0"
  by (auto simp: represents_def Filter_Reset_def window0_def ring_bit_def nth_list_update)

section \<open>Histories\<close>

datatype replay_op = Validate "64 word" "64 word" | Reset

text \<open>The answers of a sequence of calls, Reset answering nothing.\<close>

fun filter_answers :: "replay_op list \<Rightarrow> Filter \<Rightarrow> bool list" where
  "filter_answers [] f = []"
| "filter_answers (Validate c l # ops) f =
     (case ValidateCounter c l f of (a, f') \<Rightarrow> a # filter_answers ops f')"
| "filter_answers (Reset # ops) f = filter_answers ops (Filter_Reset f)"

fun window_answers :: "replay_op list \<Rightarrow> window \<Rightarrow> bool list" where
  "window_answers [] w = []"
| "window_answers (Validate c l # ops) w =
     (case window_validate (unat c) (unat l) w of (a, w') \<Rightarrow> a # window_answers ops w')"
| "window_answers (Reset # ops) w = window_answers ops window0"

lemma answers_refine: "represents f w \<Longrightarrow> filter_answers ops f = window_answers ops w"
proof (induction ops f arbitrary: w rule: filter_answers.induct)
  case (2 c l ops f)
  then show ?case
    using ValidateCounter_refines [OF "2.prems", of c l] by (auto split: prod.splits)
next
  case (3 ops f)
  have "length (ring f) = 128" using "3.prems" by (simp add: represents_def)
  then show ?case using "3.IH" Reset_represents by simp
qed simp

text \<open>
  C5. The ring filter answers every history of ValidateCounter and Reset calls
  exactly as the abstract window does: a counter is accepted if and only if it
  is below the limit, no more than 8128 behind the highest accepted counter,
  and was not accepted since the last Reset (stale blocks left in the ring by
  Reset are never visible).
\<close>

theorem replay_filter_refines_window:
  "filter_answers ops Filter0 = window_answers ops window0"
  by (rule answers_refine [OF represents_Filter0])

text \<open>The counters a history accepts, in order, between resets.\<close>

fun accepted :: "(64 word \<times> 64 word) list \<Rightarrow> Filter \<Rightarrow> 64 word list" where
  "accepted [] f = []"
| "accepted ((c, l) # xs) f =
     (case ValidateCounter c l f of (a, f') \<Rightarrow> if a then c # accepted xs f' else accepted xs f')"

lemma accepted_fresh:
  "represents f w \<Longrightarrow> distinct (accepted xs f) \<and> unat ` set (accepted xs f) \<inter> seen w = {}"
proof (induction xs f arbitrary: w rule: accepted.induct)
  case (2 c l xs f)
  have *: "fst (ValidateCounter c l f) = window_accepts (unat c) (unat l) w"
    "represents (snd (ValidateCounter c l f)) (snd (window_validate (unat c) (unat l) w))"
    using ValidateCounter_refines [OF "2.prems", of c l] by (simp_all add: window_validate_def)
  obtain a f' where r: "ValidateCounter c l f = (a, f')" by force
  show ?case
  proof (cases a)
    case True
    with * r have "unat c \<notin> seen w"
      "represents f' \<lparr>high = max (high w) (unat c), seen = insert (unat c) (seen w)\<rparr>"
      by (auto simp: window_validate_def window_accepts_def)
    with 2(1) [OF r [symmetric] True] r True show ?thesis by force
  next
    case False
    with * r have "represents f' w" by (auto simp: window_validate_def)
    with 2(2) [OF r [symmetric] False] r False show ?thesis by simp
  qed
qed simp

text \<open>
  No replay: whatever counters and limits arrive, in whatever order, no
  counter is accepted twice by a filter that is not reset in between.
\<close>

lemma replay_never_accepts_twice: "distinct (accepted xs Filter0)"
  using accepted_fresh [OF represents_Filter0] by blast

end
