(* ===== verification/AllowedIPs.thy ===== *)
theory AllowedIPs
  imports Netip
begin

text \<open>
  The cryptokey routing table (wireguard/device/allowedips.go): two
  path-compressed binary tries, one per address family, and the list of
  entries each peer keeps of the nodes it owns.  Parent pointers are paths:
  the slot a parentIndirection points to is the list of bits that leads to it
  from the root, and a node on a peer's list is named by its prefix, which is
  unique in its trie.
\<close>

type_synonym Peer = nat

datatype trieEntry = TNil
  | TNode (te_peer: "Peer option") (te_bits: "byte list") (te_cidr: nat)
      (te_child0: trieEntry) (te_child1: trieEntry)

section \<open>Bit strings\<close>

text \<open>math/bits.LeadingZeros32 and LeadingZeros64.\<close>

definition LeadingZeros :: "'a::len word \<Rightarrow> nat" where
  "LeadingZeros x = length (takeWhile (\<lambda>k. \<not> bit x k) (rev [0..<LENGTH('a)]))"

text \<open>None is the panic on a wrong size.\<close>

definition commonBits :: "byte list \<Rightarrow> byte list \<Rightarrow> nat option" where
  "commonBits ip1 ip2 =
     (if length ip1 = 4 then
        Some (LeadingZeros ((be_get (take 4 ip1) :: 32 word) XOR be_get (take 4 ip2)))
      else if length ip1 = 16 then
        (let x = (be_get (take 8 ip1) :: 64 word) XOR be_get (take 8 ip2)
         in if x \<noteq> 0 then Some (LeadingZeros x)
            else Some (64 + LeadingZeros ((be_get (take 8 (drop 8 ip1)) :: 64 word)
                                          XOR be_get (take 8 (drop 8 ip2)))))
      else None)"

text \<open>commonBits(node.bits, ip) >= cidr.\<close>

definition common_ge :: "byte list \<Rightarrow> byte list \<Rightarrow> nat \<Rightarrow> bool" where
  "common_ge b ip c = (case commonBits b ip of None \<Rightarrow> False | Some n \<Rightarrow> c \<le> n)"

text \<open>bitAtByte = cidr / 8 and bitAtShift = 7 - cidr % 8 are fixed by cidr.\<close>

definition choose_bit :: "nat \<Rightarrow> byte list \<Rightarrow> bool" where
  "choose_bit cidr ip = (drop_bit (7 - cidr mod 8) (ip ! (cidr div 8)) AND 1 = 1)"

text \<open>net.CIDRMask(ones, 8 * len) as bytes.\<close>

fun CIDRMask :: "nat \<Rightarrow> nat \<Rightarrow> byte list" where
  "CIDRMask ones 0 = []"
| "CIDRMask ones (Suc len) =
     (if ones \<ge> 8 then 0xFF # CIDRMask (ones - 8) len
      else NOT (drop_bit ones 0xFF) # CIDRMask 0 len)"

definition maskSelf :: "nat \<Rightarrow> byte list \<Rightarrow> byte list" where
  "maskSelf cidr bs = map2 (AND) bs (CIDRMask cidr (length bs))"

section \<open>Slots\<close>

fun te_child :: "bool \<Rightarrow> trieEntry \<Rightarrow> trieEntry" where
  "te_child b TNil = TNil"
| "te_child b (TNode p bs c l r) = (if b then r else l)"

fun set_child :: "bool \<Rightarrow> trieEntry \<Rightarrow> trieEntry \<Rightarrow> trieEntry" where
  "set_child b t TNil = TNil"
| "set_child b t (TNode p bs c l r) = (if b then TNode p bs c l t else TNode p bs c t r)"

fun set_peer :: "Peer option \<Rightarrow> trieEntry \<Rightarrow> trieEntry" where
  "set_peer q TNil = TNil"
| "set_peer q (TNode p bs c l r) = TNode q bs c l r"

fun slot_get :: "bool list \<Rightarrow> trieEntry \<Rightarrow> trieEntry" where
  "slot_get [] t = t"
| "slot_get (b # path) t = slot_get path (te_child b t)"

fun slot_set :: "bool list \<Rightarrow> trieEntry \<Rightarrow> trieEntry \<Rightarrow> trieEntry" where
  "slot_set [] new t = new"
| "slot_set (b # path) new t = set_child b (slot_set path new (te_child b t)) t"

section \<open>Trie operations\<close>

text \<open>
  The walk of nodePlacement: the path to the last node that covers ip/cidr (None
  when the root does not), and whether that node is ip/cidr itself.
\<close>

fun nodePlacement :: "trieEntry \<Rightarrow> byte list \<Rightarrow> nat \<Rightarrow> bool list option \<times> bool" where
  "nodePlacement TNil ip cidr = (None, False)"
| "nodePlacement (TNode p bs c l r) ip cidr =
     (if c \<le> cidr \<and> common_ge bs ip c then
        if c = cidr then (Some [], True)
        else let bit = choose_bit c ip in
          case nodePlacement (if bit then r else l) ip cidr of
            (None, exact) \<Rightarrow> (Some [], False)
          | (Some path, exact) \<Rightarrow> (Some (bit # path), exact)
      else (None, False))"

definition new_entry :: "Peer option \<Rightarrow> byte list \<Rightarrow> nat \<Rightarrow> trieEntry" where
  "new_entry peer ip cidr = TNode peer (maskSelf cidr ip) cidr TNil TNil"

text \<open>
  parentIndirection.insert.  newNode.bits aliases ip, so that once newNode is
  masked the rest of the function sees the masked bytes (ip').
\<close>

definition trie_insert :: "byte list \<Rightarrow> nat \<Rightarrow> Peer \<Rightarrow> trieEntry \<Rightarrow> trieEntry" where
  "trie_insert ip cidr peer root =
     (if root = TNil then new_entry (Some peer) ip cidr
      else case nodePlacement root ip cidr of
        (node, True) \<Rightarrow>
          (let path = the node in slot_set path (set_peer (Some peer) (slot_get path root)) root)
      | (node, False) \<Rightarrow>
          (let ip' = maskSelf cidr ip;
               newNode = TNode (Some peer) ip' cidr TNil TNil;
               slot = (case node of None \<Rightarrow> []
                       | Some path \<Rightarrow> path @ [choose_bit (te_cidr (slot_get path root)) ip']);
               down = slot_get slot root
           in if down = TNil then slot_set slot newNode root
              else
                let common = the (commonBits (te_bits down) ip');
                    cidr' = (if common < cidr then common else cidr)
                in if cidr = cidr' then
                     slot_set slot (set_child (choose_bit cidr (te_bits down)) down newNode) root
                   else
                     let glue = new_entry None ip' cidr';
                         glue = set_child (choose_bit cidr' (te_bits down)) down glue;
                         glue = set_child (choose_bit cidr' ip') newNode glue
                     in slot_set slot glue root))"

text \<open>trieEntry.lookup: found is the peer of the last owned node on the walk.\<close>

fun trie_lookup :: "trieEntry \<Rightarrow> byte list \<Rightarrow> Peer option \<Rightarrow> Peer option" where
  "trie_lookup TNil ip found = found"
| "trie_lookup (TNode p bs c l r) ip found =
     (if common_ge bs ip c then
        let found = (if p \<noteq> None then p else found)
        in if c div 8 = length ip then found
           else trie_lookup (if choose_bit c ip then r else l) ip found
      else found)"

text \<open>trieEntry.remove of the node at a path.\<close>

definition trie_remove :: "bool list \<Rightarrow> trieEntry \<Rightarrow> trieEntry" where
  "trie_remove path root =
     (let node = slot_get path root;
          c0 = te_child0 node;
          c1 = te_child1 node
      in if c0 \<noteq> TNil \<and> c1 \<noteq> TNil then slot_set path (set_peer None node) root
         else
           let child = (if c0 = TNil then c1 else c0);
               root' = slot_set path child root
           in if c0 \<noteq> TNil \<or> c1 \<noteq> TNil \<or> path = [] then root'
              else
                let ppath = butlast path;
                    parent = slot_get ppath root'
                in if te_peer parent \<noteq> None then root'
                   else slot_set ppath (te_child (\<not> last path) parent) root')"

section \<open>The table\<close>

type_synonym entry = "byte list \<times> nat"

record AllowedIPs =
  IPv4 :: trieEntry
  IPv6 :: trieEntry
  trieEntries :: "Peer \<Rightarrow> entry list"

definition AllowedIPs0 :: AllowedIPs where
  "AllowedIPs0 = \<lparr>IPv4 = TNil, IPv6 = TNil, trieEntries = (\<lambda>_. [])\<rparr>"

text \<open>The family's trie and address bytes of a prefix; None is the panic on another kind.\<close>

definition prefix_bytes :: "Prefix \<Rightarrow> byte list option" where
  "prefix_bytes p = (if addr_Is6 (pfx_Addr p) then Some (addr_As16 (pfx_Addr p))
     else if addr_Is4 (pfx_Addr p) then addr_As4 (pfx_Addr p) else None)"

definition table_trie :: "byte list \<Rightarrow> AllowedIPs \<Rightarrow> trieEntry" where
  "table_trie ip t = (if length ip = 16 then IPv6 t else IPv4 t)"

definition set_table_trie :: "byte list \<Rightarrow> trieEntry \<Rightarrow> AllowedIPs \<Rightarrow> AllowedIPs" where
  "set_table_trie ip n t = (if length ip = 16 then t\<lparr>IPv6 := n\<rparr> else t\<lparr>IPv4 := n\<rparr>)"

text \<open>addToPeerEntries and removeFromPeerEntries for the node of an entry.\<close>

definition addToPeerEntries :: "Peer \<Rightarrow> entry \<Rightarrow> AllowedIPs \<Rightarrow> AllowedIPs" where
  "addToPeerEntries peer e t = t\<lparr>trieEntries := (trieEntries t)(peer := trieEntries t peer @ [e])\<rparr>"

definition removeFromPeerEntries :: "Peer option \<Rightarrow> entry \<Rightarrow> AllowedIPs \<Rightarrow> AllowedIPs" where
  "removeFromPeerEntries peer e t = (case peer of None \<Rightarrow> t
     | Some p \<Rightarrow> t\<lparr>trieEntries := (trieEntries t)(p := remove1 e (trieEntries t p))\<rparr>)"

definition insert_bytes :: "byte list \<Rightarrow> nat \<Rightarrow> Peer \<Rightarrow> AllowedIPs \<Rightarrow> AllowedIPs" where
  "insert_bytes ip cidr peer t =
     (let root = table_trie ip t;
          e = (maskSelf cidr ip, cidr);
          t = (case nodePlacement root ip cidr of
                 (Some path, True) \<Rightarrow> removeFromPeerEntries (te_peer (slot_get path root)) e t
               | _ \<Rightarrow> t)
      in set_table_trie ip (trie_insert ip cidr peer root) (addToPeerEntries peer e t))"

definition Insert :: "Prefix \<Rightarrow> Peer \<Rightarrow> AllowedIPs \<Rightarrow> AllowedIPs option" where
  "Insert prefix peer t = (case prefix_bytes prefix of None \<Rightarrow> None
     | Some ip \<Rightarrow> Some (insert_bytes ip (pfx_Bits prefix) peer t))"

text \<open>trieEntry.remove of the node at a path of a family's trie, with its list element.\<close>

definition remove_node :: "byte list \<Rightarrow> bool list \<Rightarrow> AllowedIPs \<Rightarrow> AllowedIPs" where
  "remove_node ip path t =
     (let root = table_trie ip t;
          node = slot_get path root
      in set_table_trie ip (trie_remove path root)
           (removeFromPeerEntries (te_peer node) (te_bits node, te_cidr node) t))"

definition Remove :: "Prefix \<Rightarrow> Peer \<Rightarrow> AllowedIPs \<Rightarrow> AllowedIPs option" where
  "Remove prefix peer t = (case prefix_bytes prefix of None \<Rightarrow> None
     | Some ip \<Rightarrow>
        (case nodePlacement (table_trie ip t) ip (pfx_Bits prefix) of
           (Some path, True) \<Rightarrow>
             if Some peer \<noteq> te_peer (slot_get path (table_trie ip t)) then Some t
             else Some (remove_node ip path t)
         | _ \<Rightarrow> Some t))"

text \<open>
  RemoveByPeer walks the peer's list; the next element is read before the
  current one is unlinked, so the walk visits the list as it was.
\<close>

definition remove_entry :: "entry \<Rightarrow> AllowedIPs \<Rightarrow> AllowedIPs" where
  "remove_entry e t = (case nodePlacement (table_trie (fst e) t) (fst e) (snd e) of
     (Some path, True) \<Rightarrow> remove_node (fst e) path t | _ \<Rightarrow> t)"

definition RemoveByPeer :: "Peer \<Rightarrow> AllowedIPs \<Rightarrow> AllowedIPs" where
  "RemoveByPeer peer t = fold remove_entry (trieEntries t peer) t"

text \<open>EntriesForPeer with a callback that never stops the walk: all prefixes in order.\<close>

definition EntriesForPeer :: "Peer \<Rightarrow> AllowedIPs \<Rightarrow> Prefix list" where
  "EntriesForPeer peer t =
     map (\<lambda>(bs, c). \<lparr>pfx_Addr = (case AddrFromSlice bs of None \<Rightarrow> AddrZero | Some a \<Rightarrow> a),
                    pfx_Bits = c\<rparr>) (trieEntries t peer)"

definition Lookup :: "byte list \<Rightarrow> AllowedIPs \<Rightarrow> Peer option option" where
  "Lookup ip t = (if length ip = 16 then Some (trie_lookup (IPv6 t) ip None)
     else if length ip = 4 then Some (trie_lookup (IPv4 t) ip None) else None)"

end
