(* ===== verification/AllowedIPs_Correct.thy ===== *)
theory AllowedIPs_Correct
  imports AllowedIPs "HOL-Library.Sublist"
begin

text \<open>
  The tries of theory AllowedIPs implement a finite map from prefixes to peers
  with longest-prefix lookup: bit-level lemmas, the trie invariant, the
  recursive forms of insert and remove, and the refinement of the table.
\<close>

section \<open>Addresses as bit strings\<close>

definition bits_of :: "byte list \<Rightarrow> bool list" where
  "bits_of bs = map (\<lambda>k. bit (bs ! (k div 8)) (7 - k mod 8)) [0..<8 * length bs]"

lemma length_bits_of [simp]: "length (bits_of bs) = 8 * length bs"
  by (simp add: bits_of_def)

lemma nth_bits_of: "k < 8 * length bs \<Longrightarrow> bits_of bs ! k = bit (bs ! (k div 8)) (7 - k mod 8)"
  by (simp add: bits_of_def)

lemma div_mod_8: "r < 8 \<Longrightarrow> (8 * q + r) div 8 = q" "r < 8 \<Longrightarrow> (8 * q + r) mod 8 = r" for q r :: nat
  by simp_all

lemma bits_of_eq_iff: "length a = length b \<Longrightarrow> (bits_of a = bits_of b) = (a = b)"
proof
  assume len: "length a = length b" and eq: "bits_of a = bits_of b"
  show "a = b"
  proof (rule nth_equalityI [OF len])
    fix i assume i: "i < length a"
    show "a ! i = b ! i"
    proof (rule bit_word_eqI)
      fix j assume "j < LENGTH(8)"
      then have j: "j < 8" by simp
      have k: "8 * i + (7 - j) < 8 * length a" using i j by linarith
      have dm: "(8 * i + (7 - j)) div 8 = i" "(8 * i + (7 - j)) mod 8 = 7 - j"
        by (rule div_mod_8, simp)+
      from eq have "bits_of a ! (8 * i + (7 - j)) = bits_of b ! (8 * i + (7 - j))" by simp
      then show "bit (a ! i) j = bit (b ! i) j"
        using k len j by (simp only: nth_bits_of dm) simp
    qed
  qed
qed simp

lemma choose_bit_nth: "c < 8 * length ip \<Longrightarrow> choose_bit c ip = bits_of ip ! c"
  by (simp add: choose_bit_def nth_bits_of bit_iff_and_drop_bit_eq_1)

text \<open>Length of the longest common prefix.\<close>

definition cpl :: "'a list \<Rightarrow> 'a list \<Rightarrow> nat" where
  "cpl xs ys = length (takeWhile (\<lambda>(x, y). x = y) (zip xs ys))"

lemma cpl_Cons [simp]: "cpl (x # xs) (y # ys) = (if x = y then Suc (cpl xs ys) else 0)"
  by (simp add: cpl_def)

lemma cpl_Nil [simp]: "cpl [] ys = 0" "cpl xs [] = 0"
  by (simp_all add: cpl_def)

lemma cpl_ge_iff: "n \<le> length xs \<Longrightarrow> n \<le> length ys \<Longrightarrow> (n \<le> cpl xs ys) = (take n xs = take n ys)"
proof (induction n arbitrary: xs ys)
  case (Suc n)
  then show ?case by (cases xs; cases ys) auto
qed simp

lemma cpl_le: "cpl xs ys \<le> length xs" "cpl xs ys \<le> length ys"
proof -
  have "cpl xs ys \<le> min (length xs) (length ys)"
    unfolding cpl_def using length_takeWhile_le [of _ "zip xs ys"] by simp
  then show "cpl xs ys \<le> length xs" "cpl xs ys \<le> length ys" by simp_all
qed

lemma cpl_append:
  "length xs = length ys \<Longrightarrow> cpl (xs @ us) (ys @ vs) = (if xs = ys then length xs + cpl us vs else cpl xs ys)"
  by (induction xs ys rule: list_induct2) auto

lemma cpl_index: "length xs = length ys \<Longrightarrow>
    cpl xs ys = length (takeWhile (\<lambda>j. xs ! j = ys ! j) [0..<length xs])"
proof -
  assume "length xs = length ys"
  then have "zip xs ys = map (\<lambda>j. (xs ! j, ys ! j)) [0..<length xs]"
    by (intro nth_equalityI) simp_all
  then show ?thesis by (simp add: cpl_def takeWhile_map comp_def)
qed

lemma rev_upt_map: "rev [0..<m] = map (\<lambda>j. m - Suc j) [0..<m]"
  by (intro nth_equalityI) (simp_all add: rev_nth)

lemma byte_of_rev_index:
  assumes "j < 8 * n"
  shows "(8 * n - Suc j) div 8 = n - Suc (j div 8)" "(8 * n - Suc j) mod 8 = 7 - j mod 8"
proof -
  define q r where "q = j div 8" and "r = j mod 8"
  have j: "j = 8 * q + r" "r < 8" by (simp_all add: q_def r_def)
  with assms have q: "q < n" by linarith
  then have *: "8 * n - Suc j = 8 * (n - Suc q) + (7 - r)" using j by (simp add: algebra_simps)
  have "7 - r < 8" by simp
  then show "(8 * n - Suc j) div 8 = n - Suc (j div 8)" "(8 * n - Suc j) mod 8 = 7 - j mod 8"
    unfolding * q_def [symmetric] r_def [symmetric] by (rule div_mod_8)+
qed

lemma LeadingZeros_cpl:
  assumes "LENGTH('a) = 8 * length a" "length a = length b"
  shows "LeadingZeros ((be_get a :: 'a::len word) XOR be_get b) = cpl (bits_of a) (bits_of b)"
proof -
  let ?n = "length a"
  have "(\<not> bit ((be_get a :: 'a word) XOR be_get b) (8 * ?n - Suc j)) = (bits_of a ! j = bits_of b ! j)"
    if j: "j < 8 * ?n" for j
  proof -
    have *: "8 * ?n - Suc j < 8 * ?n" "j div 8 < ?n" using j by auto
    have "bit (be_get c :: 'a word) (8 * ?n - Suc j) = bits_of c ! j" if "length c = ?n" for c
      using j * that assms(1) unfolding bit_be_get nth_bits_of [OF j [folded that]]
      by (simp add: byte_of_rev_index rev_nth Suc_diff_Suc)
    then show ?thesis using assms(2) by (auto simp: bit_xor_iff)
  qed
  then have "takeWhile (\<lambda>j. \<not> bit ((be_get a :: 'a word) XOR be_get b) (8 * ?n - Suc j)) [0..<8 * ?n] =
      takeWhile (\<lambda>j. bits_of a ! j = bits_of b ! j) [0..<8 * ?n]"
    by (intro takeWhile_cong) simp_all
  then show ?thesis
    using assms by (simp add: LeadingZeros_def rev_upt_map takeWhile_map comp_def cpl_index)
qed

lemma bits_of_append: "bits_of (a @ b) = bits_of a @ bits_of b"
proof (rule nth_equalityI)
  fix i assume i: "i < length (bits_of (a @ b))"
  show "bits_of (a @ b) ! i = (bits_of a @ bits_of b) ! i"
  proof (cases "i < 8 * length a")
    case True
    then have "i div 8 < length a" by (simp add: less_mult_imp_div_less mult.commute)
    with True i show ?thesis by (simp add: nth_append nth_bits_of)
  next
    case False
    then obtain k where k: "i = 8 * length a + k" by (metis le_add_diff_inverse not_less)
    then have "i div 8 = length a + k div 8" "i mod 8 = k mod 8" by simp_all
    with i k show ?thesis by (simp add: nth_append nth_bits_of del: div_add1_eq)
  qed
qed simp

lemma xor_zero_iff: "(x XOR y = 0) = (x = y)" for x y :: "'a::len word"
proof
  assume h: "x XOR y = 0"
  have "x = (x XOR y) XOR y" by (simp add: xor.assoc)
  also have "\<dots> = y" by (simp add: h)
  finally show "x = y" .
qed simp

lemma commonBits_cpl:
  assumes "length a = 4 \<or> length a = 16" "length b = length a"
  shows "commonBits a b = Some (cpl (bits_of a) (bits_of b))"
proof (cases "length a = 4")
  case True
  then show ?thesis
    using assms(2) by (simp add: commonBits_def LeadingZeros_cpl)
next
  case False
  with assms have len: "length a = 16" "length b = 16" by simp_all
  let ?a = "take 8 a" and ?b = "take 8 b" and ?c = "drop 8 a" and ?d = "drop 8 b"
  have split: "bits_of a = bits_of ?a @ bits_of ?c" "bits_of b = bits_of ?b @ bits_of ?d"
    by (simp_all flip: bits_of_append)
  have "((be_get ?a :: 64 word) XOR be_get ?b = 0) = (?a = ?b)"
    unfolding xor_zero_iff by (rule be_get_eq_iff) (simp_all add: len)
  then show ?thesis
    using len unfolding commonBits_def split
    by (simp add: LeadingZeros_cpl cpl_append bits_of_eq_iff Let_def)
qed

lemma common_ge_iff:
  assumes "length a = 4 \<or> length a = 16" "length b = length a" "c \<le> 8 * length a"
  shows "common_ge a b c = (take c (bits_of a) = take c (bits_of b))"
  using assms by (simp add: common_ge_def commonBits_cpl cpl_ge_iff)

lemma length_CIDRMask [simp]: "length (CIDRMask c n) = n"
  by (induction c n rule: CIDRMask.induct) simp_all

lemma bit_CIDRMask: "i < n \<Longrightarrow> j < 8 \<Longrightarrow> bit (CIDRMask c n ! i) j = (8 * i + (7 - j) < c)"
proof (induction c n arbitrary: i rule: CIDRMask.induct)
  case (2 c n)
  have ff: "(0xFF :: byte) = - 1" by simp
  show ?case
  proof (cases i)
    case 0
    then show ?thesis
      using "2.prems" unfolding CIDRMask.simps ff by (auto simp: bit_simps)
  next
    case (Suc i')
    then show ?thesis
      using 2 by auto
  qed
qed simp

lemma length_maskSelf [simp]: "length (maskSelf c bs) = length bs"
  by (simp add: maskSelf_def)

lemma bits_of_maskSelf:
  "c \<le> 8 * length bs \<Longrightarrow> bits_of (maskSelf c bs) = take c (bits_of bs) @ replicate (8 * length bs - c) False"
proof (rule nth_equalityI)
  fix k assume c: "c \<le> 8 * length bs" and "k < length (bits_of (maskSelf c bs))"
  then have k: "k < 8 * length bs" by simp
  then have i: "k div 8 < length bs" by (simp add: less_mult_imp_div_less mult.commute)
  have *: "8 * (k div 8) + (7 - (7 - k mod 8)) = k" by simp
  have "bits_of (maskSelf c bs) ! k = (bits_of bs ! k \<and> k < c)"
    using k i bit_CIDRMask [OF i, of "7 - k mod 8" c] unfolding *
    by (simp add: nth_bits_of maskSelf_def bit_and_iff)
  then show "bits_of (maskSelf c bs) ! k = (take c (bits_of bs) @ replicate (8 * length bs - c) False) ! k"
    using k c by (simp add: nth_append)
qed simp


section \<open>The trie invariant\<close>

definition pkey :: "byte list \<Rightarrow> nat \<Rightarrow> bool list" where
  "pkey bs c = take c (bits_of bs)"

fun keys :: "trieEntry \<Rightarrow> bool list set" where
  "keys TNil = {}"
| "keys (TNode p bs c l r) = insert (pkey bs c) (keys l \<union> keys r)"

text \<open>The finite map a trie stands for.\<close>

fun bindings :: "trieEntry \<Rightarrow> bool list \<Rightarrow> Peer option" where
  "bindings TNil = (\<lambda>_. None)"
| "bindings (TNode p bs c l r) =
     (\<lambda>k. if k = pkey bs c then p else case bindings l k of None \<Rightarrow> bindings r k | v \<Rightarrow> v)"

text \<open>
  n is the address length in bytes: node bits are masked, a node without a peer
  has two children, and everything below child b extends the node's prefix by b.
\<close>

fun trie_inv :: "nat \<Rightarrow> trieEntry \<Rightarrow> bool" where
  "trie_inv n TNil = True"
| "trie_inv n (TNode p bs c l r) =
     (length bs = n \<and> c \<le> 8 * n \<and> maskSelf c bs = bs \<and>
      (p = None \<longrightarrow> l \<noteq> TNil \<and> r \<noteq> TNil) \<and> trie_inv n l \<and> trie_inv n r \<and>
      (\<forall>k \<in> keys l. prefix (pkey bs c @ [False]) k) \<and>
      (\<forall>k \<in> keys r. prefix (pkey bs c @ [True]) k))"

abbreviation ip_size :: "nat \<Rightarrow> bool" where "ip_size n \<equiv> n = 4 \<or> n = 16"

lemma length_pkey: "c \<le> 8 * length bs \<Longrightarrow> length (pkey bs c) = c"
  by (simp add: pkey_def)

lemma pkey_maskSelf: "c \<le> 8 * length bs \<Longrightarrow> d \<le> c \<Longrightarrow> pkey (maskSelf c bs) d = pkey bs d"
  by (simp add: pkey_def bits_of_maskSelf min_def)

lemma maskSelf_idem: "c \<le> 8 * length bs \<Longrightarrow> maskSelf c (maskSelf c bs) = maskSelf c bs"
  by (simp flip: bits_of_eq_iff add: bits_of_maskSelf)

lemma masked_eq:
  assumes "maskSelf c a = a" "maskSelf c b = b" "length a = length b" "c \<le> 8 * length a"
    "pkey a c = pkey b c"
  shows "a = b"
proof -
  have "bits_of (maskSelf c a) = bits_of (maskSelf c b)"
    using assms(3-5) by (simp add: bits_of_maskSelf pkey_def)
  with assms(1-3) show ?thesis by (simp add: bits_of_eq_iff)
qed

lemma prefix_pkey_iff:
  "length bs = length ip \<Longrightarrow> c \<le> 8 * length bs \<Longrightarrow> prefix (pkey bs c) (bits_of ip) = (pkey bs c = pkey ip c)"
  by (simp add: prefix_def pkey_def) (metis append_take_drop_id append_eq_conv_conj length_take length_bits_of min.absorb2)

lemma bindings_keys: "bindings t k \<noteq> None \<Longrightarrow> k \<in> keys t"
  by (induction t arbitrary: k) (auto split: if_splits option.splits)

lemma bindings_None: "k \<notin> keys t \<Longrightarrow> bindings t k = None"
  using bindings_keys by blast

lemma keys_prefix_root:
  "trie_inv n (TNode p bs c l r) \<Longrightarrow> k \<in> keys (TNode p bs c l r) \<Longrightarrow> prefix (pkey bs c) k"
  by (auto dest!: bspec elim: prefixE)

lemma node_size:
  assumes "trie_inv n (TNode p bs c l r)" "l \<noteq> TNil \<or> r \<noteq> TNil"
  shows "c < 8 * n"
proof -
  have len: "length k \<le> 8 * n" if "k \<in> keys t" "trie_inv n t" for k t
    using that by (induction t) (auto simp: pkey_def)
  from assms(2) obtain t k where "t = l \<or> t = r" "k \<in> keys t"
    by (metis insertI1 keys.simps(2) trieEntry.exhaust)
  then have "length (pkey bs c) < length k" "length k \<le> 8 * n"
    using assms(1) len by (auto dest!: bspec prefix_length_le)
  moreover have "length (pkey bs c) = c" using assms(1) by (auto simp: length_pkey)
  ultimately show ?thesis by simp
qed

text \<open>Bindings of the two subtrees are seen through the bit that selects them.\<close>

lemma bindings_node:
  assumes "trie_inv n (TNode p bs c l r)"
  shows "bindings (TNode p bs c l r) (pkey bs c) = p"
    and "prefix (pkey bs c @ [b]) k \<Longrightarrow>
      bindings (TNode p bs c l r) k = bindings (if b then r else l) k"
proof -
  assume k: "prefix (pkey bs c @ [b]) k"
  then have "k \<noteq> pkey bs c" by auto
  moreover have "bindings (if b then l else r) k = None"
    using assms k by (intro bindings_None) (auto dest!: bspec dest: prefix_same_cases [OF k])
  ultimately show "bindings (TNode p bs c l r) k = bindings (if b then r else l) k"
    by (auto split: option.splits)
qed simp

section \<open>Lookup is longest-prefix match\<close>

text \<open>The reference: the peer of the longest bound prefix of x, found from length j on.\<close>

definition lpm_from :: "(bool list \<Rightarrow> Peer option) \<Rightarrow> bool list \<Rightarrow> nat \<Rightarrow> Peer option \<Rightarrow> Peer option" where
  "lpm_from m x j found =
     fold (\<lambda>n acc. case m (take n x) of None \<Rightarrow> acc | v \<Rightarrow> v) [j..<Suc (length x)] found"

definition lpm :: "(bool list \<Rightarrow> Peer option) \<Rightarrow> bool list \<Rightarrow> Peer option" where
  "lpm m x = lpm_from m x 0 None"

lemma lpm_from_cong:
  assumes "\<And>n. j \<le> n \<Longrightarrow> n \<le> length x \<Longrightarrow> m (take n x) = m' (take n x)"
  shows "lpm_from m x j f = lpm_from m' x j f"
  unfolding lpm_from_def
proof (rule fold_cong)
  fix n assume "n \<in> set [j..<Suc (length x)]"
  then have "m (take n x) = m' (take n x)" by (intro assms) auto
  then show "(\<lambda>acc. case m (take n x) of None \<Rightarrow> acc | v \<Rightarrow> v) =
      (\<lambda>acc. case m' (take n x) of None \<Rightarrow> acc | v \<Rightarrow> v)" by simp
qed simp_all

lemma lpm_from_skip:
  assumes "\<And>n. j \<le> n \<Longrightarrow> n < i \<Longrightarrow> m (take n x) = None" "j \<le> i" "i \<le> Suc (length x)"
  shows "lpm_from m x j f = lpm_from m x i f"
proof -
  have "[j..<Suc (length x)] = [j..<i] @ [i..<Suc (length x)]"
    using assms(2,3) upt_add_eq_append [of j i "Suc (length x) - i"] by simp
  moreover have "fold (\<lambda>n acc. case m (take n x) of None \<Rightarrow> acc | v \<Rightarrow> v) [j..<i] f = f"
    using assms(1) by (intro fold_invariant [where Q = "\<lambda>n. j \<le> n \<and> n < i" and P = "\<lambda>a. a = f"]) auto
  ultimately show ?thesis by (simp add: lpm_from_def)
qed

lemma lpm_from_step:
  "j \<le> length x \<Longrightarrow>
    lpm_from m x j f = lpm_from m x (Suc j) (case m (take j x) of None \<Rightarrow> f | v \<Rightarrow> v)"
  by (simp add: lpm_from_def upt_conv_Cons del: upt_Suc)

lemma lpm_from_end: "lpm_from m x (Suc (length x)) f = f"
  by (simp add: lpm_from_def)

lemma lpm_from_none:
  "(\<And>n. j \<le> n \<Longrightarrow> n \<le> length x \<Longrightarrow> m (take n x) = None) \<Longrightarrow> j \<le> Suc (length x) \<Longrightarrow> lpm_from m x j f = f"
  using lpm_from_skip [of j "Suc (length x)" m x f] by (simp add: lpm_from_end)

text \<open>The meaning of the reference: no bound prefix gives None, the longest one its peer.\<close>

lemma lpm_none: "(\<And>k. prefix k x \<Longrightarrow> m k = None) \<Longrightarrow> lpm m x = None"
  unfolding lpm_def by (intro lpm_from_none) (auto simp: take_is_prefix)

lemma lpm_some:
  assumes "prefix k x" "m k = Some p" "\<And>k'. prefix k' x \<Longrightarrow> length k < length k' \<Longrightarrow> m k' = None"
  shows "lpm m x = Some p"
proof -
  let ?n = "length k"
  have k: "k = take ?n x" "?n \<le> length x"
    using assms(1) by (auto simp: prefix_def)
  have "[0..<Suc (length x)] = [0..<?n] @ [?n..<Suc (length x)]"
    using k(2) upt_add_eq_append [of 0 ?n "Suc (length x) - ?n"] by simp
  then obtain g where "lpm m x = lpm_from m x ?n g"
    by (auto simp: lpm_def lpm_from_def simp del: upt_Suc)
  also have "\<dots> = lpm_from m x (Suc ?n) (Some p)"
    using lpm_from_step [OF k(2), of m g] assms(2) k(1) by simp
  also have "\<dots> = Some p"
    using assms(3) k(2) by (intro lpm_from_none) (auto simp: take_is_prefix)
  finally show ?thesis .
qed

lemma trie_lookup_lpm:
  assumes "ip_size (length ip)" "trie_inv (length ip) t"
    and "\<And>k. k \<in> keys t \<Longrightarrow> j \<le> length k" "j \<le> Suc (length (bits_of ip))"
  shows "trie_lookup t ip found = lpm_from (bindings t) (bits_of ip) j found"
  using assms(2-)
proof (induction t arbitrary: j found)
  case TNil
  then show ?case by (simp add: lpm_from_none)
next
  case (TNode p bs c l r)
  let ?t = "TNode p bs c l r" and ?x = "bits_of ip"
  have len: "length bs = length ip" "c \<le> 8 * length bs" "length (pkey bs c) = c"
    using TNode.prems(1) by (auto simp: length_pkey)
  have jc: "j \<le> c" using TNode.prems(2) [of "pkey bs c"] len(3) by simp
  have ge: "common_ge bs ip c = (pkey bs c = pkey ip c)"
    using assms(1) len by (simp add: common_ge_iff pkey_def)
  have ext: "prefix (pkey bs c) k" if "bindings ?t k \<noteq> None" for k
    using keys_prefix_root [OF TNode.prems(1)] bindings_keys [OF that] by blast
  show ?case
  proof (cases "pkey bs c = pkey ip c")
    case False
    have "bindings ?t (take n ?x) = None" for n
    proof (rule ccontr)
      assume "bindings ?t (take n ?x) \<noteq> None"
      from ext [OF this] have "prefix (pkey bs c) ?x"
        using prefix_order.trans take_is_prefix by blast
      with False len show False by (simp add: prefix_pkey_iff)
    qed
    then show ?thesis
      using False TNode.prems(3) by (simp add: ge lpm_from_none)
  next
    case True
    let ?f = "if p \<noteq> None then p else found"
    have short: "bindings ?t (take n ?x) = None" if "n < c" for n
    proof (rule ccontr)
      assume "bindings ?t (take n ?x) \<noteq> None"
      from prefix_length_le [OF ext [OF this]] that len(3) show False by simp
    qed
    have "lpm_from (bindings ?t) ?x j found = lpm_from (bindings ?t) ?x c found"
      using short jc len by (intro lpm_from_skip) auto
    also have "\<dots> = lpm_from (bindings ?t) ?x (Suc c) (case bindings ?t (take c ?x) of None \<Rightarrow> found | v \<Rightarrow> v)"
      using len by (intro lpm_from_step) simp
    also have "take c ?x = pkey bs c" using True by (simp add: pkey_def)
    also have "(case bindings ?t (pkey bs c) of None \<Rightarrow> found | v \<Rightarrow> v) = ?f"
      by (auto split: option.splits)
    finally have step: "lpm_from (bindings ?t) ?x j found = lpm_from (bindings ?t) ?x (Suc c) ?f" .
    show ?thesis
    proof (cases "c div 8 = length ip")
      case end_node: True
      then have "Suc c = Suc (length ?x)" using len by simp
      then have "lpm_from (bindings ?t) ?x (Suc c) ?f = ?f" by (simp only: lpm_from_end)
      then show ?thesis
        using True end_node unfolding step by (simp add: ge Let_def del: bindings.simps)
    next
      case False
      then have c: "c < 8 * length ip" using len by (metis div_mult_self1_is_m le_neq_implies_less zero_less_numeral)
      let ?b = "choose_bit c ip"
      let ?s = "if ?b then r else l"
      have pk: "prefix (pkey bs c @ [?b]) (take n ?x)" if "Suc c \<le> n" "n \<le> length ?x" for n
      proof -
        have "pkey bs c @ [?b] = take (Suc c) ?x"
          using True c by (simp add: pkey_def choose_bit_nth take_Suc_conv_app_nth)
        also have "\<dots> = take (Suc c) (take n ?x)" using that by simp
        finally show ?thesis by (metis take_is_prefix)
      qed
      have "lpm_from (bindings ?t) ?x (Suc c) ?f = lpm_from (bindings ?s) ?x (Suc c) ?f"
        by (rule lpm_from_cong) (rule bindings_node(2) [OF TNode.prems(1) pk])
      also have "\<dots> = trie_lookup ?s ip ?f"
      proof -
        have "Suc c \<le> length k" if "k \<in> keys ?s" for k
          using TNode.prems(1) that len(3) by (auto dest!: bspec prefix_length_le split: if_splits)
        moreover have "trie_inv (length ip) l" "trie_inv (length ip) r" using TNode.prems(1) by simp_all
        ultimately show ?thesis
          using TNode.IH(1) [of "Suc c" ?f] TNode.IH(2) [of "Suc c" ?f] c by (cases ?b) simp_all
      qed
      finally show ?thesis
        using True False unfolding step by (simp add: ge Let_def del: bindings.simps)
    qed
  qed
qed

section \<open>Insertion\<close>

lemma pkey_Suc: "c < 8 * length bs \<Longrightarrow> pkey bs (Suc c) = pkey bs c @ [choose_bit c bs]"
  by (simp add: pkey_def choose_bit_nth take_Suc_conv_app_nth)

lemma pkey_mono: "c \<le> d \<Longrightarrow> prefix (pkey bs c) (pkey bs d)"
  by (metis pkey_def take_is_prefix take_take min_def)

lemma pkey_branch: "c < d \<Longrightarrow> d \<le> 8 * length bs \<Longrightarrow> prefix (pkey bs c @ [choose_bit c bs]) (pkey bs d)"
  using pkey_mono [of "Suc c" d bs] pkey_Suc [of c bs] by simp

lemma pkey_eq_mono: "pkey a d = pkey b d \<Longrightarrow> c \<le> d \<Longrightarrow> pkey a c = pkey b c"
  by (metis pkey_def take_take min_def)

lemma choose_bit_maskSelf: "c < cidr \<Longrightarrow> cidr \<le> 8 * length ip \<Longrightarrow> choose_bit c (maskSelf cidr ip) = choose_bit c ip"
  by (simp add: choose_bit_nth bits_of_maskSelf nth_append)

text \<open>The new node (and glue node) put in front of a subtree that does not cover it.\<close>

definition splice_node :: "byte list \<Rightarrow> nat \<Rightarrow> Peer \<Rightarrow> trieEntry \<Rightarrow> trieEntry" where
  "splice_node ip cidr peer down =
     (let ip' = maskSelf cidr ip;
          newNode = TNode (Some peer) ip' cidr TNil TNil;
          common = the (commonBits (te_bits down) ip');
          cidr' = (if common < cidr then common else cidr)
      in if cidr = cidr' then set_child (choose_bit cidr (te_bits down)) down newNode
         else set_child (choose_bit cidr' ip') newNode
                (set_child (choose_bit cidr' (te_bits down)) down (new_entry None ip' cidr')))"

fun ins :: "byte list \<Rightarrow> nat \<Rightarrow> Peer \<Rightarrow> trieEntry \<Rightarrow> trieEntry" where
  "ins ip cidr peer TNil = new_entry (Some peer) ip cidr"
| "ins ip cidr peer (TNode p bs c l r) =
     (if c \<le> cidr \<and> common_ge bs ip c then
        if c = cidr then TNode (Some peer) bs c l r
        else if choose_bit c ip then TNode p bs c l (ins ip cidr peer r)
        else TNode p bs c (ins ip cidr peer l) r
      else splice_node ip cidr peer (TNode p bs c l r))"

lemma nodePlacement_None: "nodePlacement t ip cidr = (None, e) \<Longrightarrow> \<not> e"
  by (cases t) (auto simp: Let_def split: if_splits prod.splits option.splits)

lemma trie_insert_down:
  assumes "c \<le> cidr" "common_ge bs ip c" "c \<noteq> cidr" "cidr \<le> 8 * length ip"
  shows "trie_insert ip cidr peer (TNode p bs c l r) =
    set_child (choose_bit c ip) (trie_insert ip cidr peer (if choose_bit c ip then r else l)) (TNode p bs c l r)"
proof -
  let ?b = "choose_bit c ip" and ?t = "TNode p bs c l r"
  let ?s = "if ?b then r else l"
  have b: "choose_bit c (maskSelf cidr ip) = ?b"
    using assms by (intro choose_bit_maskSelf) auto
  have s: "te_child ?b ?t = ?s" by simp
  obtain q e where np: "nodePlacement ?s ip cidr = (q, e)" by force
  show ?thesis
  proof (cases "?s = TNil")
    case True
    then show ?thesis
      using assms b by (simp add: trie_insert_def Let_def new_entry_def split: if_splits)
  next
    case False
    with np assms b show ?thesis
      using nodePlacement_None [of ?s ip cidr e]
      by (cases q; cases e; cases ?b) (auto simp: trie_insert_def Let_def)
  qed
qed

lemma trie_insert_ins:
  assumes "cidr \<le> 8 * length ip"
  shows "trie_insert ip cidr peer t = ins ip cidr peer t"
proof (induction t)
  case TNil
  then show ?case by (simp add: trie_insert_def)
next
  case (TNode p bs c l r)
  show ?case
  proof (cases "c \<le> cidr \<and> common_ge bs ip c")
    case True
    then show ?thesis
      using trie_insert_down [of c cidr bs ip peer p l r] assms TNode.IH
      by (cases "c = cidr") (auto simp: trie_insert_def)
  next
    case False
    then show ?thesis
      by (auto simp: trie_insert_def splice_node_def Let_def)
  qed
qed

lemma cpl_neq: "length xs = length ys \<Longrightarrow> cpl xs ys < length xs \<Longrightarrow> xs ! cpl xs ys \<noteq> ys ! cpl xs ys"
  by (induction xs ys rule: list_induct2) auto

lemma cpl_take: "length xs = length ys \<Longrightarrow> take (cpl xs ys) xs = take (cpl xs ys) ys"
  using cpl_ge_iff [of "cpl xs ys" xs ys] cpl_le [of xs ys] by simp

lemma prefix_disj: "prefix (g @ [b]) x \<Longrightarrow> \<not> prefix (g @ [\<not> b]) x"
  by (auto simp: prefix_def)

lemma prefix_fork:
  assumes "prefix (g @ [b]) x" "prefix (g @ [\<not> b]) y" "prefix q x" "prefix q y"
  shows "prefix q g"
proof -
  have "\<not> prefix (g @ [b]) q"
    using prefix_disj [of g b y] assms(2,4) prefix_order.trans by blast
  with prefix_same_cases [OF assms(1,3)] have "prefix q (g @ [b])" "q \<noteq> g @ [b]" by auto
  then show ?thesis by simp
qed

text \<open>Replacing the subtree in one slot of a node.\<close>

lemma set_child_correct:
  assumes t: "trie_inv n (TNode p bs c l r)"
    and s: "trie_inv n s" "\<forall>k \<in> keys s. prefix (pkey bs c @ [b]) k" "p \<noteq> None \<or> s \<noteq> TNil"
  shows "trie_inv n (set_child b s (TNode p bs c l r))"
    and "bindings (set_child b s (TNode p bs c l r)) =
      (\<lambda>k. if prefix (pkey bs c @ [b]) k then bindings s k else bindings (TNode p bs c l r) k)"
proof -
  let ?t = "TNode p bs c l r"
  show inv: "trie_inv n (set_child b s ?t)"
    using t s by (cases b) auto
  show "bindings (set_child b s ?t) =
      (\<lambda>k. if prefix (pkey bs c @ [b]) k then bindings s k else bindings ?t k)"
  proof
    fix k
    show "bindings (set_child b s ?t) k = (if prefix (pkey bs c @ [b]) k then bindings s k else bindings ?t k)"
    proof (cases "prefix (pkey bs c @ [b]) k")
      case True
      then show ?thesis
        using inv bindings_node(2) [of n p bs c l s b k] bindings_node(2) [of n p bs c s r b k]
        by (cases b) simp_all
    next
      case False
      have "bindings s k = None" "bindings (if b then r else l) k = None"
        using False s(2) t by (auto intro!: bindings_None split: if_splits)
      with False show ?thesis by (cases b) (auto split: option.splits)
    qed
  qed
qed

lemma keys_set_child: "k \<in> keys (set_child b s t) \<Longrightarrow> k \<in> keys s \<or> k \<in> keys t"
  by (cases t) (auto split: if_splits)

text \<open>What splice_node needs to know of its argument, and what it establishes.\<close>

lemma splice_correct:
  assumes n: "ip_size n" "length ip = n" "cidr \<le> 8 * n"
    and inv: "trie_inv n (TNode p bs c l r)"
    and out: "\<not> (c \<le> cidr \<and> common_ge bs ip c)"
  defines "t \<equiv> TNode p bs c l r"
  shows "trie_inv n (splice_node ip cidr peer t) \<and>
    bindings (splice_node ip cidr peer t) = (bindings t)(pkey ip cidr \<mapsto> peer) \<and>
    (\<forall>q. prefix q (pkey ip cidr) \<longrightarrow> (\<forall>k \<in> keys t. prefix q k) \<longrightarrow>
         (\<forall>k \<in> keys (splice_node ip cidr peer t). prefix q k)) \<and> splice_node ip cidr peer t \<noteq> TNil"
proof -
  define ip' where "ip' = maskSelf cidr ip"
  define m where "m = cpl (bits_of bs) (bits_of ip')"
  have bs: "length bs = n" "c \<le> 8 * n" using inv by auto
  have ip': "length ip' = n" "maskSelf cidr ip' = ip'" "pkey ip' cidr = pkey ip cidr"
    using n by (simp_all add: ip'_def maskSelf_idem pkey_maskSelf)
  have common: "the (commonBits (te_bits t) ip') = m"
    using n bs ip' by (simp add: t_def commonBits_cpl m_def)
  have tb: "te_bits t = bs" by (simp add: t_def)
  have m8: "m \<le> 8 * n" using cpl_le(1) [of "bits_of bs" "bits_of ip'"] bs by (simp add: m_def)
  have eqm: "pkey bs d = pkey ip' d" if "d \<le> m" for d
    using cpl_ge_iff [of d "bits_of bs" "bits_of ip'"] that m8 bs ip' by (simp add: m_def pkey_def)
  have ge: "common_ge bs ip c = (pkey bs c = pkey ip c)"
    using n bs by (simp add: common_ge_iff pkey_def)
  have c_gt: "c > min m cidr"
  proof (rule ccontr)
    assume "\<not> min m cidr < c"
    then have "c \<le> m" "c \<le> cidr" by auto
    then have "pkey bs c = pkey ip c"
      using eqm [of c] pkey_maskSelf [of cidr ip c] n by (simp add: ip'_def)
    with \<open>c \<le> cidr\<close> out ge show False by simp
  qed
  have below: "prefix (pkey bs c) k" if "k \<in> keys t" for k
    using keys_prefix_root [OF inv] that by (simp add: t_def)
  show ?thesis
  proof (cases "cidr \<le> m")
    case True
    let ?b = "choose_bit cidr bs"
    have key: "pkey bs cidr = pkey ip cidr" using eqm True ip' by simp
    have br: "prefix (pkey ip cidr @ [?b]) k" if "k \<in> keys t" for k
      using pkey_branch [of cidr c bs] c_gt True bs below [OF that] key
      by (auto intro: prefix_order.trans)
    have nk: "pkey ip cidr \<notin> keys t"
      using br [of "pkey ip cidr"] by (auto dest: prefix_length_le)
    have res: "splice_node ip cidr peer t = set_child ?b t (TNode (Some peer) ip' cidr TNil TNil)"
      using True unfolding splice_node_def ip'_def [symmetric] Let_def common by (simp add: tb)
    show ?thesis
      unfolding res
      using br nk inv ip' n
      by (cases ?b) (auto simp: t_def [symmetric] fun_eq_iff bindings_None split: option.splits
          intro: append_prefixD prefix_order.trans)
  next
    case False
    let ?g = "new_entry None ip' m" and ?b = "choose_bit m ip'"
    let ?new = "TNode (Some peer) ip' cidr TNil TNil"
    have m: "m < cidr" "m < c" "m < 8 * n" using False c_gt n by auto
    have nb: "choose_bit m bs = (\<not> ?b)"
      using cpl_neq [of "bits_of bs" "bits_of ip'"] m bs ip' by (simp add: choose_bit_nth m_def)
    have gkey: "pkey (maskSelf m ip') m = pkey ip' m" using m ip' by (simp add: pkey_maskSelf)
    have br: "prefix (pkey ip' m @ [\<not> ?b]) k" if "k \<in> keys t" for k
      using pkey_branch [of m c bs] m bs below [OF that] nb eqm [of m]
      by (auto intro: prefix_order.trans)
    have bn: "prefix (pkey ip' m @ [?b]) (pkey ip cidr)"
      using pkey_branch [of m cidr ip'] m n ip' by simp
    have nk: "pkey ip cidr \<notin> keys t" "pkey ip' m \<notin> keys t" "pkey ip' m \<noteq> pkey ip cidr"
    proof -
      show "pkey ip' m \<notin> keys t" using br [of "pkey ip' m"] by (auto dest: prefix_length_le)
      show "pkey ip' m \<noteq> pkey ip cidr" using bn by (auto dest: prefix_length_le)
      show "pkey ip cidr \<notin> keys t"
        using br [of "pkey ip cidr"] prefix_disj [OF bn] by auto
    qed
    have res: "splice_node ip cidr peer t = set_child ?b ?new (set_child (\<not> ?b) t ?g)"
      using False nb unfolding splice_node_def ip'_def [symmetric] Let_def common by (simp add: tb)
    have t: "t \<noteq> TNil" "pkey bs c \<in> keys t" by (simp_all add: t_def)
    have fork: "prefix q (pkey ip' m)" if "prefix q (pkey ip cidr)" "\<forall>k \<in> keys t. prefix q k" for q
      using prefix_fork [OF bn br [OF t(2)]] that t(2) by blast
    have inv': "trie_inv n t" using inv by (simp add: t_def)
    have br': "\<forall>k \<in> keys t. prefix (pkey ip' m @ [\<not> ?b]) k" using br by blast
    have inv_r: "trie_inv n (splice_node ip cidr peer t)"
      unfolding res new_entry_def using br' bn inv' t(1) ip' n(3) m(3) gkey
      by (cases ?b) (simp_all add: maskSelf_idem)
    have bnd: "bindings (splice_node ip cidr peer t) k = ((bindings t)(pkey ip cidr \<mapsto> peer)) k" for k
      unfolding res new_entry_def using nk gkey ip'(3)
      by (cases ?b) (auto simp: bindings_None split: option.splits)
    have "keys (splice_node ip cidr peer t) = {pkey ip' m, pkey ip cidr} \<union> keys t"
      unfolding res new_entry_def using gkey ip'(3) by (cases ?b) auto
    moreover have "splice_node ip cidr peer t \<noteq> TNil"
      unfolding res new_entry_def by (cases ?b) auto
    moreover have "bindings (splice_node ip cidr peer t) = (bindings t)(pkey ip cidr \<mapsto> peer)"
      by (rule ext) (rule bnd)
    ultimately show ?thesis using inv_r fork by auto
  qed
qed

definition ins_ok :: "nat \<Rightarrow> byte list \<Rightarrow> nat \<Rightarrow> Peer \<Rightarrow> trieEntry \<Rightarrow> bool" where
  "ins_ok n ip cidr peer t \<longleftrightarrow> trie_inv n (ins ip cidr peer t) \<and>
    bindings (ins ip cidr peer t) = (bindings t)(pkey ip cidr \<mapsto> peer) \<and>
    (\<forall>q. prefix q (pkey ip cidr) \<longrightarrow> (\<forall>k \<in> keys t. prefix q k) \<longrightarrow>
         (\<forall>k \<in> keys (ins ip cidr peer t). prefix q k)) \<and> ins ip cidr peer t \<noteq> TNil"

lemma ins_correct:
  assumes n: "ip_size n" "length ip = n" "cidr \<le> 8 * n" and inv: "trie_inv n t"
  shows "ins_ok n ip cidr peer t"
  using inv
proof (induction t)
  case TNil
  have "bindings (ins ip cidr peer TNil) = (bindings TNil)(pkey ip cidr \<mapsto> peer)"
    using n by (simp add: new_entry_def fun_eq_iff pkey_maskSelf)
  then show ?case
    using n by (simp add: ins_ok_def new_entry_def maskSelf_idem pkey_maskSelf)
next
  case (TNode p bs c l r)
  let ?t = "TNode p bs c l r" and ?k = "pkey ip cidr"
  show ?case
  proof (cases "c \<le> cidr \<and> common_ge bs ip c")
    case False
    then have res: "ins ip cidr peer ?t = splice_node ip cidr peer ?t" by (simp only: ins.simps if_False)
    show ?thesis
      unfolding ins_ok_def res by (rule splice_correct [OF n TNode.prems False])
  next
    case True
    have bs: "length bs = n" "c \<le> 8 * n" using TNode.prems by auto
    have key: "pkey bs c = pkey ip c"
      using True n bs by (simp add: common_ge_iff pkey_def)
    show ?thesis
    proof (cases "c = cidr")
      case eq: True
      have res: "ins ip cidr peer ?t = TNode (Some peer) bs c l r" using True eq by simp
      have "bindings (TNode (Some peer) bs c l r) = (bindings ?t)(?k \<mapsto> peer)"
        using key eq by (simp add: fun_eq_iff)
      then show ?thesis
        using TNode.prems unfolding ins_ok_def res by simp
    next
      case False
      let ?b = "choose_bit c ip"
      have br: "prefix (pkey bs c @ [?b]) ?k"
        using pkey_branch [of c cidr ip] True False n key by simp
      let ?s = "if ?b then r else l"
      have "trie_inv n ?s" using TNode.prems by simp
      then have "ins_ok n ip cidr peer ?s" using TNode.IH by (cases ?b) simp_all
      then have IH: "trie_inv n (ins ip cidr peer ?s)"
        "bindings (ins ip cidr peer ?s) = (bindings ?s)(?k \<mapsto> peer)"
        "\<And>q. prefix q ?k \<Longrightarrow> \<forall>k \<in> keys ?s. prefix q k \<Longrightarrow> \<forall>k \<in> keys (ins ip cidr peer ?s). prefix q k"
        "ins ip cidr peer ?s \<noteq> TNil"
        unfolding ins_ok_def by blast+
      have res: "ins ip cidr peer ?t = set_child ?b (ins ip cidr peer ?s) ?t"
        using True False by simp
      have below: "\<forall>k \<in> keys ?s. prefix (pkey bs c @ [?b]) k" using TNode.prems by auto
      note upd = set_child_correct [OF TNode.prems IH(1) IH(3) [OF br below] disjI2 [OF IH(4)]]
      have bnd: "bindings (ins ip cidr peer ?t) k = ((bindings ?t)(?k \<mapsto> peer)) k" for k
      proof (cases "prefix (pkey bs c @ [?b]) k")
        case True
        then show ?thesis
          by (simp add: res upd(2) IH(2) bindings_node(2) [OF TNode.prems True]
                del: ins.simps bindings.simps set_child.simps)
      next
        case False
        with br have "k \<noteq> ?k" by blast
        with False show ?thesis
          by (simp add: res upd(2) del: ins.simps bindings.simps set_child.simps)
      qed
      have inv': "trie_inv n (ins ip cidr peer ?t)"
        unfolding res by (rule upd(1))
      have kp: "prefix q k" if "prefix q ?k" "\<forall>k \<in> keys ?t. prefix q k" "k \<in> keys (ins ip cidr peer ?t)" for q k
      proof -
        have "\<forall>k \<in> keys ?s. prefix q k" using that(2) by simp
        from IH(3) [OF that(1) this] keys_set_child that(2,3) show ?thesis unfolding res by blast
      qed
      have "ins ip cidr peer ?t \<noteq> TNil" unfolding res by (cases ?b) auto
      moreover have "bindings (ins ip cidr peer ?t) = (bindings ?t)(?k \<mapsto> peer)"
        by (rule ext) (rule bnd)
      ultimately show ?thesis using inv' kp unfolding ins_ok_def by blast
    qed
  qed
qed

section \<open>Placement and removal\<close>

lemma nodePlacement_exact:
  assumes n: "ip_size n" "length ip = n" "cidr \<le> 8 * n" and inv: "trie_inv n t"
    and "nodePlacement t ip cidr = (Some path, True)"
  shows "\<exists>p bs l r. slot_get path t = TNode p bs cidr l r \<and> pkey bs cidr = pkey ip cidr \<and>
    length bs = n \<and> maskSelf cidr bs = bs \<and> bindings t (pkey ip cidr) = p"
  using inv assms(5)
proof (induction t arbitrary: path)
  case (TNode p bs c l r)
  have bs: "length bs = n" "c \<le> 8 * n" using TNode.prems(1) by auto
  have ge: "common_ge bs ip c = (pkey bs c = pkey ip c)"
    using n bs by (simp add: common_ge_iff pkey_def)
  from TNode.prems(2) have c: "c \<le> cidr" "pkey bs c = pkey ip c"
    by (auto simp: ge split: if_splits)
  show ?case
  proof (cases "c = cidr")
    case True
    then have "path = []" using TNode.prems(2) c ge by (auto split: if_splits)
    with True TNode.prems(1) c bs show ?thesis by auto
  next
    case False
    let ?b = "choose_bit c ip"
    let ?s = "if ?b then r else l"
    from TNode.prems(2) False c obtain q where q: "path = ?b # q" "nodePlacement ?s ip cidr = (Some q, True)"
      by (auto simp: ge Let_def split: prod.splits option.splits)
    have "trie_inv n ?s" using TNode.prems(1) by simp
    with q(2) TNode.IH obtain p' bs' l' r' where *: "slot_get q ?s = TNode p' bs' cidr l' r'"
      "pkey bs' cidr = pkey ip cidr" "length bs' = n" "maskSelf cidr bs' = bs'"
      "bindings ?s (pkey ip cidr) = p'"
      by (cases ?b) (metis (full_types))+
    have "prefix (pkey bs c @ [?b]) (pkey ip cidr)"
      using pkey_branch [of c cidr ip] False c n by simp
    from bindings_node(2) [OF TNode.prems(1) this] * q(1) show ?thesis by auto
  qed
qed simp

lemma nodePlacement_not_exact:
  assumes n: "ip_size n" "length ip = n" "cidr \<le> 8 * n" and inv: "trie_inv n t"
    and "\<not> snd (nodePlacement t ip cidr)"
  shows "pkey ip cidr \<notin> keys t"
  using inv assms(5)
proof (induction t)
  case (TNode p bs c l r)
  have bs: "length bs = n" "c \<le> 8 * n" using TNode.prems(1) by auto
  have ge: "common_ge bs ip c = (pkey bs c = pkey ip c)"
    using n bs by (simp add: common_ge_iff pkey_def)
  have len: "length (pkey bs c) = c" "length (pkey ip cidr) = cidr"
    using bs n by (simp_all add: length_pkey)
  show ?case
  proof
    assume k: "pkey ip cidr \<in> keys (TNode p bs c l r)"
    from keys_prefix_root [OF TNode.prems(1) this] have pre: "prefix (pkey bs c) (pkey ip cidr)" .
    then have c: "c \<le> cidr" using prefix_length_le len by fastforce
    have "pkey bs c = pkey ip c"
      using pre pkey_mono [OF c, of ip] prefix_same_cases len bs n length_pkey [of c ip]
      by (metis prefix_length_prefix le_refl prefix_order.antisym)
    moreover have "c \<noteq> cidr" using TNode.prems(2) c calculation by (auto simp: ge)
    ultimately have br: "prefix (pkey bs c @ [choose_bit c ip]) (pkey ip cidr)"
      using pkey_branch [of c cidr ip] c n by simp
    let ?s = "if choose_bit c ip then r else l"
    have "pkey ip cidr \<notin> keys (if choose_bit c ip then l else r)"
      using TNode.prems(1) prefix_disj [OF br] by (auto split: if_splits)
    moreover have "pkey ip cidr \<noteq> pkey bs c" using br by (auto dest: prefix_length_le)
    ultimately have "pkey ip cidr \<in> keys ?s" using k by (auto split: if_splits)
    moreover have "\<not> snd (nodePlacement ?s ip cidr)"
      using TNode.prems(2) c \<open>pkey bs c = pkey ip c\<close> \<open>c \<noteq> cidr\<close> nodePlacement_None
      by (auto simp: ge Let_def split: prod.splits option.splits if_splits)
    ultimately show False
      using TNode.IH TNode.prems(1) by (auto split: if_splits)
  qed
qed simp

fun del :: "bool list \<Rightarrow> trieEntry \<Rightarrow> trieEntry" where
  "del [] t =
     (if te_child False t \<noteq> TNil \<and> te_child True t \<noteq> TNil then set_peer None t
      else te_child (te_child False t = TNil) t)"
| "del (b # path) t =
     (let s = del path (te_child b t)
      in if path = [] \<and> s = TNil \<and> te_peer t = None then te_child (\<not> b) t else set_child b s t)"

lemma te_child_set_child: "t \<noteq> TNil \<Longrightarrow> te_child b (set_child b s t) = s"
  by (cases t) auto

lemma te_child_set_other: "te_child (\<not> b) (set_child b s t) = te_child (\<not> b) t"
  by (cases t) auto

lemma te_peer_set_child: "te_peer (set_child b s t) = te_peer t"
  by (cases t) auto

lemma set_child_twice: "set_child b x (set_child b s t) = set_child b x t"
  by (cases t) auto

lemma slot_get_TNil: "slot_get path TNil = TNil"
  by (induction path) auto

lemma trie_remove_down:
  assumes "slot_get (b # b' # path) t \<noteq> TNil"
  shows "trie_remove (b # b' # path) t = set_child b (trie_remove (b' # path) (te_child b t)) t"
proof -
  have t: "t \<noteq> TNil" using assms by (auto simp: slot_get_TNil)
  show ?thesis
    by (simp add: trie_remove_def Let_def te_child_set_child [OF t] set_child_twice)
qed

lemma trie_remove_del: "slot_get path t \<noteq> TNil \<Longrightarrow> trie_remove path t = del path t"
proof (induction path arbitrary: t rule: induct_list012)
  case 1
  then show ?case by (cases t) (auto simp: trie_remove_def Let_def)
next
  case (2 b)
  then have t: "t \<noteq> TNil" "te_child b t \<noteq> TNil" by (auto simp: slot_get_TNil)
  then show ?case
    by (cases "te_child b t")
       (auto simp: trie_remove_def Let_def te_peer_set_child te_child_set_other)
next
  case (3 b b' path)
  then have "te_child b t \<noteq> TNil" by (auto simp: slot_get_TNil)
  with 3 show ?case by (simp add: trie_remove_down Let_def)
qed

lemma del_nonempty:
  assumes "trie_inv n t" "slot_get path t \<noteq> TNil" "path \<noteq> []"
  shows "del path t \<noteq> TNil"
  using assms by (cases path; cases t) (auto simp: Let_def slot_get_TNil split: if_splits)

lemma bindings_leaf: "bindings (TNode p bs c TNil TNil) k = (if k = pkey bs c then p else None)"
  by simp

lemma del_correct:
  assumes "trie_inv n t" "slot_get path t = TNode p bs c l r"
  shows "trie_inv n (del path t) \<and> bindings (del path t) = (bindings t)(pkey bs c := None) \<and>
    keys (del path t) \<subseteq> keys t \<and> pkey bs c \<in> keys t"
  using assms
proof (induction path arbitrary: t)
  case Nil
  then have t: "t = TNode p bs c l r" by simp
  have nk: "pkey bs c \<notin> keys l" "pkey bs c \<notin> keys r"
    using Nil.prems(1) unfolding t by (auto dest!: bspec prefix_length_le)
  have "bindings (del [] t) k = ((bindings t)(pkey bs c := None)) k" for k
    unfolding t using nk by (auto simp: bindings_None split: option.splits)
  then have "bindings (del [] t) = (bindings t)(pkey bs c := None)" by (rule ext)
  then show ?case
    using Nil.prems(1) unfolding t by auto
next
  case (Cons b path)
  then obtain p0 bs0 c0 l0 r0 where t: "t = TNode p0 bs0 c0 l0 r0"
    by (cases t) (auto simp: slot_get_TNil)
  let ?s = "te_child b t"
  have s: "trie_inv n ?s" "slot_get path ?s = TNode p bs c l r"
    using Cons.prems unfolding t by auto
  note IH = Cons.IH [OF s]
  have below: "prefix (pkey bs0 c0 @ [b]) k" if "k \<in> keys ?s" for k
    using Cons.prems(1) that unfolding t by (auto split: if_splits)
  have pk: "prefix (pkey bs0 c0 @ [b]) (pkey bs c)" using IH below by blast
  have tb: "bindings t k = bindings ?s k" if "prefix (pkey bs0 c0 @ [b]) k" for k
    using bindings_node(2) [OF Cons.prems(1) [unfolded t] that] unfolding t by auto
  show ?case
  proof (cases "path = [] \<and> del path ?s = TNil \<and> te_peer t = None")
    case True
    then have s_leaf: "?s = TNode p bs c TNil TNil"
      using s(2) by (auto split: if_splits)
    have res: "del (b # path) t = te_child (\<not> b) t"
      unfolding del.simps(2) Let_def using True by (rule if_P)
    have nk: "pkey bs0 c0 \<notin> keys (te_child (\<not> b) t)" "pkey bs c \<notin> keys (te_child (\<not> b) t)"
      using Cons.prems(1) prefix_disj [OF pk] unfolding t
      by (auto dest!: bspec dest: prefix_length_le split: if_splits)
    have p0: "p0 = None" using True t by simp
    have "bindings (te_child (\<not> b) t) k = ((bindings t)(pkey bs c := None)) k" for k
    proof (cases "k = pkey bs c")
      case True
      then show ?thesis using nk(2) by (simp add: bindings_None)
    next
      case False
      then have "bindings ?s k = None" unfolding s_leaf by simp
      with False nk(1) p0 show ?thesis
        unfolding t by (cases b) (auto simp: bindings_None split: option.splits)
    qed
    then have "bindings (te_child (\<not> b) t) = (bindings t)(pkey bs c := None)" by (rule ext)
    then show ?thesis
      unfolding res using Cons.prems(1) IH unfolding t by (cases b) auto
  next
    case False
    have res: "del (b # path) t = set_child b (del path ?s) t"
      unfolding del.simps(2) Let_def using False by (rule if_not_P)
    have ne: "p0 \<noteq> None \<or> del path ?s \<noteq> TNil"
      using False del_nonempty [OF s(1)] s(2) unfolding t by fastforce
    have inv': "trie_inv n (del path ?s)" and sub: "keys (del path ?s) \<subseteq> keys ?s" using IH by blast+
    have below': "\<forall>k \<in> keys (del path ?s). prefix (pkey bs0 c0 @ [b]) k"
      using below sub by blast
    note upd = set_child_correct [OF Cons.prems(1) [unfolded t] inv' below' ne, folded t]
    have "bindings (del (b # path) t) k = ((bindings t)(pkey bs c := None)) k" for k
      using IH tb [of k] pk unfolding res upd(2) by simp
    then have "bindings (del (b # path) t) = (bindings t)(pkey bs c := None)" by (rule ext)
    moreover have "trie_inv n (del (b # path) t)"
      unfolding res by (rule upd(1))
    moreover have "keys ?s \<subseteq> keys t" unfolding t by auto
    ultimately show ?thesis
      using keys_set_child sub IH unfolding res by blast
  qed
qed

section \<open>The table as a map from prefixes to peers\<close>

type_synonym routes = "nat \<times> bool list \<Rightarrow> Peer option"

definition routes_of :: "AllowedIPs \<Rightarrow> routes" where
  "routes_of t nk =
     (if fst nk = 16 then bindings (IPv6 t) (snd nk)
      else if fst nk = 4 then bindings (IPv4 t) (snd nk) else None)"

definition wf_entry :: "entry \<Rightarrow> bool" where
  "wf_entry e \<longleftrightarrow> ip_size (length (fst e)) \<and> snd e \<le> 8 * length (fst e) \<and> maskSelf (snd e) (fst e) = fst e"

definition entry_key :: "entry \<Rightarrow> nat \<times> bool list" where
  "entry_key e = (length (fst e), pkey (fst e) (snd e))"

definition owned :: "routes \<Rightarrow> Peer \<Rightarrow> entry set" where
  "owned R peer = {e. wf_entry e \<and> R (entry_key e) = Some peer}"

definition table_inv :: "AllowedIPs \<Rightarrow> bool" where
  "table_inv t \<longleftrightarrow> trie_inv 4 (IPv4 t) \<and> trie_inv 16 (IPv6 t) \<and>
     (\<forall>peer. distinct (trieEntries t peer) \<and> set (trieEntries t peer) = owned (routes_of t) peer)"

lemma entry_key_inj: "wf_entry e \<Longrightarrow> wf_entry e' \<Longrightarrow> entry_key e = entry_key e' \<Longrightarrow> e = e'"
proof -
  assume e: "wf_entry e" "wf_entry e'" and eq: "entry_key e = entry_key e'"
  then have len: "length (fst e) = length (fst e')" and key: "pkey (fst e) (snd e) = pkey (fst e') (snd e')"
    by (simp_all add: entry_key_def)
  have "snd e \<le> 8 * length (fst e)" "snd e' \<le> 8 * length (fst e')"
    using e unfolding wf_entry_def by blast+
  from length_pkey [OF this(1)] length_pkey [OF this(2)] have "snd e = snd e'" by (simp only: key)
  moreover from this have "fst e = fst e'"
    using e key by (intro masked_eq [OF _ _ len, of "snd e"]) (auto simp only: wf_entry_def)
  ultimately show "e = e'" by (simp add: prod_eq_iff)
qed

lemma wf_entry_mask:
  "ip_size (length ip) \<Longrightarrow> c \<le> 8 * length ip \<Longrightarrow>
    wf_entry (maskSelf c ip, c) \<and> entry_key (maskSelf c ip, c) = (length ip, pkey ip c)"
  by (auto simp: wf_entry_def entry_key_def maskSelf_idem pkey_maskSelf)

lemma owned_upd:
  assumes "wf_entry e"
  shows "owned (R(entry_key e := v)) q = (if v = Some q then insert e (owned R q) else owned R q - {e})"
  using assms entry_key_inj [of _ e] by (auto simp: owned_def)

lemma routes_of_table_trie:
  "ip_size (length ip) \<Longrightarrow> routes_of t (length ip, k) = bindings (table_trie ip t) k"
  by (auto simp: routes_of_def table_trie_def)

lemma routes_of_set:
  assumes "ip_size (length ip)" "bindings n = (bindings (table_trie ip t))(k := v)"
  shows "routes_of (set_table_trie ip n t) = (routes_of t)((length ip, k) := v)"
  using assms by (auto simp: routes_of_def set_table_trie_def table_trie_def fun_eq_iff)

lemma table_trie_inv: "table_inv t \<Longrightarrow> ip_size (length ip) \<Longrightarrow> trie_inv (length ip) (table_trie ip t)"
  by (auto simp: table_inv_def table_trie_def)

text \<open>Per-peer lists after the owner of one prefix changed.\<close>

lemma lists_upd:
  assumes "\<forall>q. distinct (trieEntries t q) \<and> set (trieEntries t q) = owned R q"
    and "wf_entry e" "R (entry_key e) = old"
  shows "\<forall>q. distinct (trieEntries (removeFromPeerEntries old e t) q) \<and>
      set (trieEntries (removeFromPeerEntries old e t) q) = owned (R(entry_key e := None)) q"
    and "\<forall>q. distinct (trieEntries (addToPeerEntries peer e (removeFromPeerEntries old e t)) q) \<and>
      set (trieEntries (addToPeerEntries peer e (removeFromPeerEntries old e t)) q) =
        owned (R(entry_key e \<mapsto> peer)) q"
proof -
  have e: "e \<in> owned R q \<longleftrightarrow> old = Some q" for q
    using assms(2,3) by (simp add: owned_def)
  show *: "\<forall>q. distinct (trieEntries (removeFromPeerEntries old e t) q) \<and>
      set (trieEntries (removeFromPeerEntries old e t) q) = owned (R(entry_key e := None)) q"
    using assms(1) e by (auto simp: removeFromPeerEntries_def owned_upd [OF assms(2)] split: option.splits)
  show "\<forall>q. distinct (trieEntries (addToPeerEntries peer e (removeFromPeerEntries old e t)) q) \<and>
      set (trieEntries (addToPeerEntries peer e (removeFromPeerEntries old e t)) q) =
        owned (R(entry_key e \<mapsto> peer)) q"
    using * by (auto simp: addToPeerEntries_def owned_upd [OF assms(2)])
qed

lemma lists_of_set: "trieEntries (set_table_trie ip n t) = trieEntries t"
  by (simp add: set_table_trie_def)

lemma tries_of_lists [simp]:
  "IPv4 (addToPeerEntries p e t) = IPv4 t" "IPv6 (addToPeerEntries p e t) = IPv6 t"
  "IPv4 (removeFromPeerEntries q e t) = IPv4 t" "IPv6 (removeFromPeerEntries q e t) = IPv6 t"
  by (auto simp: addToPeerEntries_def removeFromPeerEntries_def split: option.splits)

lemma routes_of_lists [simp]:
  "routes_of (addToPeerEntries p e t) = routes_of t"
  "routes_of (removeFromPeerEntries q e t) = routes_of t"
  "table_trie ip (addToPeerEntries p e t) = table_trie ip t"
  "table_trie ip (removeFromPeerEntries q e t) = table_trie ip t"
  by (simp_all add: routes_of_def table_trie_def fun_eq_iff)

lemma table_invI:
  assumes "table_inv t" "ip_size (length ip)" "trie_inv (length ip) n"
    and "IPv4 t' = IPv4 t" "IPv6 t' = IPv6 t"
    and "bindings n = (bindings (table_trie ip t))(k := v)"
    and "\<forall>q. distinct (trieEntries t' q) \<and> set (trieEntries t' q) = owned ((routes_of t)((length ip, k) := v)) q"
  shows "table_inv (set_table_trie ip n t') \<and> routes_of (set_table_trie ip n t') = (routes_of t)((length ip, k) := v)"
proof -
  have R: "routes_of t' = routes_of t" "table_trie ip t' = table_trie ip t"
    using assms(4,5) by (simp_all add: routes_of_def table_trie_def fun_eq_iff)
  then have routes: "routes_of (set_table_trie ip n t') = (routes_of t)((length ip, k) := v)"
    using routes_of_set [OF assms(2), of n t' k v] assms(6) by simp
  have "trie_inv 4 (IPv4 (set_table_trie ip n t'))" "trie_inv 16 (IPv6 (set_table_trie ip n t'))"
    using assms(1-5) by (auto simp: set_table_trie_def table_inv_def)
  then show ?thesis
    using assms(7) unfolding table_inv_def routes lists_of_set by blast
qed

lemma removeFrom_None [simp]: "removeFromPeerEntries None e t = t"
  by (simp add: removeFromPeerEntries_def)

lemma insert_bytes_correct:
  assumes t: "table_inv t" and ip: "ip_size (length ip)" "c \<le> 8 * length ip"
  shows "table_inv (insert_bytes ip c peer t) \<and>
    routes_of (insert_bytes ip c peer t) = (routes_of t)((length ip, pkey ip c) \<mapsto> peer)"
proof -
  let ?root = "table_trie ip t" and ?e = "(maskSelf c ip, c)"
  have inv: "trie_inv (length ip) ?root" by (rule table_trie_inv [OF t ip(1)])
  have e: "wf_entry ?e" "entry_key ?e = (length ip, pkey ip c)" using wf_entry_mask [OF ip] by auto
  have lists: "\<forall>q. distinct (trieEntries t q) \<and> set (trieEntries t q) = owned (routes_of t) q"
    using t by (simp add: table_inv_def)
  have old: "(case nodePlacement ?root ip c of
                (Some path, True) \<Rightarrow> removeFromPeerEntries (te_peer (slot_get path ?root)) ?e t
              | _ \<Rightarrow> t) = removeFromPeerEntries (routes_of t (entry_key ?e)) ?e t"
  proof (cases "snd (nodePlacement ?root ip c)")
    case True
    then obtain path where np: "nodePlacement ?root ip c = (Some path, True)"
      using nodePlacement_None by (cases "nodePlacement ?root ip c") (metis option.exhaust snd_conv)
    from nodePlacement_exact [OF ip(1) refl ip(2) inv np] np show ?thesis
      using routes_of_table_trie [OF ip(1)] e(2) by auto
  next
    case False
    from nodePlacement_not_exact [OF ip(1) refl ip(2) inv False]
    have "routes_of t (entry_key ?e) = None"
      using routes_of_table_trie [OF ip(1)] e(2) by (simp add: bindings_None)
    with False show ?thesis by (auto split: prod.splits option.splits bool.splits)
  qed
  have "ins_ok (length ip) ip c peer ?root" by (rule ins_correct [OF ip(1) refl ip(2) inv])
  then have ins: "trie_inv (length ip) (trie_insert ip c peer ?root)"
    "bindings (trie_insert ip c peer ?root) = (bindings ?root)(pkey ip c \<mapsto> peer)"
    using trie_insert_ins [OF ip(2)] by (simp_all add: ins_ok_def)
  have "insert_bytes ip c peer t = set_table_trie ip (trie_insert ip c peer ?root)
      (addToPeerEntries peer ?e (removeFromPeerEntries (routes_of t (entry_key ?e)) ?e t))"
    unfolding insert_bytes_def Let_def old ..
  then show ?thesis
    using table_invI [OF t ip(1) ins(1) _ _ ins(2),
        of "addToPeerEntries peer ?e (removeFromPeerEntries (routes_of t (entry_key ?e)) ?e t)"]
      lists_upd(2) [OF lists e(1) refl, of peer] e(2)
    by simp
qed

lemma remove_node_correct:
  assumes t: "table_inv t" and ip: "ip_size (length ip)" "c \<le> 8 * length ip"
    and np: "nodePlacement (table_trie ip t) ip c = (Some path, True)"
  shows "table_inv (remove_node ip path t) \<and>
    routes_of (remove_node ip path t) = (routes_of t)((length ip, pkey ip c) := None)"
proof -
  let ?root = "table_trie ip t"
  have inv: "trie_inv (length ip) ?root" by (rule table_trie_inv [OF t ip(1)])
  from nodePlacement_exact [OF ip(1) refl ip(2) inv np] obtain p bs l r where
    node: "slot_get path ?root = TNode p bs c l r" "pkey bs c = pkey ip c" "length bs = length ip"
      "maskSelf c bs = bs" "bindings ?root (pkey ip c) = p" by blast
  have e: "wf_entry (bs, c)" "entry_key (bs, c) = (length ip, pkey ip c)"
    "routes_of t (entry_key (bs, c)) = p"
    using node ip routes_of_table_trie [OF ip(1)] by (auto simp: wf_entry_def entry_key_def)
  have lists: "\<forall>q. distinct (trieEntries t q) \<and> set (trieEntries t q) = owned (routes_of t) q"
    using t by (simp add: table_inv_def)
  have del: "trie_inv (length ip) (trie_remove path ?root)"
    "bindings (trie_remove path ?root) = (bindings ?root)(pkey ip c := None)"
    using del_correct [OF inv node(1)] trie_remove_del [of path ?root] node(1,2) by auto
  have "remove_node ip path t = set_table_trie ip (trie_remove path ?root) (removeFromPeerEntries p (bs, c) t)"
    by (simp add: remove_node_def node(1) Let_def)
  then show ?thesis
    using table_invI [OF t ip(1) del(1) _ _ del(2), of "removeFromPeerEntries p (bs, c) t"]
      lists_upd(1) [OF lists e(1,3)] e(2)
    by simp
qed

lemma wf_entry_bytes: "wf_entry e \<Longrightarrow> ip_size (length (fst e)) \<and> snd e \<le> 8 * length (fst e)"
  by (simp add: wf_entry_def)

lemma remove_entry_correct:
  assumes t: "table_inv t" and e: "wf_entry e"
  shows "table_inv (remove_entry e t) \<and> routes_of (remove_entry e t) = (routes_of t)(entry_key e := None)"
proof -
  have ip: "ip_size (length (fst e))" "snd e \<le> 8 * length (fst e)" using wf_entry_bytes [OF e] by auto
  obtain q x where np: "nodePlacement (table_trie (fst e) t) (fst e) (snd e) = (q, x)" by force
  show ?thesis
  proof (cases x)
    case True
    then obtain path where "q = Some path" using np nodePlacement_None by (metis option.exhaust)
    with True np remove_node_correct [OF t ip, of path] show ?thesis
      by (simp add: remove_entry_def entry_key_def)
  next
    case False
    with np have "pkey (fst e) (snd e) \<notin> keys (table_trie (fst e) t)"
      by (intro nodePlacement_not_exact [OF ip(1) refl ip(2) table_trie_inv [OF t ip(1)]]) simp
    then have "routes_of t (entry_key e) = None"
      using routes_of_table_trie [OF ip(1)] by (simp add: entry_key_def bindings_None)
    moreover have "remove_entry e t = t"
      using np False by (auto simp: remove_entry_def split: option.splits)
    ultimately show ?thesis using t by (simp add: fun_upd_idem)
  qed
qed

lemma remove_entries_correct:
  assumes "table_inv t" "\<forall>e \<in> set es. wf_entry e"
  shows "table_inv (fold remove_entry es t) \<and>
    routes_of (fold remove_entry es t) = (\<lambda>k. if k \<in> entry_key ` set es then None else routes_of t k)"
  using assms
proof (induction es arbitrary: t)
  case (Cons e es)
  then have step: "table_inv (remove_entry e t)"
    "routes_of (remove_entry e t) = (routes_of t)(entry_key e := None)"
    using remove_entry_correct by auto
  from Cons.IH [OF step(1)] Cons.prems(2) step(2) show ?case by auto
qed simp

lemma key_entry:
  "trie_inv n t \<Longrightarrow> k \<in> keys t \<Longrightarrow> \<exists>bs c. length bs = n \<and> c \<le> 8 * n \<and> maskSelf c bs = bs \<and> pkey bs c = k"
  by (induction t) auto

lemma route_entry:
  assumes "table_inv t" "routes_of t k = Some peer"
  shows "\<exists>e \<in> owned (routes_of t) peer. entry_key e = k"
proof -
  obtain n x where k: "k = (n, x)" by force
  with assms(2) have n: "ip_size n" by (auto simp: routes_of_def split: if_splits)
  define tr where "tr = (if n = 16 then IPv6 t else IPv4 t)"
  have "trie_inv n tr" "x \<in> keys tr"
    using assms n k bindings_keys [of _ x] by (auto simp: tr_def table_inv_def routes_of_def split: if_splits)
  from key_entry [OF this] obtain bs c where
    "length bs = n" "c \<le> 8 * n" "maskSelf c bs = bs" "pkey bs c = x" by blast
  then have "wf_entry (bs, c)" "entry_key (bs, c) = k"
    using n k by (simp_all add: wf_entry_def entry_key_def)
  with assms(2) show ?thesis unfolding owned_def by force
qed

lemma RemoveByPeer_correct:
  assumes t: "table_inv t"
  shows "table_inv (RemoveByPeer peer t) \<and>
    routes_of (RemoveByPeer peer t) = (\<lambda>k. if routes_of t k = Some peer then None else routes_of t k)"
proof -
  have set: "set (trieEntries t peer) = owned (routes_of t) peer" using t by (simp add: table_inv_def)
  have "k \<in> entry_key ` owned (routes_of t) peer \<longleftrightarrow> routes_of t k = Some peer" for k
    using route_entry [OF t, of k peer] by (auto simp: owned_def)
  then show ?thesis
    using remove_entries_correct [OF t, of "trieEntries t peer"] set
    by (auto simp: RemoveByPeer_def owned_def fun_eq_iff)
qed

section \<open>The interface of the routing table\<close>

definition valid_prefix :: "Prefix \<Rightarrow> bool" where
  "valid_prefix p \<longleftrightarrow> addr_IsValid (pfx_Addr p) \<and> pfx_Bits p \<le> addr_BitLen (pfx_Addr p)"

text \<open>The key of a prefix: family and masked bits.\<close>

definition prefix_key :: "Prefix \<Rightarrow> nat \<times> bool list" where
  "prefix_key p = (case prefix_bytes p of None \<Rightarrow> (0, []) | Some ip \<Rightarrow> (length ip, pkey ip (pfx_Bits p)))"

lemma valid_prefix_bytes:
  assumes "valid_prefix p"
  obtains ip where "prefix_bytes p = Some ip" "ip_size (length ip)" "pfx_Bits p \<le> 8 * length ip"
    "prefix_key p = (length ip, pkey ip (pfx_Bits p))"
  using assms by (cases "pfx_Addr p") (auto simp: valid_prefix_def prefix_bytes_def prefix_key_def)

locale prefix_table =
  fixes inv :: "'t \<Rightarrow> bool" and abs :: "'t \<Rightarrow> routes"
    and insert_p remove_p :: "Prefix \<Rightarrow> Peer \<Rightarrow> 't \<Rightarrow> 't option"
    and remove_peer :: "Peer \<Rightarrow> 't \<Rightarrow> 't" and lookup_p :: "byte list \<Rightarrow> 't \<Rightarrow> Peer option option"
  assumes insert_law: "inv t \<Longrightarrow> valid_prefix p \<Longrightarrow>
      \<exists>t'. insert_p p peer t = Some t' \<and> inv t' \<and> abs t' = (abs t)(prefix_key p \<mapsto> peer)"
    and remove_law: "inv t \<Longrightarrow> valid_prefix p \<Longrightarrow>
      \<exists>t'. remove_p p peer t = Some t' \<and> inv t' \<and>
        abs t' = (if abs t (prefix_key p) = Some peer then (abs t)(prefix_key p := None) else abs t)"
    and remove_peer_law: "inv t \<Longrightarrow> inv (remove_peer peer t) \<and>
      abs (remove_peer peer t) = (\<lambda>k. if abs t k = Some peer then None else abs t k)"
    and lookup_law: "inv t \<Longrightarrow> ip_size (length ip) \<Longrightarrow>
      lookup_p ip t = Some (lpm (\<lambda>k. abs t (length ip, k)) (bits_of ip))"
begin

text \<open>An address outside an inserted prefix keeps its route.\<close>

lemma insert_elsewhere:
  assumes "inv t" "valid_prefix p" "insert_p p peer t = Some t'" "ip_size (length ip)"
    and "fst (prefix_key p) \<noteq> length ip \<or> \<not> prefix (snd (prefix_key p)) (bits_of ip)"
  shows "lookup_p ip t' = lookup_p ip t"
proof -
  obtain t'' where t': "insert_p p peer t = Some t''" "inv t''" "abs t'' = (abs t)(prefix_key p \<mapsto> peer)"
    using insert_law [OF assms(1,2)] by blast
  have "lpm_from (\<lambda>k. abs t'' (length ip, k)) (bits_of ip) 0 None =
      lpm_from (\<lambda>k. abs t (length ip, k)) (bits_of ip) 0 None"
  proof (rule lpm_from_cong)
    fix n
    have "(length ip, take n (bits_of ip)) \<noteq> prefix_key p"
      using assms(5) take_is_prefix by (metis fst_conv snd_conv)
    then show "abs t'' (length ip, take n (bits_of ip)) = abs t (length ip, take n (bits_of ip))"
      by (simp add: t'(3))
  qed
  then show ?thesis
    using t' assms(1,3,4) by (simp add: lookup_law lpm_def)
qed

text \<open>An address inside it goes to its peer unless a longer prefix covers the address.\<close>

lemma insert_covered:
  assumes "inv t" "valid_prefix p" "insert_p p peer t = Some t'" "ip_size (length ip)"
    and "prefix_key p = (length ip, k)" "prefix k (bits_of ip)"
    and "\<And>k'. prefix k' (bits_of ip) \<Longrightarrow> length k < length k' \<Longrightarrow> abs t (length ip, k') = None"
  shows "lookup_p ip t' = Some (Some peer)"
proof -
  obtain t'' where t': "insert_p p peer t = Some t''" "inv t''" "abs t'' = (abs t)(prefix_key p \<mapsto> peer)"
    using insert_law [OF assms(1,2)] by blast
  have "lpm (\<lambda>k. abs t'' (length ip, k)) (bits_of ip) = Some peer"
    by (rule lpm_some [OF assms(6)]) (use assms(5,7) t'(3) in auto)
  then show ?thesis
    using t' assms(3,4) by (simp add: lookup_law)
qed

text \<open>A removed peer is never returned.\<close>

lemma removed_peer_gone:
  assumes "inv t" "ip_size (length ip)"
  shows "lookup_p ip (remove_peer peer t) \<noteq> Some (Some peer)"
proof -
  have "lpm_from m x j f \<noteq> Some peer" if "f \<noteq> Some peer" "\<And>k. m k \<noteq> Some peer" for m x j f
    unfolding lpm_from_def using that
    by (intro fold_invariant [where P = "\<lambda>a. a \<noteq> Some peer" and Q = "\<lambda>_. True"]) (auto split: option.splits)
  then show ?thesis
    using remove_peer_law [OF assms(1), of peer] assms(2) by (simp add: lookup_law lpm_def)
qed

end

lemma Insert_law:
  assumes "table_inv t" "valid_prefix p"
  shows "\<exists>t'. Insert p peer t = Some t' \<and> table_inv t' \<and> routes_of t' = (routes_of t)(prefix_key p \<mapsto> peer)"
proof -
  obtain ip where ip: "prefix_bytes p = Some ip" "ip_size (length ip)" "pfx_Bits p \<le> 8 * length ip"
    and key: "prefix_key p = (length ip, pkey ip (pfx_Bits p))"
    using valid_prefix_bytes [OF assms(2)] by blast
  then show ?thesis
    using insert_bytes_correct [OF assms(1) ip(2,3), of peer] by (simp add: Insert_def)
qed

lemma Remove_law:
  assumes "table_inv t" "valid_prefix p"
  shows "\<exists>t'. Remove p peer t = Some t' \<and> table_inv t' \<and> routes_of t' =
    (if routes_of t (prefix_key p) = Some peer then (routes_of t)(prefix_key p := None) else routes_of t)"
proof -
  obtain ip where ip: "prefix_bytes p = Some ip" "ip_size (length ip)" "pfx_Bits p \<le> 8 * length ip"
    and key: "prefix_key p = (length ip, pkey ip (pfx_Bits p))"
    using valid_prefix_bytes [OF assms(2)] by blast
  let ?root = "table_trie ip t" and ?c = "pfx_Bits p"
  have inv: "trie_inv (length ip) ?root" by (rule table_trie_inv [OF assms(1) ip(2)])
  have R: "routes_of t (prefix_key p) = bindings ?root (pkey ip ?c)"
    using routes_of_table_trie [OF ip(2)] key by simp
  obtain q x where np: "nodePlacement ?root ip ?c = (q, x)" by force
  show ?thesis
  proof (cases x)
    case True
    then obtain path where q: "nodePlacement ?root ip ?c = (Some path, True)"
      using np nodePlacement_None by (metis option.exhaust)
    from nodePlacement_exact [OF ip(2) refl ip(3) inv q]
    have "te_peer (slot_get path ?root) = routes_of t (prefix_key p)" using R by auto
    then show ?thesis
      using remove_node_correct [OF assms(1) ip(2,3) q] assms(1) q ip(1) key
      by (auto simp: Remove_def)
  next
    case False
    with np have "routes_of t (prefix_key p) = None"
      using nodePlacement_not_exact [OF ip(2) refl ip(3) inv] R by (simp add: bindings_None)
    then show ?thesis
      using np False ip(1) assms(1) by (auto simp: Remove_def split: option.splits)
  qed
qed

lemma Lookup_law:
  assumes "table_inv t" "ip_size (length ip)"
  shows "Lookup ip t = Some (lpm (\<lambda>k. routes_of t (length ip, k)) (bits_of ip))"
proof -
  have "trie_lookup (table_trie ip t) ip None = lpm (bindings (table_trie ip t)) (bits_of ip)"
    unfolding lpm_def using assms(2) table_trie_inv [OF assms] by (intro trie_lookup_lpm) auto
  moreover have "bindings (table_trie ip t) = (\<lambda>k. routes_of t (length ip, k))"
    using routes_of_table_trie [OF assms(2)] by simp
  ultimately show ?thesis
    using assms(2) by (auto simp: Lookup_def table_trie_def)
qed

interpretation aip: prefix_table table_inv routes_of Insert Remove RemoveByPeer Lookup
  by unfold_locales (simp_all add: Insert_law Remove_law RemoveByPeer_correct Lookup_law)

section \<open>Histories of the table\<close>

datatype table_op = OpInsert Prefix Peer | OpRemove Prefix Peer | OpRemoveByPeer Peer

fun op_valid :: "table_op \<Rightarrow> bool" where
  "op_valid (OpInsert p peer) = valid_prefix p"
| "op_valid (OpRemove p peer) = valid_prefix p"
| "op_valid (OpRemoveByPeer peer) = True"

fun table_run :: "table_op list \<Rightarrow> AllowedIPs \<Rightarrow> AllowedIPs option" where
  "table_run [] t = Some t"
| "table_run (OpInsert p peer # ops) t = Option.bind (Insert p peer t) (table_run ops)"
| "table_run (OpRemove p peer # ops) t = Option.bind (Remove p peer t) (table_run ops)"
| "table_run (OpRemoveByPeer peer # ops) t = table_run ops (RemoveByPeer peer t)"

text \<open>The abstract table: a map from prefixes to their peers.\<close>

fun routes_run :: "table_op list \<Rightarrow> routes \<Rightarrow> routes" where
  "routes_run [] R = R"
| "routes_run (OpInsert p peer # ops) R = routes_run ops (R(prefix_key p \<mapsto> peer))"
| "routes_run (OpRemove p peer # ops) R =
     routes_run ops (if R (prefix_key p) = Some peer then R(prefix_key p := None) else R)"
| "routes_run (OpRemoveByPeer peer # ops) R =
     routes_run ops (\<lambda>k. if R k = Some peer then None else R k)"

lemma table_run_refines:
  assumes "table_inv t" "list_all op_valid ops"
  shows "\<exists>t'. table_run ops t = Some t' \<and> table_inv t' \<and> routes_of t' = routes_run ops (routes_of t)"
  using assms
proof (induction ops t rule: table_run.induct)
  case (2 p peer ops t)
  then show ?case using aip.insert_law [OF "2.prems"(1), of p peer] by fastforce
next
  case (3 p peer ops t)
  then show ?case using aip.remove_law [OF "3.prems"(1), of p peer] by fastforce
next
  case (4 peer ops t)
  then show ?case using aip.remove_peer_law [OF "4.prems"(1), of peer] by simp
qed simp

lemma table_inv0: "table_inv AllowedIPs0"
  by (auto simp: table_inv_def AllowedIPs0_def owned_def routes_of_def)

lemma routes_of0: "routes_of AllowedIPs0 = (\<lambda>_. None)"
  by (simp add: routes_of_def AllowedIPs0_def fun_eq_iff)

text \<open>
  C4. Cryptokey routing is longest-prefix match: after any history of Insert,
  Remove and RemoveByPeer calls on valid prefixes, none of which panics, Lookup
  of a 4- or 16-byte address returns exactly the peer that the abstract table
  (a map where Insert binds a prefix, Remove unbinds it if that peer still owns
  it, RemoveByPeer unbinds all prefixes of a peer) binds to the longest prefix
  containing the address, and nil if there is none.
\<close>

theorem lookup_is_longest_prefix_match:
  assumes "list_all op_valid ops" "ip_size (length ip)"
  shows "\<exists>t. table_run ops AllowedIPs0 = Some t \<and>
    Lookup ip t = Some (lpm (\<lambda>k. routes_run ops (\<lambda>_. None) (length ip, k)) (bits_of ip))"
  using table_run_refines [OF table_inv0 assms(1)] aip.lookup_law [OF _ assms(2)] routes_of0 by metis

definition sample_ops :: "table_op list" where
  "sample_ops = [OpInsert \<lparr>pfx_Addr = Addr4 0x0A000000, pfx_Bits = 8\<rparr> 1,
     OpInsert \<lparr>pfx_Addr = Addr4 0x0A010000, pfx_Bits = 16\<rparr> 2, OpRemoveByPeer 1]"

theorem lookup_is_longest_prefix_match_witness:
  "list_all op_valid sample_ops \<and> ip_size (length ([10, 1, 2, 3] :: byte list)) \<and>
   (\<exists>t. table_run sample_ops AllowedIPs0 = Some t \<and>
    Lookup [10, 1, 2, 3] t =
      Some (lpm (\<lambda>k. routes_run sample_ops (\<lambda>_. None) (length ([10, 1, 2, 3] :: byte list), k))
            (bits_of [10, 1, 2, 3])))"
  using lookup_is_longest_prefix_match [of sample_ops "[10, 1, 2, 3]"]
  by (simp add: sample_ops_def valid_prefix_def)

text \<open>The prefix a list entry stands for, as EntriesForPeer reports it.\<close>

definition entry_prefix :: "entry \<Rightarrow> Prefix" where
  "entry_prefix e = \<lparr>pfx_Addr = (case AddrFromSlice (fst e) of None \<Rightarrow> AddrZero | Some a \<Rightarrow> a), pfx_Bits = snd e\<rparr>"

lemma entry_prefix_ok:
  assumes "wf_entry e"
  shows "valid_prefix (entry_prefix e) \<and> prefix_bytes (entry_prefix e) = Some (fst e) \<and>
    prefix_key (entry_prefix e) = entry_key e"
proof -
  have "be_put (be_get (fst e) :: 32 word) = fst e" if "length (fst e) = 4"
    using that by simp
  moreover have "be_put (be_get (fst e) :: 128 word) = fst e" if "length (fst e) = 16"
    using that by (intro be_put_get) simp
  ultimately show ?thesis
    using assms by (auto simp: wf_entry_def entry_prefix_def valid_prefix_def prefix_bytes_def
        prefix_key_def entry_key_def AddrFromSlice_def AddrFrom4_def AddrFrom16_def)
qed

text \<open>
  C17. The per-peer lists agree with the tries: after any such history
  EntriesForPeer lists every prefix the peer owns exactly once and nothing else.
\<close>

theorem entries_for_peer_exact:
  assumes "list_all op_valid ops" "table_run ops AllowedIPs0 = Some t"
  shows "distinct (EntriesForPeer peer t) \<and>
    prefix_key ` set (EntriesForPeer peer t) = {k. routes_run ops (\<lambda>_. None) k = Some peer} \<and>
    inj_on prefix_key (set (EntriesForPeer peer t))"
proof -
  have t: "table_inv t" "routes_of t = routes_run ops (\<lambda>_. None)"
    using table_run_refines [OF table_inv0 assms(1)] assms(2) routes_of0 by auto
  have E: "EntriesForPeer peer t = map entry_prefix (trieEntries t peer)"
    by (simp add: EntriesForPeer_def entry_prefix_def case_prod_beta)
  have lists: "distinct (trieEntries t peer)" "set (trieEntries t peer) = owned (routes_of t) peer"
    using t(1) by (simp_all add: table_inv_def)
  then have wf: "wf_entry e" if "e \<in> set (trieEntries t peer)" for e
    using that by (simp add: owned_def)
  have inj: "inj_on (prefix_key \<circ> entry_prefix) (set (trieEntries t peer))"
    using wf entry_prefix_ok entry_key_inj by (auto simp: inj_on_def)
  have "prefix_key ` set (EntriesForPeer peer t) = entry_key ` owned (routes_of t) peer"
    using wf lists(2) entry_prefix_ok unfolding E by (force simp: image_iff)
  also have "\<dots> = {k. routes_of t k = Some peer}"
    using route_entry [OF t(1)] by (force simp: owned_def)
  finally show ?thesis
    using lists(1) inj t(2) unfolding E
    by (auto simp: distinct_map inj_on_imageI2 inj_on_imageI)
qed

theorem entries_for_peer_exact_witness:
  "list_all op_valid [OpInsert \<lparr>pfx_Addr = Addr4 0x0A000000, pfx_Bits = 8\<rparr> 1] \<and>
   (\<exists>t. table_run [OpInsert \<lparr>pfx_Addr = Addr4 0x0A000000, pfx_Bits = 8\<rparr> 1] AllowedIPs0 = Some t \<and>
        distinct (EntriesForPeer 1 t))"
proof -
  let ?ops = "[OpInsert \<lparr>pfx_Addr = Addr4 0x0A000000, pfx_Bits = 8\<rparr> 1]"
  have ok: "list_all op_valid ?ops" by (simp add: valid_prefix_def)
  then obtain t where t: "table_run ?ops AllowedIPs0 = Some t"
    using table_run_refines [OF table_inv0] by blast
  with entries_for_peer_exact [OF ok t] ok show ?thesis by blast
qed

text \<open>
  C18. Locality of updates: inserting a prefix changes no route of an address
  outside it, an address inside it reaches the new peer unless a longer prefix
  of the table covers the address, and a peer removed by RemoveByPeer is never
  returned by Lookup again.
\<close>

theorem insert_and_removal_are_local:
  assumes "table_inv t" "valid_prefix p" "Insert p peer t = Some t'" "ip_size (length ip)"
  shows "(fst (prefix_key p) \<noteq> length ip \<or> \<not> prefix (snd (prefix_key p)) (bits_of ip) \<longrightarrow>
            Lookup ip t' = Lookup ip t) \<and>
    (prefix_key p = (length ip, k) \<and> prefix k (bits_of ip) \<and>
       (\<forall>k'. prefix k' (bits_of ip) \<longrightarrow> length k < length k' \<longrightarrow> routes_of t (length ip, k') = None) \<longrightarrow>
       Lookup ip t' = Some (Some peer)) \<and>
    Lookup ip (RemoveByPeer peer t) \<noteq> Some (Some peer)"
  using aip.insert_elsewhere [OF assms] aip.insert_covered [OF assms]
    aip.removed_peer_gone [OF assms(1,4)] by blast

theorem insert_and_removal_are_local_witness:
  "\<exists>t'. Insert \<lparr>pfx_Addr = Addr4 0, pfx_Bits = 0\<rparr> 7 AllowedIPs0 = Some t' \<and>
     Lookup [10, 1, 2, 3] t' = Some (Some 7)"
proof -
  let ?p = "\<lparr>pfx_Addr = Addr4 0, pfx_Bits = 0\<rparr>"
  have p: "valid_prefix ?p" "prefix_key ?p = (length ([10, 1, 2, 3] :: byte list), [])"
    by (simp_all add: valid_prefix_def prefix_key_def prefix_bytes_def pkey_def)
  obtain t' where t': "Insert ?p 7 AllowedIPs0 = Some t'"
    using aip.insert_law [OF table_inv0 p(1)] by blast
  have "Lookup [10, 1, 2, 3] t' = Some (Some 7)"
    using insert_and_removal_are_local [OF table_inv0 p(1) t', of "[10, 1, 2, 3]" "[]"] p(2)
    by (simp add: routes_of0)
  with t' show ?thesis by blast
qed

end
