(* ===== verification/Go_Text.thy ===== *)
theory Go_Text
  imports Netip
begin

text \<open>
  The functions of Go's standard library on text that the sources use: white
  space and case (strings), decimal numbers (strconv), searching and cutting,
  host:port pairs and textual IP addresses (net), addresses and prefixes
  (net/netip).  A Go string is its list of bytes; an error is the value None.
\<close>

section \<open>White space and case\<close>

definition white_runes :: "byte list list" where
  "white_runes = [[9], [10], [11], [12], [13], [32], [0xC2, 0x85], [0xC2, 0xA0], [0xE1, 0x9A, 0x80]]
     @ map (\<lambda>b. [0xE2, 0x80, b]) [0x80, 0x81, 0x82, 0x83, 0x84, 0x85, 0x86, 0x87, 0x88, 0x89, 0x8A, 0xA8, 0xA9, 0xAF]
     @ [[0xE2, 0x81, 0x9F], [0xE3, 0x80, 0x80]]"

text \<open>The length of the white-space rune a text starts with, 0 if there is none.\<close>

definition white_prefix :: "byte list list \<Rightarrow> byte list \<Rightarrow> nat" where
  "white_prefix runes s = (case filter (\<lambda>r. take (length r) s = r) runes of [] \<Rightarrow> 0 | r # _ \<Rightarrow> length r)"

function trim_runes :: "byte list list \<Rightarrow> byte list \<Rightarrow> byte list" where
  "trim_runes runes s =
     (if s = [] \<or> white_prefix runes s = 0 then s else trim_runes runes (drop (white_prefix runes s) s))"
  by auto
termination
  by (relation "measure (length \<circ> snd)") auto

declare trim_runes.simps [simp del]

definition TrimSpace :: "byte list \<Rightarrow> byte list" where
  "TrimSpace s = rev (trim_runes (map rev white_runes) (rev (trim_runes white_runes s)))"

definition lower_byte :: "byte \<Rightarrow> byte" where
  "lower_byte b = (if 65 \<le> b \<and> b \<le> 90 then b + 32 else b)"

section \<open>Numbers\<close>

definition is_digit :: "byte \<Rightarrow> bool" where
  "is_digit c \<longleftrightarrow> 48 \<le> c \<and> c \<le> 57"

fun Itoa :: "nat \<Rightarrow> byte list" where
  "Itoa n = (if n < 10 then [48 + of_nat n] else Itoa (n div 10) @ [48 + of_nat (n mod 10)])"

declare Itoa.simps [simp del]

definition dec_value :: "byte list \<Rightarrow> nat" where
  "dec_value ds = foldl (\<lambda>a c. a * 10 + unat (c - 48)) 0 ds"

text \<open>strconv.Atoi: an optional sign, decimal digits, and the range of a 64-bit int.\<close>

definition Atoi :: "byte list \<Rightarrow> int option" where
  "Atoi s =
     (let neg = (s \<noteq> [] \<and> hd s = 45);
          ds = (if s \<noteq> [] \<and> (hd s = 45 \<or> hd s = 43) then tl s else s);
          n = int (dec_value ds)
      in if ds = [] \<or> \<not> list_all is_digit ds then None
         else if neg then (if n \<le> 2 ^ 63 then Some (- n) else None)
         else if n < 2 ^ 63 then Some n else None)"

section \<open>Searching and cutting\<close>

text \<open>strings.IndexByte, strings.LastIndexByte and strings.Cut for one byte.\<close>

definition index_byte :: "byte \<Rightarrow> byte list \<Rightarrow> nat option" where
  "index_byte c s = (let n = length (takeWhile (\<lambda>x. x \<noteq> c) s) in if n < length s then Some n else None)"

definition last_index_byte :: "byte \<Rightarrow> byte list \<Rightarrow> nat option" where
  "last_index_byte c s = (let n = length (takeWhile (\<lambda>x. x \<noteq> c) (rev s)) in if n < length s then Some (length s - 1 - n) else None)"

definition Cut :: "byte \<Rightarrow> byte list \<Rightarrow> (byte list \<times> byte list) option" where
  "Cut c s = (case index_byte c s of None \<Rightarrow> None | Some i \<Rightarrow> Some (take i s, drop (Suc i) s))"

text \<open>strings.Trim with a cutset of single bytes.\<close>

definition Trim :: "byte list \<Rightarrow> byte list \<Rightarrow> byte list" where
  "Trim cutset s = rev (dropWhile (\<lambda>c. c \<in> set cutset) (rev (dropWhile (\<lambda>c. c \<in> set cutset) s)))"

section \<open>Host and port\<close>

definition JoinHostPort :: "byte list \<Rightarrow> byte list \<Rightarrow> byte list" where
  "JoinHostPort host port = (if 58 \<in> set host then [91] @ host @ [93, 58] @ port else host @ [58] @ port)"

definition SplitHostPort :: "byte list \<Rightarrow> (byte list \<times> byte list) option" where
  "SplitHostPort hostport =
     (case last_index_byte 58 hostport of
        None \<Rightarrow> None
      | Some i \<Rightarrow>
          if hd hostport = 91 then
            (case index_byte 93 hostport of
               None \<Rightarrow> None
             | Some e \<Rightarrow>
                 if Suc e \<noteq> i then None
                 else if 91 \<in> set (drop 1 hostport) \<or> 93 \<in> set (drop (Suc e) hostport) then None
                 else Some (take (e - 1) (drop 1 hostport), drop (Suc i) hostport))
          else if 58 \<in> set (take i hostport) then None
          else if 91 \<in> set hostport \<or> 93 \<in> set hostport then None
          else Some (take i hostport, drop (Suc i) hostport))"

section \<open>Addresses\<close>

text \<open>
  netip.ParseAddr.  The four fields of an IPv4 address: bytes so far, the value
  and the number of digits of the current field.
\<close>

fun v4_fields :: "byte list \<Rightarrow> byte list \<Rightarrow> nat \<Rightarrow> nat \<Rightarrow> byte list option" where
  "v4_fields [] fs val digLen = (if length fs < 3 then None else Some (fs @ [of_nat val]))"
| "v4_fields (c # cs) fs val digLen =
     (if is_digit c then
        (if digLen = 1 \<and> val = 0 then None
         else let val = val * 10 + unat (c - 48) in if val > 255 then None else v4_fields cs fs val (Suc digLen))
      else if c = 46 then
        (if digLen = 0 \<or> cs = [] then None
         else if length fs = 3 then None
         else v4_fields cs (fs @ [of_nat val]) 0 0)
      else None)"

definition hex_digit :: "byte \<Rightarrow> nat option" where
  "hex_digit c =
     (if is_digit c then Some (unat (c - 48))
      else if 97 \<le> c \<and> c \<le> 102 then Some (unat (c - 97) + 10)
      else if 65 \<le> c \<and> c \<le> 70 then Some (unat (c - 65) + 10)
      else None)"

definition hex_value :: "byte list \<Rightarrow> nat" where
  "hex_value ds = foldl (\<lambda>a c. a * 16 + the (hex_digit c)) 0 ds"

definition is_hex :: "byte \<Rightarrow> bool" where "is_hex c \<longleftrightarrow> hex_digit c \<noteq> None"

text \<open>
  The groups of an IPv6 address: the rest of the text, the bytes so far and the
  position of the ellipsis.
\<close>

function v6_groups :: "byte list \<Rightarrow> byte list \<Rightarrow> nat option \<Rightarrow> (byte list \<times> byte list \<times> nat option) option" where
  "v6_groups s ip ellipsis =
     (if length ip \<ge> 16 then Some (s, ip, ellipsis)
      else let ds = takeWhile is_hex s; rest = dropWhile is_hex s
           in if ds = [] \<or> length ds > 4 then None
              else if rest \<noteq> [] \<and> hd rest = 46 then
                (if ellipsis = None \<and> length ip \<noteq> 12 then None
                 else if length ip + 4 > 16 then None
                 else case v4_fields s [] 0 0 of None \<Rightarrow> None | Some fs \<Rightarrow> Some ([], ip @ fs, ellipsis))
              else let ip = ip @ be_put (of_nat (hex_value ds) :: 16 word)
                   in case rest of
                        [] \<Rightarrow> Some ([], ip, ellipsis)
                      | c # cs \<Rightarrow>
                          (if c \<noteq> 58 \<or> cs = [] then None
                           else if hd cs = 58 then
                             (if ellipsis \<noteq> None then None
                              else if tl cs = [] then Some ([], ip, Some (length ip))
                              else v6_groups (tl cs) ip (Some (length ip)))
                           else v6_groups cs ip ellipsis))"
  by auto
termination
proof (relation "measure (\<lambda>(s, ip, ellipsis). length s)", goal_cases)
  case (2 s ip ellipsis ds rest ipa c cs)
  then have "c # cs = dropWhile is_hex s" by simp
  then have "length (dropWhile is_hex s) = Suc (length cs)" by (metis length_Cons)
  moreover have "length (dropWhile is_hex s) \<le> length s" by (rule length_dropWhile_le)
  ultimately show ?case by simp
next
  case (3 s ip ellipsis ds rest ipa c cs)
  then have "c # cs = dropWhile is_hex s" by simp
  then have "length (dropWhile is_hex s) = Suc (length cs)" by (metis length_Cons)
  moreover have "length (dropWhile is_hex s) \<le> length s" by (rule length_dropWhile_le)
  ultimately show ?case by simp
qed simp

declare v6_groups.simps [simp del]

definition parse_v6 :: "byte list \<Rightarrow> Addr option" where
  "parse_v6 s =
     (let (s, zone, ok) = (case index_byte 37 s of None \<Rightarrow> (s, [], True)
                           | Some i \<Rightarrow> (take i s, drop (Suc i) s, drop (Suc i) s \<noteq> []));
          lead = (take 2 s = [58, 58]);
          s = (if lead then drop 2 s else s)
      in if \<not> ok then None
         else if lead \<and> s = [] then Some (Addr6 0 zone)
         else case v6_groups s [] (if lead then Some 0 else None) of
                None \<Rightarrow> None
              | Some (rest, ip, ellipsis) \<Rightarrow>
                  if rest \<noteq> [] then None
                  else if length ip < 16 then
                    (case ellipsis of None \<Rightarrow> None
                     | Some e \<Rightarrow> Some (Addr6 (be_get (take e ip @ replicate (16 - length ip) 0 @ drop e ip)) zone))
                  else if ellipsis \<noteq> None then None
                  else Some (Addr6 (be_get ip) zone))"

definition ParseAddr :: "byte list \<Rightarrow> Addr option" where
  "ParseAddr s =
     (case filter (\<lambda>c. c \<in> {46, 58, 37}) s of
        [] \<Rightarrow> None
      | c # _ \<Rightarrow>
          if c = 46 then (case v4_fields s [] 0 0 of None \<Rightarrow> None | Some b \<Rightarrow> Some (AddrFrom4 b))
          else if c = 58 then parse_v6 s else None)"

text \<open>net.ParseIP accepts the addresses without a zone.\<close>

definition ParseIP :: "byte list \<Rightarrow> Addr option" where
  "ParseIP s = (case ParseAddr s of Some (Addr6 w z) \<Rightarrow> if z = [] then Some (Addr6 w z) else None | r \<Rightarrow> r)"

definition v4_string :: "32 word \<Rightarrow> byte list" where
  "v4_string w = (case map (\<lambda>b. Itoa (unat b)) (be_put w) of
     [a, b, c, d] \<Rightarrow> a @ [46] @ b @ [46] @ c @ [46] @ d | _ \<Rightarrow> [])"

definition hex_char :: "nat \<Rightarrow> byte" where
  "hex_char n = (if n < 10 then 48 + of_nat n else 87 + of_nat n)"

fun hex_string :: "nat \<Rightarrow> byte list" where
  "hex_string n = (if n < 16 then [hex_char n] else hex_string (n div 16) @ [hex_char (n mod 16)])"

declare hex_string.simps [simp del]

definition v6_words :: "128 word \<Rightarrow> nat list" where
  "v6_words w = map (\<lambda>i. unat (ucast (drop_bit (16 * i) w) :: 16 word)) (rev [0..<8])"

text \<open>The longest run of at least two zero groups, the first of equals: start and length.\<close>

fun zero_run :: "nat \<Rightarrow> nat list \<Rightarrow> nat \<times> nat \<Rightarrow> nat \<times> nat" where
  "zero_run i [] best = best"
| "zero_run i (g # gs) best =
     (let l = length (takeWhile (\<lambda>x. x = 0) (g # gs))
      in zero_run (Suc i) gs (if l \<ge> 2 \<and> l > snd best then (i, l) else best))"

fun join_with :: "byte list \<Rightarrow> byte list list \<Rightarrow> byte list" where
  "join_with sep [] = []"
| "join_with sep [x] = x"
| "join_with sep (x # xs) = x @ sep @ join_with sep xs"

definition v6_string :: "128 word \<Rightarrow> byte list" where
  "v6_string w =
     (let gs = v6_words w; (s, l) = zero_run 0 gs (0, 0); txt = (\<lambda>gs. join_with [58] (map hex_string gs))
      in if l = 0 then txt gs else txt (take s gs) @ [58, 58] @ txt (drop (s + l) gs))"

fun addr_String :: "Addr \<Rightarrow> byte list" where
  "addr_String AddrZero = go_str ''invalid IP''"
| "addr_String (Addr4 w) = v4_string w"
| "addr_String (Addr6 w z) =
     (if drop_bit 32 w = 0xFFFF then go_str ''::ffff:'' @ v4_string (ucast w) else v6_string w) @
     (if z = [] then [] else [37] @ z)"

section \<open>Prefixes\<close>

definition PrefixZero :: Prefix where "PrefixZero = \<lparr>pfx_Addr = AddrZero, pfx_Bits = 0\<rparr>"

definition pfx_IsValid :: "Prefix \<Rightarrow> bool" where
  "pfx_IsValid p \<longleftrightarrow> addr_IsValid (pfx_Addr p) \<and> pfx_Bits p \<le> addr_BitLen (pfx_Addr p)"

text \<open>netip.PrefixFrom drops the zone.\<close>

fun without_zone :: "Addr \<Rightarrow> Addr" where
  "without_zone (Addr6 w z) = Addr6 w []"
| "without_zone a = a"

definition PrefixFrom :: "Addr \<Rightarrow> nat \<Rightarrow> Prefix" where
  "PrefixFrom a n = \<lparr>pfx_Addr = without_zone a, pfx_Bits = n\<rparr>"

fun masked_addr :: "Addr \<Rightarrow> nat \<Rightarrow> Addr" where
  "masked_addr AddrZero n = AddrZero"
| "masked_addr (Addr4 w) n = Addr4 (w AND NOT (mask (32 - n)))"
| "masked_addr (Addr6 w z) n = Addr6 (w AND NOT (mask (128 - n))) []"

definition pfx_Masked :: "Prefix \<Rightarrow> Prefix" where
  "pfx_Masked p = \<lparr>pfx_Addr = masked_addr (pfx_Addr p) (pfx_Bits p), pfx_Bits = pfx_Bits p\<rparr>"

definition ParsePrefix :: "byte list \<Rightarrow> Prefix option" where
  "ParsePrefix s =
     (case last_index_byte 47 s of
        None \<Rightarrow> None
      | Some i \<Rightarrow>
          (case ParseAddr (take i s) of
             None \<Rightarrow> None
           | Some ip \<Rightarrow>
               (let zoned = (case ip of Addr6 w z \<Rightarrow> z \<noteq> [] | _ \<Rightarrow> False); bs = drop (Suc i) s
                in if zoned then None
                   else if length bs > 1 \<and> (hd bs < 49 \<or> hd bs > 57) then None
                   else case Atoi bs of
                          None \<Rightarrow> None
                        | Some bits \<Rightarrow>
                            if bits < 0 \<or> bits > int (addr_BitLen ip) then None
                            else Some (PrefixFrom ip (nat bits)))))"

definition pfx_String :: "Prefix \<Rightarrow> byte list" where
  "pfx_String p = (if \<not> pfx_IsValid p then go_str ''invalid Prefix''
     else addr_String (pfx_Addr p) @ [47] @ Itoa (pfx_Bits p))"

end
