(* ===== verification/Go_Text_Correct.thy ===== *)
theory Go_Text_Correct
  imports Go_Text
begin

text \<open>
  The text functions read back what they print: decimal numbers, IPv4 and IPv6
  addresses (with the elided run of zeros and the IPv4-mapped form) and prefixes.
\<close>

section \<open>Round trips\<close>

lemma unat_small: "n < 256 \<Longrightarrow> unat (of_nat n :: byte) = n"
  by (simp add: unat_of_nat)

lemma digit_char:
  assumes "n < 10"
  shows "is_digit (48 + of_nat n)" "unat (of_nat n :: byte) = n"
proof -
  have "unat (48 + of_nat n :: byte) = 48 + n" using assms by (simp add: unat_word_ariths unat_small)
  then show "is_digit (48 + of_nat n)" using assms by (simp add: is_digit_def word_le_nat_alt)
  show "unat (of_nat n :: byte) = n" using assms by (simp add: unat_small)
qed

lemma Itoa_digits: "list_all is_digit (Itoa n) \<and> dec_value (Itoa n) = n \<and> Itoa n \<noteq> []"
proof (induction n rule: Itoa.induct)
  case (1 n)
  show ?case
  proof (cases "n < 10")
    case True
    then show ?thesis using digit_char [OF True] by (simp add: Itoa.simps dec_value_def)
  next
    case False
    have "n mod 10 < 10" by simp
    from digit_char [OF this] 1 [OF False] False show ?thesis
      by (simp add: Itoa.simps [of n] dec_value_def)
  qed
qed

lemma Itoa_short: "n < 10 \<Longrightarrow> Itoa n = [48 + of_nat n]"
  by (simp add: Itoa.simps)

lemma Itoa_hd: "10 \<le> n \<Longrightarrow> 49 \<le> hd (Itoa n) \<and> hd (Itoa n) \<le> 57"
proof (induction n rule: Itoa.induct)
  case (1 n)
  show ?case
  proof (cases "n < 100")
    case True
    then have d: "n div 10 < 10" "1 \<le> n div 10" using 1(2) by auto
    then have "unat (48 + of_nat (n div 10) :: byte) = 48 + n div 10" by (simp add: unat_word_ariths unat_small)
    then have "49 \<le> (48 + of_nat (n div 10) :: byte) \<and> (48 + of_nat (n div 10) :: byte) \<le> 57"
      using d by (simp add: word_le_nat_alt)
    with d 1(2) show ?thesis by (simp add: Itoa.simps [of n] Itoa_short)
  next
    case False
    then have "10 \<le> n div 10" by auto
    with 1(1) False have "49 \<le> hd (Itoa (n div 10)) \<and> hd (Itoa (n div 10)) \<le> 57" by simp
    with False Itoa_digits [of "n div 10"] show ?thesis by (simp add: Itoa.simps [of n] hd_append)
  qed
qed

lemma Atoi_Itoa:
  assumes "n < 2 ^ 63"
  shows "Atoi (Itoa n) = Some (int n)"
proof -
  have d: "list_all is_digit (Itoa n)" "dec_value (Itoa n) = n" "Itoa n \<noteq> []" using Itoa_digits [of n] by blast+
  then have "is_digit (hd (Itoa n))" by (simp add: list_all_iff)
  then have "hd (Itoa n) \<noteq> 45" "hd (Itoa n) \<noteq> 43" by (auto simp: is_digit_def)
  moreover have "int n < 2 ^ 63" using assms by (metis of_nat_less_iff of_nat_numeral of_nat_power)
  ultimately show ?thesis using d by (simp add: Atoi_def)
qed

lemma v4_fields_Itoa:
  assumes "n < 256"
  shows "v4_fields (Itoa n @ s) fs 0 0 = v4_fields s fs n (length (Itoa n))"
proof -
  note d = digit_char
  consider "n < 10" | "10 \<le> n" "n < 100" | "100 \<le> n" by linarith
  then show ?thesis
  proof cases
    case 1
    then show ?thesis by (simp add: Itoa_short d Let_def)
  next
    case 2
    then have "n div 10 < 10" "0 < n div 10" by auto
    then show ?thesis using 2 assms by (simp add: Itoa.simps [of n] Itoa_short d Let_def)
  next
    case 3
    then have "n div 10 div 10 < 10" "0 < n div 10 div 10" "\<not> n div 10 < 10" "\<not> 255 < n" "\<not> 255 < n div 10" using assms by auto
    moreover have "n div 10 div 10 * 10 + n div 10 mod 10 = n div 10" "n div 10 * 10 + n mod 10 = n" by presburger+
    ultimately show ?thesis using 3 by (auto simp: Itoa.simps [of n] Itoa.simps [of "n div 10"] Itoa_short d Let_def)
  qed
qed

lemma Itoa_not: "\<not> is_digit c \<Longrightarrow> c \<notin> set (Itoa n)"
  using Itoa_digits [of n] by (auto simp: list_all_iff)

lemma bytes4: obtains a b c d where "be_put (w :: 32 word) = [a, b, c, d]"
proof -
  have "be_put w = map (\<lambda>i. ucast (drop_bit (8 * i) w)) [3, 2, 1, 0]" by (simp add: be_put_def upt_rec)
  then show ?thesis using that by simp
qed

lemma v4_fields_string: "v4_fields (v4_string w) [] 0 0 = Some (be_put w)"
proof -
  obtain a b c d where w: "be_put w = [a, b, c, d]" by (rule bytes4)
  have n: "Itoa k \<noteq> []" "unat x < 256" for k and x :: byte using Itoa_digits unsigned_less [of x] by auto
  have dot: "\<not> is_digit 46" by (simp add: is_digit_def)
  show ?thesis
    using v4_fields_Itoa [OF n(2), of d "[]"]
    by (simp add: v4_string_def w v4_fields_Itoa n dot)
qed

lemma parse_v4_string: "ParseAddr (v4_string w) = Some (Addr4 w)"
proof -
  obtain a b c d where w: "be_put w = [a, b, c, d]" by (rule bytes4)
  have none: "filter (\<lambda>c. c = 46 \<or> c = 58 \<or> c = 37) (Itoa k) = []" for k
    using Itoa_not [of _ k] by (auto simp: filter_empty_conv is_digit_def)
  have "\<exists>cs. filter (\<lambda>c. c \<in> {46, 58, 37}) (v4_string w) = 46 # cs"
    by (simp add: v4_string_def w none)
  then show ?thesis by (auto simp: ParseAddr_def v4_fields_string AddrFrom4_def)
qed

section \<open>Hexadecimal groups\<close>

lemma hex_digit_char: "n < 16 \<Longrightarrow> hex_digit (hex_char n) = Some n"
proof -
  have "list_all (\<lambda>n. hex_digit (hex_char n) = Some n) [0..<16]" by code_simp
  then show "n < 16 \<Longrightarrow> ?thesis" by (simp add: list_all_iff)
qed

lemma hex_string_digits: "list_all is_hex (hex_string n) \<and> hex_value (hex_string n) = n \<and> hex_string n \<noteq> []"
proof (induction n rule: hex_string.induct)
  case (1 n)
  show ?case
  proof (cases "n < 16")
    case True
    then show ?thesis using hex_digit_char [OF True] by (simp add: hex_string.simps hex_value_def is_hex_def)
  next
    case False
    have "n mod 16 < 16" by simp
    from hex_digit_char [OF this] 1 [OF False] False show ?thesis
      by (simp add: hex_string.simps [of n] hex_value_def is_hex_def)
  qed
qed

lemma hex_string_length: "n < 16 ^ Suc k \<Longrightarrow> length (hex_string n) \<le> Suc k"
proof (induction k arbitrary: n)
  case 0
  then show ?case by (simp add: hex_string.simps)
next
  case (Suc k)
  then have "n div 16 < 16 ^ Suc k" by (simp add: less_mult_imp_div_less)
  from Suc.IH [OF this] show ?case by (simp add: hex_string.simps [of n])
qed

definition group_text :: "nat list \<Rightarrow> byte list" where
  "group_text gs = join_with [58] (map hex_string gs)"

definition group_bytes :: "nat list \<Rightarrow> byte list" where
  "group_bytes gs = concat (map (\<lambda>g. be_put (of_nat g :: 16 word)) gs)"

lemma group_text_simps [simp]:
  "group_text [] = []" "group_text [g] = hex_string g" "group_text (g # h # gs) = hex_string g @ [58] @ group_text (h # gs)"
  by (simp_all add: group_text_def)

lemma group_bytes_simps [simp]:
  "group_bytes [] = []" "group_bytes (g # gs) = be_put (of_nat g :: 16 word) @ group_bytes gs" "length (group_bytes gs) = 2 * length gs"
  by (simp_all add: group_bytes_def length_concat sum_list_triv comp_def)

lemma not_hex [simp]: "\<not> is_hex 58" "\<not> is_hex 46" "\<not> is_hex 37" "\<not> is_hex 47"
  by (simp_all add: is_hex_def hex_digit_def is_digit_def)

lemma hex_string_cut:
  assumes "s = [] \<or> \<not> is_hex (hd s)"
  shows "takeWhile is_hex (hex_string g @ s) = hex_string g" "dropWhile is_hex (hex_string g @ s) = s"
proof -
  have "\<forall>c \<in> set (hex_string g). is_hex c" using hex_string_digits [of g] by (simp add: list_all_iff)
  then show "takeWhile is_hex (hex_string g @ s) = hex_string g" "dropWhile is_hex (hex_string g @ s) = s"
    using assms by (cases s; simp add: takeWhile_append2 dropWhile_append2)+
qed

lemma hex_string_hd: "hex_string g \<noteq> []" "is_hex (hd (hex_string g @ s))" "is_hex (hd (hex_string g))"
  using hex_string_digits [of g] by (auto simp: list_all_iff)

lemma group_text_hd: "gs \<noteq> [] \<Longrightarrow> group_text gs \<noteq> [] \<and> is_hex (hd (group_text gs @ s))"
  by (cases gs rule: remdups_adj.cases) (simp_all add: hex_string_hd)

lemma hd_not_colon: "is_hex (hd s) \<Longrightarrow> hd s \<noteq> 58"
  using not_hex by metis

lemma v6_groups_step:
  assumes "length ip < 16" "g < 65536" "s = [] \<or> hd s = 58"
  shows "v6_groups (hex_string g @ s) ip el =
    (let ip = ip @ be_put (of_nat g :: 16 word)
     in case s of [] \<Rightarrow> Some ([], ip, el)
        | c # cs \<Rightarrow> if cs = [] then None
            else if hd cs = 58 then
              (if el \<noteq> None then None else if tl cs = [] then Some ([], ip, Some (length ip)) else v6_groups (tl cs) ip (Some (length ip)))
            else v6_groups cs ip el)"
proof -
  have c: "s = [] \<or> \<not> is_hex (hd s)" using assms(3) not_hex by auto
  have l: "length (hex_string g) \<le> 4" using hex_string_length [of g 3] assms(2) by simp
  show ?thesis
    using assms l by (subst v6_groups.simps) (auto simp: hex_string_cut [OF c] hex_string_hd hex_string_digits Let_def split: list.split)
qed

lemma v6_groups_text:
  assumes "gs \<noteq> []" "\<forall>g \<in> set gs. g < 65536" "length ip + 2 * length gs \<le> 16"
  shows "v6_groups (group_text gs) ip el = Some ([], ip @ group_bytes gs, el)"
  using assms
proof (induction gs arbitrary: ip rule: induct_list012)
  case (2 g)
  then show ?case using v6_groups_step [of ip g "[]" el] by simp
next
  case (3 g h gs)
  have "is_hex (hd (group_text (h # gs)))" "group_text (h # gs) \<noteq> []" using group_text_hd [of "h # gs" "[]"] by auto
  moreover have "v6_groups (group_text (h # gs)) (ip @ be_put (of_nat g :: 16 word)) el =
      Some ([], (ip @ be_put (of_nat g :: 16 word)) @ group_bytes (h # gs), el)"
    using 3 by (intro 3(2)) auto
  ultimately show ?case using 3 v6_groups_step [of ip g "58 # group_text (h # gs)" el] hd_not_colon by (simp add: Let_def)
qed simp

lemma v6_groups_ellipsis:
  assumes "gs \<noteq> []" "\<forall>g \<in> set gs. g < 65536" "length ip + 2 * length gs \<le> 14"
  shows "v6_groups (group_text gs @ [58, 58] @ t) ip None =
    (if t = [] then Some ([], ip @ group_bytes gs, Some (length ip + 2 * length gs))
     else v6_groups t (ip @ group_bytes gs) (Some (length ip + 2 * length gs)))"
  using assms
proof (induction gs arbitrary: ip rule: induct_list012)
  case (2 g)
  then show ?case using v6_groups_step [of ip g "[58, 58] @ t" None] by (simp add: Let_def)
next
  case (3 g h gs)
  have "is_hex (hd (group_text (h # gs) @ [58, 58] @ t))" using group_text_hd [of "h # gs" "[58, 58] @ t", OF list.simps(3)] by (rule conjunct2)
  moreover have "v6_groups (group_text (h # gs) @ [58, 58] @ t) (ip @ be_put (of_nat g :: 16 word)) None =
      (if t = [] then Some ([], (ip @ be_put (of_nat g :: 16 word)) @ group_bytes (h # gs), Some (length (ip @ be_put (of_nat g :: 16 word)) + 2 * length (h # gs)))
     else v6_groups t ((ip @ be_put (of_nat g :: 16 word)) @ group_bytes (h # gs)) (Some (length (ip @ be_put (of_nat g :: 16 word)) + 2 * length (h # gs))))"
    using 3 by (intro 3(2)) auto
  ultimately show ?case using 3 v6_groups_step [of ip g "58 # group_text (h # gs) @ [58, 58] @ t" None] hd_not_colon by (simp add: Let_def)
qed simp

lemma zero_run_ok:
  assumes "snd best = 0 \<or> (2 \<le> snd best \<and> fst best + snd best \<le> length all \<and> take (snd best) (drop (fst best) all) = replicate (snd best) 0)"
    and "drop i all = gs" "i \<le> length all"
  shows "let (s, l) = zero_run i gs best in l = 0 \<or> (2 \<le> l \<and> s + l \<le> length all \<and> take l (drop s all) = replicate l 0)"
  using assms
proof (induction i gs best rule: zero_run.induct)
  case (2 i g gs best)
  let ?l = "length (takeWhile (\<lambda>x. x = 0) (g # gs))"
  have len: "i + ?l \<le> length all" using 2(3,4) length_takeWhile_le [of "\<lambda>x. x = 0" "g # gs"]
    by (metis add.commute le_diff_conv2 length_drop)
  have tk: "take ?l (drop i all) = replicate ?l 0"
    unfolding 2(3) by (metis (mono_tags, lifting) replicate_length_same set_takeWhileD takeWhile_eq_take)
  have "drop (Suc i) all = gs" using 2(3) by (metis drop_Suc list.sel(3) tl_drop)
  moreover have "Suc i \<le> length all" using 2(3,4) by (metis Suc_leI drop_all list.discI not_le)
  ultimately show ?case using 2(1) [OF refl] 2(2) len tk by (simp del: takeWhile.simps add: Let_def)
qed (simp add: case_prod_unfold)


lemma v6_words_bytes: "group_bytes (v6_words w) = be_put w"
proof -
  have "(ucast (drop_bit 8 (ucast x :: 16 word)) :: byte) = ucast (drop_bit 8 x)" "(ucast (ucast x :: 16 word) :: byte) = ucast x" for x :: "128 word"
    by (rule bit_word_eqI; auto simp: bit_simps)+
  then show ?thesis by (simp add: group_bytes_def v6_words_def be_put_def upt_rec)
qed

lemma v6_words_facts: "length (v6_words w) = 8" "\<forall>g \<in> set (v6_words w). g < 65536"
proof -
  have "unat x < 65536" for x :: "16 word" using unsigned_less [of x] by simp
  then show "length (v6_words w) = 8" "\<forall>g \<in> set (v6_words w). g < 65536" by (auto simp: v6_words_def)
qed

lemma group_text_chars: "c \<in> set (group_text gs) \<Longrightarrow> is_hex c \<or> c = 58"
proof (induction gs rule: induct_list012)
  case (2 g)
  then show ?case using hex_string_digits [of g] by (auto simp: list_all_iff)
next
  case (3 g h gs)
  then show ?case using hex_string_digits [of g] by (auto simp: list_all_iff)
qed simp

lemma group_bytes_append: "group_bytes (xs @ ys) = group_bytes xs @ group_bytes ys"
  by (simp add: group_bytes_def)

lemma group_bytes_zeros: "group_bytes (replicate n 0) = replicate (2 * n) 0"
  by (induction n) (simp_all add: be_put_def upt_rec)

lemma index_byte_none: "c \<notin> set s \<Longrightarrow> index_byte c s = None"
proof -
  assume "c \<notin> set s"
  then have "takeWhile (\<lambda>x. x \<noteq> c) s = s" by (auto simp: takeWhile_eq_all_conv)
  then show ?thesis by (simp only: index_byte_def Let_def less_irrefl if_False)
qed

lemma be_get_zeros: "be_get (replicate n 0) = 0"
  by (induction n) (simp_all add: be_get_def)

lemma take2_hex: "is_hex (hd s) \<Longrightarrow> take 2 s \<noteq> [58, 58]"
  using not_hex(1) by (cases s) auto

lemma parse_v6_string: "parse_v6 (v6_string w) = Some (Addr6 w [])"
proof -
  define gs where "gs = v6_words w"
  have len: "length gs = 8" and sm: "\<forall>g \<in> set gs. g < 65536" and bt: "group_bytes gs = be_put w"
    using v6_words_facts v6_words_bytes by (simp_all add: gs_def)
  obtain s l where z: "zero_run 0 gs (0, 0) = (s, l)" by fastforce
  have run: "l = 0 \<or> 2 \<le> l \<and> s + l \<le> 8 \<and> take l (drop s gs) = replicate l 0"
    using zero_run_ok [of "(0, 0)" gs 0 gs] z len by simp
  have bw: "be_get (group_bytes gs) = w" by (simp add: bt)
  show ?thesis
  proof (cases "l = 0")
    case True
    then have v: "v6_string w = group_text gs" by (simp add: v6_string_def gs_def [symmetric] z group_text_def)
    have n37: "37 \<notin> set (group_text gs)" using group_text_chars [of 37 gs] not_hex by auto
    have "gs \<noteq> []" using len by auto
    from v6_groups_text [OF this sm, of "[]" None] len have "v6_groups (group_text gs) [] None = Some ([], group_bytes gs, None)" by simp
    with group_text_hd [OF \<open>gs \<noteq> []\<close>, of "[]"] take2_hex [of "group_text gs"] show ?thesis
      by (simp add: parse_v6_def v index_byte_none [OF n37] Let_def len bw)
  next
    case False
    then have l: "2 \<le> l" "s + l \<le> 8" "take l (drop s gs) = replicate l 0" using run by auto
    define A B where "A = take s gs" and "B = drop (s + l) gs"
    have split: "gs = A @ replicate l 0 @ B"
      unfolding A_def B_def l(3) [symmetric] by (metis append_take_drop_id add.commute drop_drop)
    have AB: "length A = s" "length B = 8 - s - l" "\<forall>g \<in> set A. g < 65536" "\<forall>g \<in> set B. g < 65536"
      using len l sm by (auto simp: A_def B_def dest: in_set_takeD in_set_dropD)
    have v: "v6_string w = group_text A @ [58, 58] @ group_text B"
      using False by (simp add: v6_string_def gs_def [symmetric] z group_text_def A_def B_def)
    have n37: "37 \<notin> set (v6_string w)" using group_text_chars [of 37] not_hex by (auto simp: v)
    have full: "be_get (group_bytes A @ replicate (2 * l) 0 @ group_bytes B) = w"
      using bw by (simp add: split group_bytes_append group_bytes_zeros)
    have pB: "B \<noteq> [] \<Longrightarrow> v6_groups (group_text B) ip el = Some ([], ip @ group_bytes B, el)" if "length ip = 2 * s" for ip el
      using v6_groups_text [of B ip el] AB l that by simp
    show ?thesis
    proof (cases "A = []")
      case True
      then have "s = 0" using AB(1) by simp
      show ?thesis
      proof (cases "B = []")
        case True
        with \<open>A = []\<close> full have "w = 0" by (simp add: be_get_zeros)
        moreover have "v6_string w = [58, 58]" by (simp add: v \<open>A = []\<close> True)
        ultimately show ?thesis by (simp add: parse_v6_def index_byte_none Let_def)
      next
        case False
        with pB [of "[]" "Some 0"] \<open>s = 0\<close> have "v6_groups (group_text B) [] (Some 0) = Some ([], group_bytes B, Some 0)" by simp
        moreover have "group_text B \<noteq> []" using group_text_hd [OF False] by auto
        moreover have "16 - 2 * length B = 2 * l" using AB(2) l \<open>s = 0\<close> by simp
        ultimately show ?thesis
          using n37 full AB(2) l \<open>s = 0\<close> by (simp add: parse_v6_def v \<open>A = []\<close> index_byte_none Let_def)
      qed
    next
      case False
      have "is_hex (hd (v6_string w))" unfolding v using group_text_hd [OF False, of "[58, 58] @ group_text B"] by (rule conjunct2)
      then have nl: "take 2 (v6_string w) \<noteq> [58, 58]" by (rule take2_hex)
      have "16 - (2 * s + 2 * length B) = 2 * l" "2 * s + 2 * length B < 16" using AB(2) l by auto
      moreover have "v6_groups (v6_string w) [] None = Some ([], group_bytes A @ group_bytes B, Some (2 * s))"
        using v6_groups_ellipsis [OF False AB(3), of "[]" "group_text B"] AB(1) l pB [of "group_bytes A"] group_text_hd [of B "[]"]
        by (cases "B = []") (simp_all add: v)
      ultimately show ?thesis using n37 nl full AB(1) by (simp add: parse_v6_def index_byte_none Let_def)
    qed
  qed
qed


lemma filter_hd_colon:
  assumes "\<forall>c \<in> set s. is_hex c \<or> c = 58" "58 \<in> set s"
  shows "\<exists>cs. filter (\<lambda>c. c \<in> {46, 58, 37}) (s @ t) = 58 # cs"
  using assms
proof (induction s)
  case (Cons c s)
  then show ?case using not_hex by (cases "c = 58") auto
qed simp

lemma group_text_colon: "58 \<in> set (group_text (g # h # gs))"
  by simp

lemma Itoa_length: "n < 10 ^ Suc k \<Longrightarrow> length (Itoa n) \<le> Suc k"
proof (induction k arbitrary: n)
  case 0
  then show ?case by (simp add: Itoa_short)
next
  case (Suc k)
  then have "n div 10 < 10 ^ Suc k" by (simp add: less_mult_imp_div_less)
  from Suc.IH [OF this] show ?case by (simp add: Itoa.simps [of n])
qed

lemma mapped_bytes:
  assumes "drop_bit 32 w = (0xFFFF :: 128 word)"
  shows "be_put w = replicate 10 0 @ [255, 255] @ be_put (ucast w :: 32 word)"
proof -
  have d: "drop_bit (n + 32) w = drop_bit n 0xFFFF" for n using drop_bit_drop_bit [of n 32 w] assms by simp
  have u: "(ucast (drop_bit n (ucast w :: 32 word)) :: byte) = ucast (drop_bit n w)" if "n \<le> 24" for n
    using that by (intro bit_word_eqI) (auto simp: bit_simps)
  have "be_put w = map (\<lambda>n. ucast (drop_bit n w)) [120, 112, 104, 96, 88, 80, 72, 64, 56, 48, 40, 32, 24, 16, 8, 0]"
    by (simp add: be_put_def upt_rec)
  also have "\<dots> = map (\<lambda>n. ucast (drop_bit (n + 32) w)) [88, 80, 72, 64, 56, 48, 40, 32, 24, 16, 8, 0] @ map (\<lambda>n. ucast (drop_bit n w)) [24, 16, 8, 0]"
    by simp
  also have "map (\<lambda>n. (ucast (drop_bit (n + 32) w) :: byte)) [88, 80, 72, 64, 56, 48, 40, 32, 24, 16, 8, 0] = replicate 10 0 @ [255, 255]"
    unfolding d by code_simp
  also have "map (\<lambda>n. (ucast (drop_bit n w) :: byte)) [24, 16, 8, 0] = be_put (ucast w :: 32 word)"
    using u [of 0] by (simp add: be_put_def upt_rec u)
  finally show ?thesis by simp
qed

lemma parse_mapped:
  assumes "drop_bit 32 w = (0xFFFF :: 128 word)"
  shows "parse_v6 (go_str ''::ffff:'' @ v4_string (ucast w)) = Some (Addr6 w [])"
proof -
  let ?v = "ucast w :: 32 word"
  obtain a b c d where v: "be_put ?v = [a, b, c, d]" by (rule bytes4)
  have n37: "37 \<notin> set (v4_string ?v)" using Itoa_not [of 37] by (simp add: v4_string_def v is_digit_def)
  define i where "i = Itoa (unat a)"
  define r where "r = Itoa (unat b) @ [46] @ Itoa (unat c) @ [46] @ Itoa (unat d)"
  have vs: "v4_string ?v = i @ 46 # r" by (simp add: v4_string_def v i_def r_def)
  have "unat a < 256" using unsigned_less [of a] by simp
  then have i3: "length i \<le> 3" using Itoa_length [of "unat a" 2] by (simp add: i_def)
  have ix: "\<forall>c \<in> set i. is_hex c" "i \<noteq> []" using Itoa_digits [of "unat a"] by (auto simp: i_def list_all_iff is_hex_def hex_digit_def)
  have cut: "takeWhile is_hex (i @ 46 # r) = i" "dropWhile is_hex (i @ 46 # r) = 46 # r"
    using ix not_hex by (simp_all add: takeWhile_append2 dropWhile_append2)
  have f4: "v4_fields (i @ 46 # r) [] 0 0 = Some (be_put ?v)" using v4_fields_string [of ?v] by (simp add: vs)
  have h: "hd (i @ 46 # r) \<noteq> 58" using ix not_hex by (cases i) auto
  have s2: "v6_groups (i @ 46 # r) [255, 255] (Some 0) = Some ([], [255, 255] @ be_put ?v, Some 0)"
    using i3 ix(2) by (subst v6_groups.simps) (simp add: cut f4)
  have hx: "hex_string 65535 = go_str ''ffff''" by (simp add: hex_string.simps hex_char_def go_str_def)
  have ff: "be_put (of_nat 65535 :: 16 word) = [255, 255]" by (simp add: be_put_def upt_rec)
  have s1: "v6_groups (go_str ''ffff'' @ 58 # i @ 46 # r) [] (Some 0) = Some ([], [255, 255] @ be_put ?v, Some 0)"
    using v6_groups_step [of "[]" 65535 "58 # i @ 46 # r" "Some 0"] s2 h ff by (simp add: hx)
  have w: "be_get (replicate 10 0 @ [255, 255] @ be_put ?v) = w"
    by (simp only: mapped_bytes [OF assms, symmetric] be_get_put_sizes)
  have t: "go_str ''::ffff:'' @ v4_string ?v = [58, 58] @ go_str ''ffff'' @ 58 # i @ 46 # r" by (simp add: vs go_str_def)
  have "37 \<notin> set (go_str ''::ffff:'' @ v4_string ?v)" using n37 by (simp add: go_str_def)
  from index_byte_none [OF this] s1 w show ?thesis unfolding t by (simp add: parse_v6_def Let_def)
qed


section \<open>Prefixes\<close>

definition no_zone :: "Addr \<Rightarrow> bool" where
  "no_zone a = (case a of Addr6 w z \<Rightarrow> z = [] | _ \<Rightarrow> True)"

lemma v6_string_colon: "\<exists>cs. filter (\<lambda>c. c \<in> {46, 58, 37}) (v6_string w) = 58 # cs"
proof -
  have c: "\<forall>c \<in> set (v6_string w). is_hex c \<or> c = 58"
    using group_text_chars by (auto simp: v6_string_def Let_def case_prod_unfold group_text_def [symmetric])
  have "58 \<in> set (v6_string w)"
  proof (cases "snd (zero_run 0 (v6_words w) (0, 0)) = 0")
    case True
    obtain g h gs where "v6_words w = g # h # gs" using v6_words_facts(1) [of w] by (auto simp: length_Suc_conv eval_nat_numeral)
    with True show ?thesis by (simp add: v6_string_def Let_def case_prod_unfold group_text_def [symmetric])
  qed (simp add: v6_string_def Let_def case_prod_unfold)
  from filter_hd_colon [OF c this, of "[]"] show ?thesis by simp
qed

lemma ParseAddr_String:
  assumes "addr_IsValid a" "no_zone a"
  shows "ParseAddr (addr_String a) = Some a"
proof (cases a)
  case (Addr4 w)
  then show ?thesis by (simp add: parse_v4_string)
next
  case (Addr6 w z)
  with assms have z: "z = []" by (simp add: no_zone_def)
  show ?thesis
  proof (cases "drop_bit 32 w = 0xFFFF")
    case True
    then have "filter (\<lambda>c. c \<in> {46, 58, 37}) (addr_String a) = 58 # filter (\<lambda>c. c \<in> {46, 58, 37}) (tl (addr_String a))"
      by (simp add: Addr6 z go_str_def)
    then show ?thesis using parse_mapped [OF True] True by (simp add: ParseAddr_def Addr6 z)
  next
    case False
    then show ?thesis using v6_string_colon [of w] parse_v6_string [of w] by (auto simp: ParseAddr_def Addr6 z)
  qed
qed (use assms in simp)

lemma last_index_byte_app: "c \<notin> set t \<Longrightarrow> last_index_byte c (s @ c # t) = Some (length s)"
proof -
  assume "c \<notin> set t"
  then have "takeWhile (\<lambda>x. x \<noteq> c) (rev t @ c # rev s) = rev t" by (subst takeWhile_append2) auto
  then have "takeWhile (\<lambda>x. x \<noteq> c) (rev (s @ c # t)) = rev t" by simp
  then show ?thesis by (simp only: last_index_byte_def Let_def) simp
qed

lemma ParsePrefix_String:
  assumes "pfx_IsValid p" "no_zone (pfx_Addr p)"
  shows "ParsePrefix (pfx_String p) = Some p"
proof -
  let ?a = "pfx_Addr p" and ?n = "pfx_Bits p"
  have v: "addr_IsValid ?a" "?n \<le> addr_BitLen ?a" using assms(1) by (simp_all add: pfx_IsValid_def)
  have n: "?n \<le> 128" using v(2) by (cases ?a) auto
  have "47 \<notin> set (Itoa ?n)" by (rule Itoa_not) (simp add: is_digit_def)
  note i = last_index_byte_app [OF this, of "addr_String ?a"]
  have at: "Atoi (Itoa ?n) = Some (int ?n)" using n by (intro Atoi_Itoa) simp
  have hd: "length (Itoa ?n) > 1 \<longrightarrow> \<not> (hd (Itoa ?n) < 49 \<or> hd (Itoa ?n) > 57)"
    using Itoa_hd [of ?n] Itoa_short [of ?n] by (cases "?n < 10") (auto simp: not_less)
  have z: "(case ?a of Addr6 w z \<Rightarrow> z \<noteq> [] | _ \<Rightarrow> False) = False" "without_zone ?a = ?a"
    using assms(2) by (cases ?a; simp add: no_zone_def)+
  show ?thesis
    using v hd by (simp add: ParsePrefix_def pfx_String_def assms(1) i ParseAddr_String [OF v(1) assms(2)] at Let_def z PrefixFrom_def)
qed

end
