(* ===== verification/Mc_Codec.thy ===== *)
theory Mc_Codec
  imports Prelude
begin

text \<open>
  The Minecraft packet codec of the TCP transport (wireguard/conn/tcp_bind.go
  from writeMCVarInt on, wireguard/conn/mc_camouflage.go): variable-length
  integers, strings, byte arrays and every packet the camouflage handshakes
  exchange, each with its encoder and its decoder.  A bytes.Reader is the list
  of the bytes not read yet.  The result of readMCVarInt has at most 42 bits
  (readMCVarInt_bound), so the Go int it accumulates never overflows and is an
  int here; the writer goes through uint32 as the code does.
\<close>

section \<open>Errors\<close>

datatype camo_err =
    ErrEOF
  | ErrUnexpectedEOF
  | ErrClosed
  | ErrWrite
  | ErrRand
  | ErrVarintTooLong
  | ErrPacketSize int
  | ErrStringSize
  | ErrByteArraySize
  | ErrPacketID int
  | ErrNextState int int
  | ErrTrailing string
  | ErrNotJSON
  | ErrPingSize
  | ErrPongSize
  | ErrPongMismatch "64 word" "64 word"
  | ErrUsername "byte list"
  | ErrPropCount int
  | ErrServerRejected "byte list"
  | ErrLegacyPeer
  | ErrServerKey
  | ErrX509
  | ErrEncryptionResponse
  | ErrPluginChannel "byte list" "byte list"
  | ErrSecureAuth
  | ErrCoverShort
  | ErrCoverPad
  | ErrCoverPacketID int
  | ErrCoverChannel
  | ErrCoverHeader
  | ErrInvalidReply string
  | ErrAuthRejected
  | ErrUnknownProfile "byte list"
  | ErrFrameTooLarge nat
  | ErrWrap string camo_err

section \<open>Variable-length integers, strings and byte arrays\<close>

function putVarInt :: "32 word \<Rightarrow> byte list" where
  "putVarInt u =
     (if u AND NOT 0x7F = 0 then [ucast u]
      else ucast (u AND 0x7F OR 0x80) # putVarInt (drop_bit 7 u))"
  by pat_completeness auto

termination putVarInt
proof (relation "measure unat")
  fix u :: "32 word"
  assume "u AND NOT 0x7F \<noteq> 0"
  then have "unat u \<noteq> 0" by (auto simp: unat_eq_0)
  then show "(drop_bit 7 u, u) \<in> measure unat" by (simp add: unat_drop_bit_div)
qed simp

definition writeMCVarInt :: "int \<Rightarrow> byte list" where
  "writeMCVarInt value = putVarInt (word_of_int value)"

fun getVarInt :: "nat \<Rightarrow> int \<Rightarrow> byte list \<Rightarrow> camo_err + int \<times> byte list" where
  "getVarInt numRead result [] =
     (if numRead > 5 then Inl ErrVarintTooLong else Inl ErrEOF)"
| "getVarInt numRead result (b # r) =
     (if numRead > 5 then Inl ErrVarintTooLong
      else let result = result OR push_bit (7 * numRead) (uint (b AND 0x7F))
           in if b AND 0x80 = 0 then Inr (result, r)
              else getVarInt (numRead + 1) result r)"

definition readMCVarInt :: "byte list \<Rightarrow> camo_err + int \<times> byte list" where
  "readMCVarInt r = getVarInt 0 0 r"

text \<open>io.ReadFull of n bytes from the reader.\<close>

definition read_full :: "nat \<Rightarrow> byte list \<Rightarrow> camo_err + byte list \<times> byte list" where
  "read_full n r =
     (if n \<le> length r then Inr (take n r, drop n r)
      else if r = [] then Inl ErrEOF else Inl ErrUnexpectedEOF)"

definition writeMCString :: "byte list \<Rightarrow> byte list" where
  "writeMCString s = writeMCVarInt (int (length s)) @ s"

definition readMCString :: "byte list \<Rightarrow> camo_err + byte list \<times> byte list" where
  "readMCString r = ebind (readMCVarInt r) (\<lambda>(size, r).
     if size < 0 \<or> size > int (length r) then Inl ErrStringSize
     else read_full (nat size) r)"

definition writeMCByteArray :: "byte list \<Rightarrow> byte list" where
  "writeMCByteArray data = writeMCVarInt (int (length data)) @ data"

definition readMCByteArray :: "byte list \<Rightarrow> camo_err + byte list \<times> byte list" where
  "readMCByteArray r = ebind (readMCVarInt r) (\<lambda>(size, r).
     if size < 0 \<or> size > int (length r) then Inl ErrByteArraySize
     else read_full (nat size) r)"

definition mcPacketHead :: "byte list \<Rightarrow> camo_err + int \<times> byte list" where
  "mcPacketHead payload = readMCVarInt payload"

section \<open>Packets\<close>

definition mcStateStatus :: int where "mcStateStatus = 1"
definition mcStateLogin :: int where "mcStateLogin = 2"
definition mcIDHandshake :: int where "mcIDHandshake = 0"
definition mcIDStatusRequest :: int where "mcIDStatusRequest = 0"
definition mcIDStatusResponse :: int where "mcIDStatusResponse = 0"
definition mcIDPingRequest :: int where "mcIDPingRequest = 1"
definition mcIDPongResponse :: int where "mcIDPongResponse = 1"
definition mcIDLoginStart :: int where "mcIDLoginStart = 0"
definition mcIDEncryptionResponse :: int where "mcIDEncryptionResponse = 1"
definition mcIDLoginPluginResponse :: int where "mcIDLoginPluginResponse = 2"
definition mcIDDisconnect :: int where "mcIDDisconnect = 0"
definition mcIDEncryptionRequest :: int where "mcIDEncryptionRequest = 1"
definition mcIDLoginSuccess :: int where "mcIDLoginSuccess = 2"
definition mcIDLoginPluginRequest :: int where "mcIDLoginPluginRequest = 4"
definition defaultMCProtocol :: int where "defaultMCProtocol = 765"

definition encodeMCHandshake :: "int \<Rightarrow> byte list \<Rightarrow> 16 word \<Rightarrow> int \<Rightarrow> byte list" where
  "encodeMCHandshake protocolVersion serverHost serverPort nextState =
     writeMCVarInt mcIDHandshake @ writeMCVarInt protocolVersion @
     writeMCString serverHost @ be_put serverPort @ writeMCVarInt nextState"

definition decodeMCHandshake :: "byte list \<Rightarrow> int \<Rightarrow> camo_err + unit" where
  "decodeMCHandshake payload wantNextState =
     ebind (readMCVarInt payload) (\<lambda>(packetID, r).
     if packetID \<noteq> mcIDHandshake then Inl (ErrPacketID packetID) else
     ebind (readMCVarInt r) (\<lambda>(_, r).
     ebind (readMCString r) (\<lambda>(_, r).
     ebind (read_full 2 r) (\<lambda>(_, r).
     ebind (readMCVarInt r) (\<lambda>(nextState, r).
     if nextState \<noteq> wantNextState then Inl (ErrNextState nextState wantNextState)
     else if r \<noteq> [] then Inl (ErrTrailing ''handshake'')
     else Inr ())))))"

definition encodeMCStatusRequest :: "byte list" where
  "encodeMCStatusRequest = writeMCVarInt mcIDStatusRequest"

definition decodeMCStatusRequest :: "byte list \<Rightarrow> camo_err + unit" where
  "decodeMCStatusRequest payload = ebind (mcPacketHead payload) (\<lambda>(packetID, rest).
     if packetID \<noteq> mcIDStatusRequest then Inl (ErrPacketID packetID)
     else if rest \<noteq> [] then Inl (ErrTrailing ''status request'')
     else Inr ())"

definition encodeMCStatusResponse :: "byte list \<Rightarrow> byte list" where
  "encodeMCStatusResponse statusJSON = writeMCVarInt mcIDStatusResponse @ writeMCString statusJSON"

text \<open>The argument \<^term>\<open>json_Valid\<close> stands for json.Valid.\<close>

definition decodeMCStatusResponse :: "(byte list \<Rightarrow> bool) \<Rightarrow> byte list \<Rightarrow> camo_err + unit" where
  "decodeMCStatusResponse json_Valid payload = ebind (mcPacketHead payload) (\<lambda>(packetID, rest).
     if packetID \<noteq> mcIDStatusResponse then Inl (ErrPacketID packetID) else
     ebind (readMCString rest) (\<lambda>(body, r).
     if \<not> json_Valid body then Inl ErrNotJSON
     else if r \<noteq> [] then Inl (ErrTrailing ''status response'')
     else Inr ()))"

definition encodeMCPing :: "64 word \<Rightarrow> byte list" where
  "encodeMCPing timestamp = writeMCVarInt mcIDPingRequest @ be_put timestamp"

definition decodeMCPing :: "byte list \<Rightarrow> camo_err + 64 word" where
  "decodeMCPing payload = ebind (mcPacketHead payload) (\<lambda>(packetID, rest).
     if packetID \<noteq> mcIDPingRequest then Inl (ErrPacketID packetID)
     else if length rest \<noteq> 8 then Inl ErrPingSize
     else Inr (be_get rest))"

definition encodeMCPong :: "64 word \<Rightarrow> byte list" where
  "encodeMCPong timestamp = writeMCVarInt mcIDPongResponse @ be_put timestamp"

definition decodeMCPong :: "byte list \<Rightarrow> 64 word \<Rightarrow> camo_err + unit" where
  "decodeMCPong payload want = ebind (mcPacketHead payload) (\<lambda>(packetID, rest).
     if packetID \<noteq> mcIDPongResponse then Inl (ErrPacketID packetID)
     else if length rest \<noteq> 8 then Inl ErrPongSize
     else let got = be_get rest
          in if got \<noteq> want then Inl (ErrPongMismatch got want) else Inr ())"

definition encodeMCLoginStart :: "byte list \<Rightarrow> byte list" where
  "encodeMCLoginStart username = writeMCVarInt mcIDLoginStart @ writeMCString username"

definition decodeMCLoginStart :: "byte list \<Rightarrow> camo_err + byte list" where
  "decodeMCLoginStart payload = ebind (mcPacketHead payload) (\<lambda>(packetID, rest).
     if packetID \<noteq> mcIDLoginStart then Inl (ErrPacketID packetID) else
     ebind (readMCString rest) (\<lambda>(username, r).
     if length r \<noteq> 0 \<and> length r \<noteq> 16 then Inl (ErrTrailing ''login start'')
     else Inr username))"

record mcLoginPluginChallenge =
  challenge_channel :: "byte list"
  challenge_data :: "byte list"

definition encodeMCLoginPluginRequest :: "byte list \<Rightarrow> byte list \<Rightarrow> byte list" where
  "encodeMCLoginPluginRequest channel data =
     writeMCVarInt mcIDLoginPluginRequest @ writeMCString channel @ writeMCByteArray data"

definition decodeMCLoginPluginRequest :: "byte list \<Rightarrow> camo_err + mcLoginPluginChallenge" where
  "decodeMCLoginPluginRequest payload = ebind (mcPacketHead payload) (\<lambda>(packetID, rest).
     if packetID \<noteq> mcIDLoginPluginRequest then Inl (ErrPacketID packetID) else
     ebind (readMCString rest) (\<lambda>(channel, r).
     ebind (readMCByteArray r) (\<lambda>(data, r).
     if r \<noteq> [] then Inl (ErrTrailing ''login plugin request'')
     else Inr \<lparr>challenge_channel = channel, challenge_data = data\<rparr>)))"

definition encodeMCLoginPluginResponse :: "byte list \<Rightarrow> byte list \<Rightarrow> byte list" where
  "encodeMCLoginPluginResponse channel data =
     writeMCVarInt mcIDLoginPluginResponse @ writeMCString channel @ writeMCByteArray data"

definition decodeMCLoginPluginResponseBody :: "byte list \<Rightarrow> camo_err + byte list \<times> byte list" where
  "decodeMCLoginPluginResponseBody rest =
     ebind (readMCString rest) (\<lambda>(channel, r).
     ebind (readMCByteArray r) (\<lambda>(data, r).
     if r \<noteq> [] then Inl (ErrTrailing ''login plugin response'')
     else Inr (channel, data)))"

text \<open>
  The argument \<^term>\<open>md5\<close> stands for md5.Sum; the version and variant bits are
  set as in a name-based UUID.
\<close>

definition offlinePlayerUUID :: "(byte list \<Rightarrow> byte list) \<Rightarrow> byte list \<Rightarrow> byte list" where
  "offlinePlayerUUID md5 username =
     (let h = md5 (go_str ''OfflinePlayer:'' @ username);
          h = h[6 := (h ! 6 AND 0x0F) OR 0x30];
          h = h[8 := (h ! 8 AND 0x3F) OR 0x80]
      in h)"

definition encodeMCLoginStartUUID :: "(byte list \<Rightarrow> byte list) \<Rightarrow> byte list \<Rightarrow> byte list" where
  "encodeMCLoginStartUUID md5 username =
     writeMCVarInt mcIDLoginStart @ writeMCString username @ offlinePlayerUUID md5 username"

definition encodeMCLoginSuccess :: "(byte list \<Rightarrow> byte list) \<Rightarrow> byte list \<Rightarrow> byte list" where
  "encodeMCLoginSuccess md5 username =
     writeMCVarInt mcIDLoginSuccess @ offlinePlayerUUID md5 username @
     writeMCString username @ writeMCVarInt 0"

text \<open>
  The argument \<^term>\<open>chat_text\<close> stands for json.Unmarshal into a map followed by
  the lookup of a string under "text".
\<close>

definition decodeMCDisconnectMessage :: "(byte list \<Rightarrow> byte list option) \<Rightarrow> byte list \<Rightarrow> byte list" where
  "decodeMCDisconnectMessage chat_text rest =
     (case readMCString rest of
        Inl _ \<Rightarrow> go_str ''disconnect''
      | Inr (s, _) \<Rightarrow>
          if s = [] then go_str ''disconnect''
          else case chat_text s of
                 Some t \<Rightarrow> if t \<noteq> [] then t else s
               | None \<Rightarrow> s)"

definition decodeMCLoginSuccess ::
    "(byte list \<Rightarrow> byte list option) \<Rightarrow> byte list \<Rightarrow> byte list \<Rightarrow> camo_err + unit" where
  "decodeMCLoginSuccess chat_text payload wantUsername =
     ebind (mcPacketHead payload) (\<lambda>(packetID, rest).
     if packetID \<noteq> mcIDLoginSuccess then
       (if packetID = mcIDDisconnect
        then Inl (ErrServerRejected (decodeMCDisconnectMessage chat_text rest))
        else Inl (ErrPacketID packetID)) else
     ebind (read_full 16 rest) (\<lambda>(_, r).
     ebind (readMCString r) (\<lambda>(username, r).
     if username \<noteq> wantUsername then Inl (ErrUsername username) else
     ebind (readMCVarInt r) (\<lambda>(propCount, r).
     if propCount \<noteq> 0 then Inl (ErrPropCount propCount)
     else if r \<noteq> [] then Inl (ErrTrailing ''login success'')
     else Inr ()))))"

text \<open>The argument \<^term>\<open>json_text\<close> stands for json.Marshal of a map with the one key "text".\<close>

definition encodeMCDisconnect :: "(byte list \<Rightarrow> byte list) \<Rightarrow> byte list \<Rightarrow> byte list" where
  "encodeMCDisconnect json_text message =
     writeMCVarInt mcIDDisconnect @ writeMCString (json_text message)"

definition validatePluginChannel :: "byte list \<Rightarrow> byte list \<Rightarrow> camo_err + unit" where
  "validatePluginChannel got want =
     (if got \<noteq> want then Inl (ErrPluginChannel got want) else Inr ())"

section \<open>Round trips\<close>

declare putVarInt.simps [simp del]

lemma high_bits_zero_iff: "u AND NOT 0x7F = 0 \<longleftrightarrow> unat u < 128" for u :: "32 word"
proof -
  have "u AND NOT 0x7F = 0 \<longleftrightarrow> unat (u AND 0x7F) = unat u"
  proof
    assume *: "u AND NOT 0x7F = 0"
    have "u = (u AND 0x7F) OR (u AND NOT 0x7F)" by (rule bit_word_eqI) (auto simp: bit_simps)
    with * show "unat (u AND 0x7F) = unat u" by simp
  next
    assume "unat (u AND 0x7F) = unat u"
    then have "u = u AND 0x7F" by (simp only: word_unat_eq_iff)
    then have "u AND NOT 0x7F = (u AND 0x7F) AND NOT 0x7F" by (rule arg_cong)
    then show "u AND NOT 0x7F = 0" by (simp add: and.assoc)
  qed
  also have "unat (u AND 0x7F) = unat u mod 128"
    using unat_and_mask [of u 7] by (simp add: mask_eq_exp_minus_1)
  finally show ?thesis by (metis mod_less mod_less_divisor zero_less_numeral)
qed

lemma putVarInt_last: "unat u < 128 \<Longrightarrow> putVarInt u = [ucast u]"
  by (subst putVarInt.simps, subst high_bits_zero_iff) simp

lemma putVarInt_more:
  "128 \<le> unat u \<Longrightarrow> putVarInt u = ucast (u AND 0x7F OR 0x80) # putVarInt (drop_bit 7 u)"
  by (subst putVarInt.simps, subst high_bits_zero_iff) simp

lemma length_putVarInt:
  "unat u < 2 ^ (7 * Suc n) \<Longrightarrow> length (putVarInt u) \<le> Suc n"
proof (induction n arbitrary: u)
  case 0
  then show ?case by (simp add: putVarInt_last)
next
  case (Suc n)
  show ?case
  proof (cases "unat u < 128")
    case True
    then show ?thesis by (simp add: putVarInt_last)
  next
    case False
    have "unat u < 128 * 2 ^ (7 * Suc n)" using Suc.prems by (simp add: power_add)
    then have "unat (drop_bit 7 u) < 2 ^ (7 * Suc n)"
      by (simp add: unat_drop_bit_div less_mult_imp_div_less mult.commute)
    from Suc.IH [OF this] False show ?thesis by (simp add: putVarInt_more)
  qed
qed

lemma length_putVarInt_5: "length (putVarInt u) \<le> 5"
proof -
  have "unat u < 2 ^ 32" using unsigned_less [of u] by simp
  also have "(2::nat) ^ 32 < 2 ^ (7 * Suc 4)" by simp
  finally show ?thesis using length_putVarInt [of u 4] by simp
qed

lemma length_writeMCVarInt: "length (writeMCVarInt v) \<le> 5"
  by (simp add: writeMCVarInt_def length_putVarInt_5)

lemma int_or_push_bit:
  fixes a b :: int
  assumes "0 \<le> a" "a < 2 ^ n"
  shows "a OR push_bit n b = a + b * 2 ^ n"
proof -
  have "take_bit n a = a" using assms by (simp add: take_bit_int_eq_self)
  then have "\<not> bit a k" if "n \<le> k" for k using that by (metis bit_take_bit_iff not_le)
  then have "a AND push_bit n b = 0"
    by (intro bit_eqI) (auto simp: bit_simps not_le)
  then have "a + push_bit n b = a OR push_bit n b"
    by (simp add: plus_and_or [symmetric, of a "push_bit n b"])
  then show ?thesis by (simp add: push_bit_eq_mult)
qed


lemma uint_low7: "uint (ucast (u AND 0x7F OR 0x80) AND 0x7F :: byte) = uint u mod 128"
  and flag_more: "(ucast (u AND 0x7F OR 0x80) :: byte) AND 0x80 \<noteq> 0" for u :: "32 word"
proof -
  have "ucast (u AND 0x7F OR 0x80) AND 0x7F = (ucast (u AND 0x7F) :: byte)"
    by (rule bit_word_eqI) (auto simp: bit_simps less_Suc_eq numeral_eq_Suc)
  moreover have "unat (u AND 0x7F) = unat u mod 128"
    using unat_and_mask [of u 7] by (simp add: mask_eq_exp_minus_1)
  then have "uint (u AND 0x7F) = uint u mod 128"
    by (simp only: uint_nat zmod_int of_nat_numeral)
  ultimately show "uint (ucast (u AND 0x7F OR 0x80) AND 0x7F :: byte) = uint u mod 128"
    by (simp add: unsigned_ucast_eq take_bit_eq_mod)
  have "bit ((ucast (u AND 0x7F OR 0x80) :: byte) AND 0x80) 7"
    by (simp add: bit_simps)
  then show "(ucast (u AND 0x7F OR 0x80) :: byte) AND 0x80 \<noteq> 0" by (metis bit_0_eq bot_apply bot_bool_def)
qed

lemma and_low7: "unat u < 128 \<Longrightarrow> u AND 0x7F = u" for u :: "32 word"
  using unat_and_mask [of u 7] by (simp add: mask_eq_exp_minus_1 word_unat_eq_iff)

lemma last_byte:
  fixes u :: "32 word"
  assumes "unat u < 128"
  shows "uint (ucast u AND 0x7F :: byte) = uint u" "(ucast u :: byte) AND 0x80 = 0"
proof -
  have 1: "ucast u AND 0x7F = (ucast (u AND 0x7F) :: byte)"
    by (rule bit_word_eqI) (auto simp: bit_simps)
  have "int (unat u) < 128" using assms by linarith
  then have "uint u < 128" by simp
  then have "uint (ucast u :: byte) = uint u" by (simp add: unsigned_ucast_eq take_bit_eq_mod)
  then show "uint (ucast u AND 0x7F :: byte) = uint u"
    by (simp only: 1 and_low7 [OF assms])
  have "\<not> bit (u AND 0x7F) 7" by (simp add: bit_simps)
  then have "\<not> bit u 7" by (simp only: and_low7 [OF assms]) simp
  then show "(ucast u :: byte) AND 0x80 = 0"
    using and_exp_eq_0_iff_not_bit [of "ucast u :: byte" 7] by (simp add: bit_simps)
qed

lemma septet_bound: "\<lbrakk>acc < p; m < 128\<rbrakk> \<Longrightarrow> acc + m * p < 128 * p" if "0 \<le> acc" for acc p m :: int
proof -
  assume "acc < p" "m < 128"
  then have "m * p \<le> 127 * p" using that by (intro mult_right_mono) simp_all
  with \<open>acc < p\<close> show ?thesis by linarith
qed

lemma septet_split: "a mod 128 * p + a div 128 * (128 * p) = a * p" for a p :: int
proof -
  have "a mod 128 * p + a div 128 * (128 * p) = (a mod 128 + a div 128 * 128) * p"
    by (simp only: distrib_right mult.assoc)
  then show ?thesis by simp
qed

lemma getVarInt_put:
  "\<lbrakk>0 \<le> acc; acc < 2 ^ (7 * k); k + length (putVarInt u) \<le> 6\<rbrakk>
    \<Longrightarrow> getVarInt k acc (putVarInt u @ rest) = Inr (acc + uint u * 2 ^ (7 * k), rest)"
proof (induction u arbitrary: k acc rule: putVarInt.induct)
  case (1 u)
  show ?case
  proof (cases "unat u < 128")
    case True
    with 1(4) show ?thesis
      by (simp add: putVarInt_last last_byte int_or_push_bit 1(2,3))
  next
    case False
    let ?b = "ucast (u AND 0x7F OR 0x80) :: byte"
    let ?acc = "acc + uint u mod 128 * 2 ^ (7 * k)"
    from False have put: "putVarInt u = ?b # putVarInt (drop_bit 7 u)" by (simp add: putVarInt_more)
    have len: "Suc k + length (putVarInt (drop_bit 7 u)) \<le> 6" using 1(4) put by simp
    have step: "getVarInt k acc (putVarInt u @ rest) = getVarInt (Suc k) ?acc (putVarInt (drop_bit 7 u) @ rest)"
      using len flag_more [of u]
      by (simp add: put uint_low7 int_or_push_bit 1(2,3) Let_def)
    have bound: "?acc < 2 ^ (7 * Suc k)"
      using septet_bound [OF 1(2,3), of "uint u mod 128"] by (simp add: power_add)
    have q: "uint (drop_bit 7 u) = uint u div 128"
      by (simp only: uint_nat unat_drop_bit_div zdiv_int) simp
    have nz: "u AND NOT 0x7F \<noteq> 0" using False by (subst high_bits_zero_iff)
    have "0 \<le> ?acc" using 1(2) by simp
    from 1(1) [OF nz this bound len] show ?thesis
      by (simp only: step q) (use septet_split [of "uint u" "2 ^ (7 * k)"] in \<open>simp add: power_add\<close>)
  qed
qed

lemma readMCVarInt_write [simp]:
  "readMCVarInt (writeMCVarInt v @ rest) = Inr (v mod 2 ^ 32, rest)"
  using getVarInt_put [of 0 0 "word_of_int v" rest] length_putVarInt_5 [of "word_of_int v"]
  by (simp add: readMCVarInt_def writeMCVarInt_def uint_word_of_int)

lemma getVarInt_bound:
  "\<lbrakk>getVarInt k acc r = Inr (v, r'); 0 \<le> acc; acc < 2 ^ (7 * k)\<rbrakk>
    \<Longrightarrow> 0 \<le> v \<and> v < 2 ^ 42 \<and> (\<exists>p. r = p @ r')"
proof (induction k acc r rule: getVarInt.induct)
  case (2 k acc b r)
  let ?acc = "acc + uint (b AND 0x7F) * 2 ^ (7 * k)"
  have "int (unat (b AND 0x7F)) < 128"
    using unat_and_mask [of b 7] by (simp add: mask_eq_exp_minus_1 del: of_nat_unat)
  then have "uint (b AND 0x7F) < 128" by simp
  with 2 have step: "acc OR push_bit (7 * k) (uint (b AND 0x7F)) = ?acc" "0 \<le> ?acc" "?acc < 2 ^ (7 * Suc k)"
    using septet_bound [of acc "2 ^ (7 * k)" "uint (b AND 0x7F)"]
    by (simp_all add: int_or_push_bit power_add)
  from 2(2) have k: "k \<le> 5" by (simp split: if_splits)
  have "(2::int) ^ (7 * Suc k) \<le> 2 ^ 42" using k by (intro power_increasing) simp_all
  with 2 step k show ?case
    by (auto simp: Let_def split: if_splits)
qed (simp split: if_splits)

lemma readMCVarInt_bound:
  "readMCVarInt r = Inr (v, r') \<Longrightarrow> 0 \<le> v \<and> v < 2 ^ 42 \<and> (\<exists>p. r = p @ r')"
  using getVarInt_bound [of 0 0 r v r'] by (simp add: readMCVarInt_def)

lemma readMCVarInt_write_nil [simp]: "readMCVarInt (writeMCVarInt v) = Inr (v mod 2 ^ 32, [])"
  using readMCVarInt_write [of v "[]"] by simp

lemma read_full_append [simp]: "length a = n \<Longrightarrow> read_full n (a @ r) = Inr (a, r)"
  by (simp add: read_full_def)

lemma readMCString_write [simp]:
  "length s < 2 ^ 32 \<Longrightarrow> readMCString (writeMCString s @ r) = Inr (s, r)"
  by (simp add: readMCString_def writeMCString_def)

lemma readMCByteArray_write [simp]:
  "length s < 2 ^ 32 \<Longrightarrow> readMCByteArray (writeMCByteArray s @ r) = Inr (s, r)"
  by (simp add: readMCByteArray_def writeMCByteArray_def)

lemma read_write_nil [simp]:
  "length s < 2 ^ 32 \<Longrightarrow> readMCString (writeMCString s) = Inr (s, [])"
  "length s < 2 ^ 32 \<Longrightarrow> readMCByteArray (writeMCByteArray s) = Inr (s, [])"
  using readMCString_write [of s "[]"] readMCByteArray_write [of s "[]"] by simp_all

lemma length_offlinePlayerUUID [simp]:
  "length (offlinePlayerUUID md5 u) = length (md5 (go_str ''OfflinePlayer:'' @ u))"
  by (simp add: offlinePlayerUUID_def Let_def)

lemmas mc_ids =
  mcStateStatus_def mcStateLogin_def mcIDHandshake_def mcIDStatusRequest_def mcIDStatusResponse_def
  mcIDPingRequest_def mcIDPongResponse_def mcIDLoginStart_def mcIDEncryptionResponse_def
  mcIDLoginPluginResponse_def mcIDDisconnect_def mcIDEncryptionRequest_def mcIDLoginSuccess_def
  mcIDLoginPluginRequest_def defaultMCProtocol_def

lemma handshake_roundtrip:
  "\<lbrakk>length host < 2 ^ 32; 0 \<le> st; st < 2 ^ 32\<rbrakk>
    \<Longrightarrow> decodeMCHandshake (encodeMCHandshake v host port st) st = Inr ()"
  by (simp add: decodeMCHandshake_def encodeMCHandshake_def mc_ids)

lemma status_roundtrip:
  "decodeMCStatusRequest encodeMCStatusRequest = Inr ()"
  "\<lbrakk>length j < 2 ^ 32; json_Valid j\<rbrakk> \<Longrightarrow> decodeMCStatusResponse json_Valid (encodeMCStatusResponse j) = Inr ()"
  by (simp_all add: decodeMCStatusRequest_def encodeMCStatusRequest_def mcPacketHead_def
      decodeMCStatusResponse_def encodeMCStatusResponse_def mc_ids)

lemma ping_roundtrip:
  "decodeMCPing (encodeMCPing t) = Inr t"
  "decodeMCPong (encodeMCPong t) t = Inr ()"
  by (simp_all add: decodeMCPing_def encodeMCPing_def decodeMCPong_def encodeMCPong_def
      mcPacketHead_def mc_ids)

lemma login_start_roundtrip:
  "length u < 2 ^ 32 \<Longrightarrow> decodeMCLoginStart (encodeMCLoginStart u) = Inr u"
  "\<lbrakk>length u < 2 ^ 32; \<And>x. length (md5 x) = 16\<rbrakk>
    \<Longrightarrow> decodeMCLoginStart (encodeMCLoginStartUUID md5 u) = Inr u"
  by (simp_all add: decodeMCLoginStart_def encodeMCLoginStart_def encodeMCLoginStartUUID_def
      mcPacketHead_def mc_ids)

lemma plugin_roundtrip:
  "\<lbrakk>length ch < 2 ^ 32; length d < 2 ^ 32\<rbrakk> \<Longrightarrow>
     decodeMCLoginPluginRequest (encodeMCLoginPluginRequest ch d)
       = Inr \<lparr>challenge_channel = ch, challenge_data = d\<rparr>"
  "\<lbrakk>length ch < 2 ^ 32; length d < 2 ^ 32\<rbrakk> \<Longrightarrow>
     mcPacketHead (encodeMCLoginPluginResponse ch d)
       = Inr (mcIDLoginPluginResponse, writeMCString ch @ writeMCByteArray d) \<and>
     decodeMCLoginPluginResponseBody (writeMCString ch @ writeMCByteArray d) = Inr (ch, d)"
  by (simp_all add: decodeMCLoginPluginRequest_def encodeMCLoginPluginRequest_def
      encodeMCLoginPluginResponse_def decodeMCLoginPluginResponseBody_def mcPacketHead_def mc_ids)

lemma login_success_roundtrip:
  "\<lbrakk>length u < 2 ^ 32; \<And>x. length (md5 x) = 16\<rbrakk>
    \<Longrightarrow> decodeMCLoginSuccess chat_text (encodeMCLoginSuccess md5 u) u = Inr ()"
  by (simp add: decodeMCLoginSuccess_def encodeMCLoginSuccess_def mcPacketHead_def mc_ids)

lemma login_success_disconnect:
  "\<lbrakk>length (json_text m) < 2 ^ 32; json_text m \<noteq> []; chat_text (json_text m) = Some m; m \<noteq> []\<rbrakk>
    \<Longrightarrow> decodeMCLoginSuccess chat_text (encodeMCDisconnect json_text m) u = Inl (ErrServerRejected m)"
  by (simp add: decodeMCLoginSuccess_def encodeMCDisconnect_def mcPacketHead_def
      decodeMCDisconnectMessage_def mc_ids)

lemma getVarInt_errors:
  "getVarInt k acc r = Inl e \<Longrightarrow> k \<le> 6 \<Longrightarrow>
     e = (if length r < 6 - k then ErrEOF else ErrVarintTooLong) \<and>
     (\<forall>b \<in> set (take (6 - k) r). b AND 0x80 \<noteq> 0)"
proof (induction k acc r rule: getVarInt.induct)
  case (2 k acc b r)
  have "6 - k = Suc (5 - k)" if "k \<le> 5" using that by simp
  with 2 show ?case
    by (cases "k \<le> 5") (auto simp: Let_def split: if_splits)
qed (auto split: if_splits)

lemma getVarInt_consumes:
  "getVarInt k acc r = Inr (v, r') \<Longrightarrow> k \<le> 6 \<Longrightarrow>
     \<exists>p b. r = p @ b # r' \<and> length p + k < 6 \<and> b AND 0x80 = 0 \<and> (\<forall>c \<in> set p. c AND 0x80 \<noteq> 0)"
proof (induction k acc r rule: getVarInt.induct)
  case (2 k acc b r)
  show ?case
  proof (cases "b AND 0x80 = 0")
    case True
    with 2 show ?thesis by (intro exI [of _ "[]"]) (auto simp: Let_def split: if_splits)
  next
    case False
    with 2(2) have "k \<le> 5"
      "getVarInt (k + 1) (acc OR push_bit (7 * k) (uint (b AND 0x7F))) r = Inr (v, r')"
      by (auto simp: Let_def split: if_splits)
    with 2(1) False obtain p c where "r = p @ c # r'" "length p + (k + 1) < 6" "c AND 0x80 = 0"
      "\<forall>c \<in> set p. c AND 0x80 \<noteq> 0"
      by (auto simp: not_less)
    with False show ?thesis by (intro exI [of _ "b # p"] exI [of _ c]) auto
  qed
qed (simp split: if_splits)

section \<open>Properties\<close>


text \<open>
  C23. Every packet of the camouflage protocol is decoded to what was encoded:
  handshakes, status requests and responses, pings and pongs, login starts with
  and without a UUID, plugin requests and responses and login successes, for
  strings and byte arrays of any length a 32-bit size can announce, any JSON
  validity test that accepts the status text and any 16-byte digest; a
  disconnect packet is reported as a rejection with its message.\<close>

theorem mc_packets_roundtrip:
  assumes md5_size: "\<And>x. length (md5 x) = 16"
    and sizes: "length s < 2 ^ 32" "length d < 2 ^ 32" "length (json_text m) < 2 ^ 32"
    and state: "0 \<le> st" "st < 2 ^ 32"
    and valid: "json_Valid s"
    and chat: "json_text m \<noteq> []" "chat_text (json_text m) = Some m" "m \<noteq> []"
  shows "decodeMCHandshake (encodeMCHandshake v s port st) st = Inr () \<and>
    decodeMCStatusRequest encodeMCStatusRequest = Inr () \<and>
    decodeMCStatusResponse json_Valid (encodeMCStatusResponse s) = Inr () \<and>
    decodeMCPing (encodeMCPing t) = Inr t \<and>
    decodeMCPong (encodeMCPong t) t = Inr () \<and>
    decodeMCLoginStart (encodeMCLoginStart s) = Inr s \<and>
    decodeMCLoginStart (encodeMCLoginStartUUID md5 s) = Inr s \<and>
    decodeMCLoginPluginRequest (encodeMCLoginPluginRequest s d)
           = Inr \<lparr>challenge_channel = s, challenge_data = d\<rparr> \<and>
    (ebind (mcPacketHead (encodeMCLoginPluginResponse s d))
           (\<lambda>(i, rest). decodeMCLoginPluginResponseBody rest) = Inr (s, d)) \<and>
    decodeMCLoginSuccess chat_text (encodeMCLoginSuccess md5 s) s = Inr () \<and>
    decodeMCLoginSuccess chat_text (encodeMCDisconnect json_text m) s = Inl (ErrServerRejected m)"
  using assms
  by (simp add: handshake_roundtrip status_roundtrip ping_roundtrip login_start_roundtrip
      plugin_roundtrip login_success_roundtrip login_success_disconnect)

theorem mc_packets_roundtrip_witness:
  "decodeMCHandshake (encodeMCHandshake 765 (go_str ''a'') 25565 1) 1 = Inr () \<and>
   decodeMCLoginStart (encodeMCLoginStart (go_str ''a'')) = Inr (go_str ''a'') \<and>
   decodeMCLoginSuccess Some (encodeMCLoginSuccess (\<lambda>_. replicate 16 0) (go_str ''a'')) (go_str ''a'') = Inr () \<and>
   decodeMCLoginSuccess Some (encodeMCDisconnect id (go_str ''no'')) (go_str ''a'')
     = Inl (ErrServerRejected (go_str ''no''))"
  using mc_packets_roundtrip [of "\<lambda>_. replicate 16 0" "go_str ''a''" "[]" id "go_str ''no''" 1
      "\<lambda>_. True" Some 765 25565 0]
  by (simp add: go_str_def)

end
