(* ===== verification/Conn_IO.thy ===== *)
theory Conn_IO
  imports Mc_Codec
begin

text \<open>
  One endpoint's view of a TCP connection, as the transport uses it through
  net.Conn (wireguard/conn/tcp_bind.go, camo_secure.go): the bytes the peer
  delivers before the deadline or the close, the bytes written so far, how much
  the peer still accepts, and the keystreams of secureConn when the stream is
  encrypted.  The process's random source is part of the same state.
  Operations run in a state monad whose results are errors or values; iobind is
  the test of err after each call.  io.ReadFull only depends on the bytes that
  arrive; a bare conn.Read also depends on how they are split, which
  \<open>c_sched\<close> fixes.
\<close>

named_theorems io_simps \<open>one-step execution of connection operations\<close>

section \<open>The connection\<close>

text \<open>A cipher.Stream: the keystream and the position reached in it.\<close>

record cstream =
  st_ks :: "nat \<Rightarrow> byte"
  st_pos :: nat

record conn =
  c_in :: "byte list"
  c_out :: "byte list"
  c_wcap :: "nat option"
  c_sched :: "nat list"
  c_rand :: "byte list"
  c_armed :: bool
  c_closed :: bool
  c_rd :: "cstream option"
  c_wr :: "cstream option"

text \<open>XORKeyStream from a position of the keystream on.\<close>

definition xor_at :: "(nat \<Rightarrow> byte) \<Rightarrow> nat \<Rightarrow> byte list \<Rightarrow> byte list" where
  "xor_at ks p bs = map2 (XOR) bs (map ks [p..<p + length bs])"

definition st_xor :: "cstream option \<Rightarrow> byte list \<Rightarrow> byte list" where
  "st_xor s bs = (case s of None \<Rightarrow> bs | Some s \<Rightarrow> xor_at (st_ks s) (st_pos s) bs)"

definition st_skip :: "nat \<Rightarrow> cstream option \<Rightarrow> cstream option" where
  "st_skip n = map_option (\<lambda>s. s\<lparr>st_pos := st_pos s + n\<rparr>)"

text \<open>The input that has not been read, as the reader will see it.\<close>

definition pending :: "conn \<Rightarrow> byte list" where
  "pending c = st_xor (c_rd c) (c_in c)"

definition advance :: "nat \<Rightarrow> conn \<Rightarrow> conn" where
  "advance n c = c\<lparr>c_in := drop n (c_in c), c_rd := st_skip n (c_rd c)\<rparr>"

definition emit :: "byte list \<Rightarrow> conn \<Rightarrow> conn" where
  "emit bs c = c\<lparr>c_out := c_out c @ st_xor (c_wr c) bs, c_wr := st_skip (length bs) (c_wr c)\<rparr>"

section \<open>Results with errors\<close>

type_synonym 'a io = "(conn, camo_err + 'a) state"

definition ioret :: "'a \<Rightarrow> 'a io" where "ioret a = State_Monad.return (Inr a)"
definition iofail :: "camo_err \<Rightarrow> 'a io" where "iofail e = State_Monad.return (Inl e)"
definition iolift :: "camo_err + 'a \<Rightarrow> 'a io" where "iolift r = State_Monad.return r"

definition iobind :: "'a io \<Rightarrow> ('a \<Rightarrow> 'b io) \<Rightarrow> 'b io" where
  "iobind m k = do {
     r \<leftarrow> m;
     case r of Inl e \<Rightarrow> State_Monad.return (Inl e) | Inr a \<Rightarrow> k a }"

text \<open>fmt.Errorf("context: %w", err).\<close>

definition wrap :: "string \<Rightarrow> camo_err + 'a \<Rightarrow> camo_err + 'a" where
  "wrap what r = (case r of Inl e \<Rightarrow> Inl (ErrWrap what e) | Inr a \<Rightarrow> Inr a)"

definition iowrap :: "string \<Rightarrow> 'a io \<Rightarrow> 'a io" where
  "iowrap what m = do { r \<leftarrow> m; State_Monad.return (wrap what r) }"

section \<open>Operations\<close>

definition conn_SetDeadline :: "bool \<Rightarrow> unit io" where
  "conn_SetDeadline on = do {
     c \<leftarrow> State_Monad.get;
     if c_closed c then iofail ErrClosed
     else do { State_Monad.set (c\<lparr>c_armed := on\<rparr>); ioret () } }"

text \<open>SetDeadline, then the body, then the deferred SetDeadline(time.Time{}).\<close>

definition with_deadline :: "'a io \<Rightarrow> 'a io" where
  "with_deadline m = iobind (conn_SetDeadline True) (\<lambda>_. do {
     r \<leftarrow> m;
     _ \<leftarrow> conn_SetDeadline False;
     State_Monad.return r })"

definition conn_Write :: "byte list \<Rightarrow> conn \<Rightarrow> (nat \<times> camo_err option) \<times> conn" where
  "conn_Write p c =
     (if c_closed c then ((0, Some ErrClosed), c)
      else case c_wcap c of
        None \<Rightarrow> ((length p, None), emit p c)
      | Some k \<Rightarrow>
          if length p \<le> k then ((length p, None), (emit p c)\<lparr>c_wcap := Some (k - length p)\<rparr>)
          else ((k, Some ErrWrite),
                c\<lparr>c_out := c_out c @ take k (st_xor (c_wr c) p),
                  c_wr := st_skip (length p) (c_wr c), c_wcap := Some 0\<rparr>))"

function writeAll_loop :: "byte list \<Rightarrow> conn \<Rightarrow> (camo_err + unit) \<times> conn" where
  "writeAll_loop data c =
     (if data = [] then (Inr (), c)
      else case conn_Write data c of
        ((n, Some e), c') \<Rightarrow> (Inl e, c')
      | ((n, None), c') \<Rightarrow>
          if n = 0 then (Inl ErrUnexpectedEOF, c')
          else writeAll_loop (drop n data) c')"
  by pat_completeness auto

termination writeAll_loop
  by (relation "measure (\<lambda>(d, c). length d)") auto

definition writeAll :: "byte list \<Rightarrow> unit io" where
  "writeAll data = State (writeAll_loop data)"

definition io_ReadFull :: "nat \<Rightarrow> byte list io" where
  "io_ReadFull n = do {
     c \<leftarrow> State_Monad.get;
     if n = 0 then ioret []
     else if c_closed c then iofail ErrClosed
     else if n \<le> length (c_in c) then
       do { State_Monad.set (advance n c); ioret (take n (pending c)) }
     else do { State_Monad.set (advance (length (c_in c)) c);
               iofail (if c_in c = [] then ErrEOF else ErrUnexpectedEOF) } }"

text \<open>
  conn.Read into a buffer of n bytes: at least one byte and at most n, how many
  depends on what has arrived.
\<close>

definition conn_Read :: "nat \<Rightarrow> byte list io" where
  "conn_Read n = do {
     c \<leftarrow> State_Monad.get;
     if c_closed c then iofail ErrClosed
     else if c_in c = [] then iofail ErrEOF
     else let avail = (case c_sched c of [] \<Rightarrow> length (c_in c) | a # _ \<Rightarrow> max 1 (min a (length (c_in c))));
              k = min n avail
          in do { State_Monad.set ((advance k c)\<lparr>c_sched := tl (c_sched c)\<rparr>);
                  ioret (take k (pending c)) } }"

text \<open>crypto/rand.Read of n bytes.\<close>

definition rand_Read :: "nat \<Rightarrow> byte list io" where
  "rand_Read n = do {
     c \<leftarrow> State_Monad.get;
     if length (c_rand c) < n then iofail ErrRand
     else do { State_Monad.set (c\<lparr>c_rand := drop n (c_rand c)\<rparr>); ioret (take n (c_rand c)) } }"

section \<open>Minecraft packets on a connection\<close>

definition writeMCPacket :: "byte list \<Rightarrow> unit io" where
  "writeMCPacket payload = writeAll (writeMCVarInt (int (length payload)) @ payload)"

function varIntFromConn :: "nat \<Rightarrow> int \<Rightarrow> int io" where
  "varIntFromConn numRead result =
     (if numRead > 5 then iofail ErrVarintTooLong
      else iobind (io_ReadFull 1) (\<lambda>one.
        let b = hd one; result = result OR push_bit (7 * numRead) (uint (b AND 0x7F))
        in if b AND 0x80 = 0 then ioret result
           else varIntFromConn (numRead + 1) result))"
  by pat_completeness auto

termination varIntFromConn
  by (relation "measure (\<lambda>(n, r). 6 - n)") auto

definition readMCVarIntFromConn :: "int io" where
  "readMCVarIntFromConn = varIntFromConn 0 0"

definition readMCPacket :: "byte list io" where
  "readMCPacket = iobind readMCVarIntFromConn (\<lambda>size.
     if size < 0 \<or> size > 2 ^ 20 then iofail (ErrPacketSize size)
     else io_ReadFull (nat size))"

section \<open>Reasoning\<close>

lemma length_xor_at [simp]: "length (xor_at ks p bs) = length bs"
  by (simp add: xor_at_def)

lemma nth_xor_at: "i < length bs \<Longrightarrow> xor_at ks p bs ! i = bs ! i XOR ks (p + i)"
  by (simp add: xor_at_def)

lemma xor_at_twice [simp]: "xor_at ks p (xor_at ks p bs) = bs"
  by (rule nth_equalityI) (simp_all add: nth_xor_at xor.assoc)

lemma xor_at_append: "xor_at ks p (a @ b) = xor_at ks p a @ xor_at ks (p + length a) b"
  by (rule nth_equalityI) (auto simp: nth_xor_at nth_append)

lemma take_xor_at: "take n (xor_at ks p bs) = xor_at ks p (take n bs)"
  by (rule nth_equalityI) (auto simp: nth_xor_at)

lemma drop_xor_at: "drop n (xor_at ks p bs) = xor_at ks (p + n) (drop n bs)"
  by (rule nth_equalityI) (auto simp: nth_xor_at add.assoc)

lemma xor_at_Nil [simp]: "xor_at ks p [] = []"
  by (simp add: xor_at_def)

lemma st_xor_simps [simp]: "length (st_xor s bs) = length bs" "st_xor None bs = bs" "st_xor s [] = []"
  by (simp_all add: st_xor_def split: option.split)

lemma st_xor_append: "st_xor s (a @ b) = st_xor s a @ st_xor (st_skip (length a) s) b"
  by (cases s) (simp_all add: st_xor_def st_skip_def xor_at_append)

lemma st_skip_simps [simp]:
  "st_skip n None = None" "st_skip 0 s = s" "st_skip n (st_skip m s) = st_skip (m + n) s"
  by (cases s; simp add: st_skip_def)+

lemma length_pending [simp]: "length (pending c) = length (c_in c)"
  by (simp add: pending_def)

lemma pending_advance [simp]: "pending (advance n c) = drop n (pending c)"
  by (cases "c_rd c") (simp_all add: pending_def advance_def st_xor_def st_skip_def drop_xor_at)

lemma emit_append: "emit b (emit a c) = emit (a @ b) c"
  by (simp add: emit_def st_xor_append)

lemma emit_Nil [simp]: "emit [] c = c"
  by (cases c) (simp add: emit_def)

lemma advance_0 [simp]: "advance 0 c = c"
  by (cases c) (simp add: advance_def)

lemma advance_advance [simp]: "advance n (advance m c) = advance (m + n) c"
  by (simp add: advance_def add.commute)

lemma advance_fields [simp]:
  "c_out (advance n c) = c_out c" "c_wcap (advance n c) = c_wcap c"
  "c_rand (advance n c) = c_rand c" "c_closed (advance n c) = c_closed c"
  "c_armed (advance n c) = c_armed c" "c_wr (advance n c) = c_wr c"
  "c_in (advance n c) = drop n (c_in c)" "c_rd (advance n c) = st_skip n (c_rd c)"
  "c_sched (advance n c) = c_sched c"
  by (simp_all add: advance_def)

lemma emit_fields [simp]:
  "c_in (emit b c) = c_in c" "c_wcap (emit b c) = c_wcap c" "c_rand (emit b c) = c_rand c"
  "c_closed (emit b c) = c_closed c" "c_armed (emit b c) = c_armed c" "c_rd (emit b c) = c_rd c"
  "c_out (emit b c) = c_out c @ st_xor (c_wr c) b" "c_wr (emit b c) = st_skip (length b) (c_wr c)"
  "c_sched (emit b c) = c_sched c" "pending (emit b c) = pending c"
  by (simp_all add: emit_def pending_def)

lemma run_io [io_simps]:
  "run_state (ioret a) c = (Inr a, c)"
  "run_state (iofail e) c = (Inl e, c)"
  "run_state (iolift r) c = (r, c)"
  "run_state (iowrap w m) c = (case run_state m c of (r, c') \<Rightarrow> (wrap w r, c'))"
  by (simp_all add: ioret_def iofail_def iolift_def iowrap_def)

lemma run_iobind:
  "run_state (iobind m k) c =
     (case run_state m c of (Inl e, c') \<Rightarrow> (Inl e, c') | (Inr a, c') \<Rightarrow> run_state (k a) c')"
  by (auto simp: iobind_def split: prod.split sum.split)

lemma run_iobind_Inr [io_simps]:
  "run_state m c = (Inr a, c') \<Longrightarrow> run_state (iobind m k) c = run_state (k a) c'"
  and run_iobind_Inl [io_simps]:
  "run_state m c = (Inl e, c') \<Longrightarrow> run_state (iobind m k) c = (Inl e, c')"
  by (simp_all add: run_iobind)

lemma wrap_simps [simp]: "wrap w (Inr a) = Inr a" "wrap w (Inl e) = Inl (ErrWrap w e)"
  by (simp_all add: wrap_def)

declare writeAll_loop.simps [simp del] varIntFromConn.simps [simp del]

text \<open>A connection that is open and whose peer reads everything.\<close>

definition flowing :: "conn \<Rightarrow> bool" where
  "flowing c \<longleftrightarrow> \<not> c_closed c \<and> c_wcap c = None"

lemma flowing_simps [simp]:
  "flowing (advance n c) = flowing c" "flowing (emit b c) = flowing c"
  by (simp_all add: flowing_def)

lemma run_writeAll [io_simps]:
  "flowing c \<Longrightarrow> run_state (writeAll data) c = (Inr (), emit data c)"
  by (simp add: writeAll_def writeAll_loop.simps [of data c] conn_Write_def flowing_def
      writeAll_loop.simps [of "[]"])

lemma run_ReadFull:
  "\<lbrakk>\<not> c_closed c; n \<le> length (c_in c)\<rbrakk>
    \<Longrightarrow> run_state (io_ReadFull n) c = (Inr (take n (pending c)), advance n c)"
  by (simp add: io_ReadFull_def io_simps)

lemma run_rand [io_simps]:
  "n \<le> length (c_rand c)
    \<Longrightarrow> run_state (rand_Read n) c = (Inr (take n (c_rand c)), c\<lparr>c_rand := drop n (c_rand c)\<rparr>)"
  by (simp add: rand_Read_def io_simps)

text \<open>Reading from the connection is reading from the pending bytes.\<close>

lemma varIntFromConn_pending:
  assumes "\<not> c_closed c"
  shows "case getVarInt k acc (pending c) of
      Inr (v, r) \<Rightarrow> \<exists>n. run_state (varIntFromConn k acc) c = (Inr v, advance n c) \<and>
                       drop n (pending c) = r \<and> n + length r = length (c_in c)
    | Inl e \<Rightarrow> fst (run_state (varIntFromConn k acc) c) = Inl e"
  using assms
proof (induction k acc arbitrary: c rule: varIntFromConn.induct)
  case (1 k acc c)
  show ?case
  proof (cases "pending c")
    case Nil
    then have "c_in c = []" by (metis length_0_conv length_pending)
    with Nil 1(2) show ?thesis
      by (simp add: varIntFromConn.simps [of k] io_simps io_ReadFull_def)
  next
    case (Cons b r)
    then have ne: "c_in c \<noteq> []" by (metis length_0_conv length_pending list.distinct(1))
    then have rd: "run_state (io_ReadFull (Suc 0)) c = (Inr [b], advance (Suc 0) c)"
      using 1(2) Cons by (subst run_ReadFull) (simp_all add: Suc_le_eq)
    have nxt: "pending (advance 1 c) = r" "\<not> c_closed (advance 1 c)"
      using Cons 1(2) by simp_all
    have len: "length (c_in c) = Suc (length r)" by (metis Cons length_Cons length_pending)
    show ?thesis
    proof (cases "k > 5 \<or> b AND 0x80 = 0")
      case True
      then show ?thesis using len
        by (cases "k > 5")
           (auto simp: Cons varIntFromConn.simps [of k] io_simps rd run_iobind Let_def
             intro!: exI [of _ "Suc 0"])
    next
      case False
      let ?acc = "acc OR push_bit (7 * k) (uint (b AND 0x7F))"
      from False have *: "run_state (varIntFromConn k acc) c = run_state (varIntFromConn (k + 1) ?acc) (advance 1 c)"
        "getVarInt k acc (pending c) = getVarInt (k + 1) ?acc r"
        by (simp_all add: Cons varIntFromConn.simps [of k] run_iobind rd Let_def)
      have "\<not> 5 < k" using False by simp
      from 1(1) [OF this refl refl, of "[b]" "advance 1 c"] nxt False
      show ?thesis unfolding * using len
        by (cases "getVarInt (k + 1) ?acc r") (auto simp: Suc_le_eq)
    qed
  qed
qed

lemma run_readMCPacket [io_simps]:
  assumes "\<not> c_closed c" "pending c = writeMCVarInt (int (length p)) @ p @ rest" "length p \<le> 2 ^ 20"
  shows "run_state readMCPacket c =
           (Inr p, advance (length (writeMCVarInt (int (length p))) + length p) c)"
proof -
  let ?h = "writeMCVarInt (int (length p))"
  have "getVarInt 0 0 (pending c) = Inr (int (length p), p @ rest)"
    using readMCVarInt_write [of "int (length p)" "p @ rest"] assms(3)
    by (simp add: assms(2) readMCVarInt_def)
  with varIntFromConn_pending [OF assms(1), of 0 0] obtain n where
    n: "run_state (varIntFromConn 0 0) c = (Inr (int (length p)), advance n c)"
       "n + length (p @ rest) = length (c_in c)"
    by auto
  have "length (c_in c) = length ?h + length (p @ rest)"
    by (metis assms(2) length_append length_pending)
  with n(2) have "n = length ?h" by simp
  then have "run_state readMCVarIntFromConn c = (Inr (int (length p)), advance (length ?h) c)"
    using n(1) by (simp add: readMCVarIntFromConn_def)
  moreover have "run_state (io_ReadFull (length p)) (advance (length ?h) c) =
      (Inr p, advance (length ?h + length p) c)"
    using assms(1) \<open>length (c_in c) = _\<close>
    by (subst run_ReadFull) (simp_all add: assms(2))
  ultimately show ?thesis
    using assms(3) by (simp add: readMCPacket_def run_iobind io_simps)
qed

end
