(* ===== verification/Camo_Secure.thy ===== *)
theory Camo_Secure
  imports Conn_IO
begin

text \<open>
  The secure camouflage layer (wireguard/conn/camo_secure.go): the hello and
  reply blobs, the authenticated X25519 exchange, the derived stream keys and
  the encrypted connection.  The primitives (HMAC-SHA256, SHA-256, MD5, HKDF,
  AES-CTR, X25519, X.509 and JSON) are the fields of one record that every
  operation takes as an argument; the theorems hold for every choice of them
  that has the named documented properties.
\<close>

section \<open>Primitives\<close>

record camo_env =
  e_hmac :: "byte list \<Rightarrow> byte list \<Rightarrow> byte list"
  e_sha256 :: "byte list \<Rightarrow> byte list"
  e_md5 :: "byte list \<Rightarrow> byte list"
  e_hkdf :: "byte list \<Rightarrow> byte list \<Rightarrow> byte list \<Rightarrow> nat \<Rightarrow> byte"
  e_ctr :: "byte list \<Rightarrow> byte list \<Rightarrow> nat \<Rightarrow> byte"
  e_x25519_pub :: "byte list \<Rightarrow> byte list"
  e_x25519 :: "byte list \<Rightarrow> byte list \<Rightarrow> byte list option"
  e_marshalPKIX :: "nat \<Rightarrow> camo_err + byte list"
  e_parsePKIX :: "byte list \<Rightarrow> camo_err + nat option"
  e_json_Valid :: "byte list \<Rightarrow> bool"
  e_json_text :: "byte list \<Rightarrow> byte list"
  e_chat_text :: "byte list \<Rightarrow> byte list option"

text \<open>HMAC-SHA256 has 32 bytes.\<close>

definition hmac_size :: "camo_env \<Rightarrow> bool" where
  "hmac_size E \<longleftrightarrow> (\<forall>k m. length (e_hmac E k m) = 32)"

text \<open>An MD5 digest has 16 bytes.\<close>

definition md5_size :: "camo_env \<Rightarrow> bool" where
  "md5_size E \<longleftrightarrow> (\<forall>m. length (e_md5 E m) = 16)"

text \<open>
  X25519 public keys have 32 bytes and the two parties of an exchange obtain
  the same secret.
\<close>

definition x25519_agrees :: "camo_env \<Rightarrow> bool" where
  "x25519_agrees E \<longleftrightarrow>
     (\<forall>a. length (e_x25519_pub E a) = 32) \<and>
     (\<forall>a b. e_x25519 E a (e_x25519_pub E b) = e_x25519 E b (e_x25519_pub E a) \<and>
            e_x25519 E a (e_x25519_pub E b) \<noteq> None)"

section \<open>Blobs\<close>

definition secureBlobLen :: nat where "secureBlobLen = 128"
definition secureTagOff :: nat where "secureTagOff = 49"
definition secureTagLen :: nat where "secureTagLen = 16"
definition secureConfirmSz :: nat where "secureConfirmSz = 16"
definition secureInfo :: "byte list" where "secureInfo = go_str ''lasitan-secure-v1''"

definition securePSK :: "camo_env \<Rightarrow> byte list \<Rightarrow> byte list" where
  "securePSK E secret = e_sha256 E (secureInfo @ [0] @ go_str ''psk'' @ [0] @ secret)"

definition secureMask :: "camo_env \<Rightarrow> byte list \<Rightarrow> byte list \<Rightarrow> byte list" where
  "secureMask E psk salt = map (e_hkdf E psk salt (secureInfo @ go_str '' mask'')) [0..<33]"

definition secureTag :: "camo_env \<Rightarrow> byte list \<Rightarrow> byte list \<Rightarrow> byte list \<Rightarrow> byte list \<Rightarrow> byte list" where
  "secureTag E psk label prior head = take secureTagLen (e_hmac E psk (label @ prior @ head))"

definition sealSecureBlob ::
    "camo_env \<Rightarrow> byte list \<Rightarrow> byte list \<Rightarrow> byte list \<Rightarrow> byte list \<Rightarrow> byte \<Rightarrow> byte list io" where
  "sealSecureBlob E psk label prior pub flags = iobind (rand_Read secureBlobLen) (\<lambda>blob.
     let blob = blob[0 := blob ! 0 OR 0x80];
         blob = blob[secureBlobLen - 1 := blob ! (secureBlobLen - 1) OR 1];
         mask = secureMask E psk (take 16 blob);
         blob = fold (\<lambda>i b. b[16 + i := pub ! i XOR mask ! i]) [0..<32] blob;
         blob = blob[48 := flags XOR mask ! 32]
     in ioret (copy_at secureTagOff (secureTag E psk label prior (take secureTagOff blob)) blob))"

definition openSecureBlob ::
    "camo_env \<Rightarrow> byte list \<Rightarrow> byte list \<Rightarrow> byte list \<Rightarrow> byte list \<Rightarrow> camo_err + byte list \<times> byte" where
  "openSecureBlob E psk label prior blob =
     (if length blob \<noteq> secureBlobLen then Inl ErrSecureAuth
      else if take secureTagLen (drop secureTagOff blob)
                \<noteq> secureTag E psk label prior (take secureTagOff blob) then Inl ErrSecureAuth
      else let mask = secureMask E psk (take 16 blob);
               pub = map (\<lambda>i. blob ! (16 + i) XOR mask ! i) [0..<32]
           in Inr (pub, blob ! 48 XOR mask ! 32))"

section \<open>Key agreement\<close>

record secureKeys =
  k_c2s :: "byte list"
  k_s2c :: "byte list"

definition deriveSecureKeys ::
    "camo_env \<Rightarrow> byte list \<Rightarrow> byte list \<Rightarrow> byte list \<Rightarrow> byte list \<Rightarrow> secureKeys" where
  "deriveSecureKeys E psk shared hello reply =
     (let salt = e_sha256 E (hello @ reply);
          ikm = shared @ psk;
          r = e_hkdf E ikm salt (secureInfo @ go_str '' stream'')
      in \<lparr>k_c2s = map r [0..<48], k_s2c = map r [48..<96]\<rparr>)"

text \<open>ecdh.X25519().NewPublicKey accepts any 32 bytes.\<close>

definition NewPublicKey :: "byte list \<Rightarrow> camo_err + byte list" where
  "NewPublicKey k = (if length k = 32 then Inr k else Inl ErrSecureAuth)"

definition ecdh_shared :: "camo_env \<Rightarrow> byte list \<Rightarrow> byte list \<Rightarrow> camo_err + byte list" where
  "ecdh_shared E priv peer =
     (case e_x25519 E priv peer of None \<Rightarrow> Inl ErrSecureAuth | Some s \<Rightarrow> Inr s)"

definition secureServerHello :: "camo_env \<Rightarrow> byte list \<Rightarrow> (byte list \<times> byte list) io" where
  "secureServerHello E psk = iobind (rand_Read 32) (\<lambda>priv.
     iobind (sealSecureBlob E psk (go_str ''server'') [] (e_x25519_pub E priv) 0) (\<lambda>blob.
     ioret (blob, priv)))"

definition secureClientReply ::
    "camo_env \<Rightarrow> byte list \<Rightarrow> byte list \<Rightarrow> bool \<Rightarrow> (byte list \<times> secureKeys) io" where
  "secureClientReply E psk hello toNAT =
     iobind (iolift (openSecureBlob E psk (go_str ''server'') [] hello)) (\<lambda>(spub, _).
     iobind (iolift (NewPublicKey spub)) (\<lambda>peer.
     iobind (rand_Read 32) (\<lambda>priv.
     iobind (iolift (ecdh_shared E priv peer)) (\<lambda>shared.
     let flags = (if toNAT then 1 else 0) in
     iobind (sealSecureBlob E psk (go_str ''client'') hello (e_x25519_pub E priv) flags) (\<lambda>reply.
     ioret (reply, deriveSecureKeys E psk shared hello reply))))))"

definition secureServerFinish ::
    "camo_env \<Rightarrow> byte list \<Rightarrow> byte list \<Rightarrow> byte list \<Rightarrow> byte list \<Rightarrow> camo_err + secureKeys \<times> bool" where
  "secureServerFinish E psk hello priv reply =
     (case openSecureBlob E psk (go_str ''client'') hello reply of
        Inl _ \<Rightarrow> Inl ErrSecureAuth
      | Inr (cpub, flags) \<Rightarrow>
          if flags > 1 then Inl ErrSecureAuth
          else ebind (NewPublicKey cpub) (\<lambda>peer.
               ebind (ecdh_shared E priv peer) (\<lambda>shared.
               Inr (deriveSecureKeys E psk shared hello reply, flags = 1))))"

section \<open>The encrypted connection\<close>

definition key_stream :: "camo_env \<Rightarrow> byte list \<Rightarrow> cstream" where
  "key_stream E k = \<lparr>st_ks = e_ctr E (take 32 k) (take 16 (drop 32 k)), st_pos = 0\<rparr>"

definition newSecureConn :: "camo_env \<Rightarrow> secureKeys \<Rightarrow> bool \<Rightarrow> unit io" where
  "newSecureConn E k server =
     (let (inn, out) = (if server then (k_c2s k, k_s2c k) else (k_s2c k, k_c2s k))
      in do { State_Monad.update (\<lambda>c. c\<lparr>c_rd := Some (key_stream E inn), c_wr := Some (key_stream E out)\<rparr>);
              ioret () })"

text \<open>What a handshake returns for net.Conn: nil, or a connection to carry frames on.\<close>

datatype ret_conn = NilConn | ConnValue

definition secureGenericClient :: "camo_env \<Rightarrow> byte list \<Rightarrow> bool \<Rightarrow> ret_conn io" where
  "secureGenericClient E pluginSecret toNAT = with_deadline (
     let psk = securePSK E pluginSecret in
     iobind (iowrap ''secure hello'' (io_ReadFull secureBlobLen)) (\<lambda>hello.
     iobind (iowrap ''secure hello'' (secureClientReply E psk hello toNAT)) (\<lambda>(reply, keys).
     iobind (writeAll reply) (\<lambda>_.
     iobind (newSecureConn E keys False) (\<lambda>_.
     iobind (iowrap ''secure confirm'' (io_ReadFull secureConfirmSz)) (\<lambda>confirm.
     if \<exists>x \<in> set confirm. x \<noteq> 0 then iofail ErrSecureAuth
     else ioret ConnValue))))))"

definition secureGenericServer :: "camo_env \<Rightarrow> byte list \<Rightarrow> (ret_conn \<times> bool) io" where
  "secureGenericServer E pluginSecret = with_deadline (
     let psk = securePSK E pluginSecret in
     iobind (secureServerHello E psk) (\<lambda>(hello, priv).
     iobind (writeAll hello) (\<lambda>_.
     iobind (io_ReadFull secureBlobLen) (\<lambda>reply.
     iobind (iolift (secureServerFinish E psk hello priv reply)) (\<lambda>(keys, toNAT).
     iobind (newSecureConn E keys True) (\<lambda>_.
     iobind (writeAll (replicate secureConfirmSz 0)) (\<lambda>_.
     ioret (ConnValue, toNAT))))))))"

section \<open>Sealing and opening\<close>

text \<open>The sealed blob as a function of the 128 random bytes it starts from.\<close>

definition shaped :: "byte list \<Rightarrow> byte list" where
  "shaped r = (r[0 := r ! 0 OR 0x80])[127 := r ! 127 OR 1]"

definition sealed_head :: "camo_env \<Rightarrow> byte list \<Rightarrow> byte list \<Rightarrow> byte \<Rightarrow> byte list \<Rightarrow> byte list" where
  "sealed_head E psk pub flags r =
     (let mask = secureMask E psk (take 16 (shaped r))
      in take 16 (shaped r) @ map (\<lambda>i. pub ! i XOR mask ! i) [0..<32] @ [flags XOR mask ! 32])"

definition sealed_blob ::
    "camo_env \<Rightarrow> byte list \<Rightarrow> byte list \<Rightarrow> byte list \<Rightarrow> byte list \<Rightarrow> byte \<Rightarrow> byte list \<Rightarrow> byte list" where
  "sealed_blob E psk label prior pub flags r =
     (let head = sealed_head E psk pub flags r
      in head @ secureTag E psk label prior head @ drop 65 (shaped r))"

lemmas secure_sizes = secureBlobLen_def secureTagOff_def secureTagLen_def secureConfirmSz_def

lemma length_shaped [simp]: "length (shaped r) = length r"
  by (simp add: shaped_def)

lemma length_sealed_head [simp]: "128 \<le> length r \<Longrightarrow> length (sealed_head E psk pub flags r) = 49"
  by (simp add: sealed_head_def Let_def)

lemma length_secureTag [simp]: "hmac_size E \<Longrightarrow> length (secureTag E psk l p h) = 16"
  by (simp add: secureTag_def hmac_size_def secure_sizes)

lemma length_sealed [simp]:
  "\<lbrakk>hmac_size E; length r = 128\<rbrakk> \<Longrightarrow> length (sealed_blob E psk l p pub flags r) = 128"
  by (simp add: sealed_blob_def Let_def)

lemma run_sealSecureBlob [io_simps]:
  assumes "hmac_size E" "128 \<le> length (c_rand c)"
  shows "run_state (sealSecureBlob E psk label prior pub flags) c =
           (Inr (sealed_blob E psk label prior pub flags (take 128 (c_rand c))),
            c\<lparr>c_rand := drop 128 (c_rand c)\<rparr>)"
proof -
  let ?r = "take 128 (c_rand c)" and ?s = "shaped (take 128 (c_rand c))"
  let ?mask = "secureMask E psk (take 16 ?s)"
  have s: "(?r[0 := ?r ! 0 OR 0x80])[127 := ?r[0 := ?r ! 0 OR 0x80] ! 127 OR 1] = ?s"
    by (simp add: shaped_def)
  have l: "length ?s = 128" using assms by simp
  have f: "(fold (\<lambda>i b. b[16 + i := pub ! i XOR ?mask ! i]) [0..<32] ?s)[48 := flags XOR ?mask ! 32]
      = sealed_head E psk pub flags ?r @ drop 49 ?s"
    using l Cons_nth_drop_Suc [of 48 ?s, symmetric]
    by (simp add: fold_list_update sealed_head_def Let_def list_update_append)
  have h: "length (sealed_head E psk pub flags ?r) = 49"
    using assms by simp
  have cp: "copy_at 49 (secureTag E psk label prior (sealed_head E psk pub flags ?r))
      (sealed_head E psk pub flags ?r @ drop 49 ?s) = sealed_blob E psk label prior pub flags ?r"
    using assms l by (simp add: copy_at_def sealed_blob_def Let_def h)
  have t: "take 49 (sealed_head E psk pub flags ?r @ drop 49 ?s) = sealed_head E psk pub flags ?r"
    by (simp add: h)
  have n: "128 - 1 = (127 :: nat)" by simp
  show ?thesis
    by (simp only: sealSecureBlob_def run_iobind run_rand [OF assms(2)] secure_sizes n Let_def
        s f t cp io_simps prod.case sum.case)
qed

lemma openSecureBlob_sealed:
  assumes "hmac_size E" "length r = 128" "length pub = 32"
  shows "openSecureBlob E psk label prior (sealed_blob E psk label prior pub flags r) = Inr (pub, flags)"
proof -
  let ?b = "sealed_blob E psk label prior pub flags r" and ?h = "sealed_head E psk pub flags r"
  have h: "length ?h = 49" using assms by simp
  have 1: "take 49 ?b = ?h" "take 16 (drop 49 ?b) = secureTag E psk label prior ?h"
    using assms by (simp_all add: sealed_blob_def Let_def h)
  have 2: "take 16 ?b = take 16 (shaped r)"
    using assms by (simp add: sealed_blob_def sealed_head_def Let_def)
  have 3: "?b ! i = ?h ! i" if "i < 49" for i
    using that h by (simp add: sealed_blob_def Let_def nth_append)
  let ?mask = "secureMask E psk (take 16 (shaped r))"
  have 4: "?h ! (16 + i) = pub ! i XOR ?mask ! i" if "i < 32" for i
    using that assms(2) by (simp add: sealed_head_def Let_def nth_append)
  have 5: "?h ! 48 = flags XOR ?mask ! 32"
    using assms(2) by (simp add: sealed_head_def Let_def nth_append)
  have 6: "map (\<lambda>i. ?b ! (16 + i) XOR ?mask ! i) [0..<32] = pub"
    by (rule nth_equalityI) (simp_all add: assms(3) 3 4 xor.assoc)
  show ?thesis
    using assms by (simp add: openSecureBlob_def secure_sizes Let_def 1 2 3 5 6 xor.assoc)
qed


lemma run_newSecureConn [io_simps]:
  "run_state (newSecureConn E k server) c =
     (Inr (), c\<lparr>c_rd := Some (key_stream E (if server then k_c2s k else k_s2c k)),
                c_wr := Some (key_stream E (if server then k_s2c k else k_c2s k))\<rparr>)"
  by (simp add: newSecureConn_def io_simps State_Monad.update_def)

lemma run_with_deadline [io_simps]:
  "\<lbrakk>\<not> c_closed c; run_state m (c\<lparr>c_armed := True\<rparr>) = (r, c'); \<not> c_closed c'\<rbrakk>
    \<Longrightarrow> run_state (with_deadline m) c = (r, c'\<lparr>c_armed := False\<rparr>)"
  by (simp add: with_deadline_def conn_SetDeadline_def run_iobind io_simps)

section \<open>The exchange between honest peers\<close>

definition shared_secret :: "camo_env \<Rightarrow> byte list \<Rightarrow> byte list \<Rightarrow> byte list" where
  "shared_secret E a b = the (e_x25519 E a (e_x25519_pub E b))"

lemma ecdh_shared_agrees:
  assumes "x25519_agrees E"
  shows "NewPublicKey (e_x25519_pub E b) = Inr (e_x25519_pub E b)"
    and "ecdh_shared E a (e_x25519_pub E b) = Inr (shared_secret E a b)"
    and "shared_secret E a b = shared_secret E b a"
    and "length (e_x25519_pub E b) = 32"
proof -
  have 1: "e_x25519 E a (e_x25519_pub E b) = e_x25519 E b (e_x25519_pub E a)"
    and "e_x25519 E a (e_x25519_pub E b) \<noteq> None"
    and 2: "length (e_x25519_pub E b) = 32"
    using assms by (simp_all add: x25519_agrees_def)
  then obtain s where "e_x25519 E a (e_x25519_pub E b) = Some s" by auto
  then show "ecdh_shared E a (e_x25519_pub E b) = Inr (shared_secret E a b)"
    by (simp add: ecdh_shared_def shared_secret_def)
  show "shared_secret E a b = shared_secret E b a" by (simp add: shared_secret_def 1)
qed (use assms in \<open>simp_all add: NewPublicKey_def x25519_agrees_def\<close>)

text \<open>The hello and the reply as functions of the two random tapes.\<close>

definition hello_of :: "camo_env \<Rightarrow> byte list \<Rightarrow> byte list \<Rightarrow> byte list" where
  "hello_of E psk rs =
     sealed_blob E psk (go_str ''server'') [] (e_x25519_pub E (take 32 rs)) 0 (take 128 (drop 32 rs))"

definition reply_of :: "camo_env \<Rightarrow> byte list \<Rightarrow> byte list \<Rightarrow> bool \<Rightarrow> byte list \<Rightarrow> byte list" where
  "reply_of E psk hello toNAT rc =
     sealed_blob E psk (go_str ''client'') hello (e_x25519_pub E (take 32 rc))
       (if toNAT then 1 else 0) (take 128 (drop 32 rc))"

definition keys_of :: "camo_env \<Rightarrow> byte list \<Rightarrow> byte list \<Rightarrow> bool \<Rightarrow> byte list \<Rightarrow> secureKeys" where
  "keys_of E psk rs toNAT rc =
     deriveSecureKeys E psk (shared_secret E (take 32 rs) (take 32 rc)) (hello_of E psk rs)
       (reply_of E psk (hello_of E psk rs) toNAT rc)"

lemma length_hello_of [simp]:
  "\<lbrakk>hmac_size E; 160 \<le> length rs\<rbrakk> \<Longrightarrow> length (hello_of E psk rs) = 128"
  by (simp add: hello_of_def)

lemma length_reply_of [simp]:
  "\<lbrakk>hmac_size E; 160 \<le> length rc\<rbrakk> \<Longrightarrow> length (reply_of E psk h t rc) = 128"
  by (simp add: reply_of_def)

lemma run_secureServerHello [io_simps]:
  "\<lbrakk>hmac_size E; 160 \<le> length (c_rand c)\<rbrakk> \<Longrightarrow>
     run_state (secureServerHello E psk) c =
       (Inr (hello_of E psk (c_rand c), take 32 (c_rand c)), c\<lparr>c_rand := drop 160 (c_rand c)\<rparr>)"
  by (simp add: secureServerHello_def run_iobind io_simps hello_of_def add.commute)

lemma run_secureClientReply [io_simps]:
  "\<lbrakk>hmac_size E; x25519_agrees E; 160 \<le> length rs; 160 \<le> length (c_rand c)\<rbrakk> \<Longrightarrow>
     run_state (secureClientReply E psk (hello_of E psk rs) toNAT) c =
       (Inr (reply_of E psk (hello_of E psk rs) toNAT (c_rand c), keys_of E psk rs toNAT (c_rand c)),
        c\<lparr>c_rand := drop 160 (c_rand c)\<rparr>)"
  by (simp add: secureClientReply_def run_iobind io_simps hello_of_def openSecureBlob_sealed
      ecdh_shared_agrees reply_of_def keys_of_def Let_def add.commute)

lemma secureServerFinish_reply:
  "\<lbrakk>hmac_size E; x25519_agrees E; 160 \<le> length rs; 160 \<le> length rc\<rbrakk> \<Longrightarrow>
     secureServerFinish E psk (hello_of E psk rs) (take 32 rs) (reply_of E psk (hello_of E psk rs) toNAT rc)
       = Inr (keys_of E psk rs toNAT rc, toNAT)"
  by (simp add: secureServerFinish_def reply_of_def openSecureBlob_sealed ecdh_shared_agrees keys_of_def)

lemmas exec_simps = run_iobind run_io run_writeAll run_ReadFull run_rand
  flowing_def advance_def emit_def pending_def

lemma run_secureGenericServer:
  assumes E: "hmac_size E" "x25519_agrees E" and s: "flowing s" "c_rd s = None" "c_wr s = None"
    and rnd: "160 \<le> length (c_rand s)" "160 \<le> length rc"
    and psk: "psk = securePSK E secret"
    and input: "c_in s = reply_of E psk (hello_of E psk (c_rand s)) toNAT rc"
    and k: "k = keys_of E psk (c_rand s) toNAT rc"
  shows "run_state (secureGenericServer E secret) s = (Inr (ConnValue, toNAT),
     s\<lparr>c_in := [], c_out := c_out s @ hello_of E psk (c_rand s) @
                            st_xor (Some (key_stream E (k_s2c k))) (replicate 16 0),
       c_rand := drop 160 (c_rand s), c_armed := False, c_rd := Some (key_stream E (k_c2s k)),
       c_wr := st_skip 16 (Some (key_stream E (k_s2c k)))\<rparr>)"
  using assms
  by (cases s)
     (simp add: secureGenericServer_def with_deadline_def conn_SetDeadline_def exec_simps
       run_secureServerHello secureServerFinish_reply run_newSecureConn secure_sizes Let_def)

lemma run_secureGenericClient:
  assumes E: "hmac_size E" "x25519_agrees E" and c: "flowing c" "c_rd c = None" "c_wr c = None"
    and rnd: "160 \<le> length (c_rand c)" "160 \<le> length rs"
    and psk: "psk = securePSK E secret"
    and k: "k = keys_of E psk rs toNAT (c_rand c)"
    and input: "c_in c = hello_of E psk rs @ st_xor (Some (key_stream E (k_s2c k))) (replicate 16 0)"
  shows "run_state (secureGenericClient E secret toNAT) c = (Inr ConnValue,
     c\<lparr>c_in := [], c_out := c_out c @ reply_of E psk (hello_of E psk rs) toNAT (c_rand c),
       c_rand := drop 160 (c_rand c), c_armed := False,
       c_rd := st_skip 16 (Some (key_stream E (k_s2c k))),
       c_wr := Some (key_stream E (k_c2s k))\<rparr>)"
  using assms
  by (cases c)
     (simp add: secureGenericClient_def with_deadline_def conn_SetDeadline_def exec_simps
       run_secureClientReply run_newSecureConn secure_sizes Let_def st_xor_def)

section \<open>Properties\<close>

text \<open>A concrete choice of the primitives with the properties the theorems name.\<close>

definition pad32 :: "byte list \<Rightarrow> byte list" where
  "pad32 a = take 32 (a @ replicate 32 0)"

definition demo_env :: camo_env where
  "demo_env = \<lparr>e_hmac = \<lambda>k m. pad32 m, e_sha256 = pad32, e_md5 = \<lambda>m. take 16 (pad32 m),
     e_hkdf = \<lambda>k s i n. of_nat n, e_ctr = \<lambda>k iv n. of_nat n, e_x25519_pub = pad32,
     e_x25519 = \<lambda>a b. Some (map2 (XOR) (pad32 a) b),
     e_marshalPKIX = \<lambda>n. Inr (fill_bytes 128 n), e_parsePKIX = \<lambda>b. Inr (Some (bytes_to_nat b)),
     e_json_Valid = \<lambda>_. True, e_json_text = id, e_chat_text = Some\<rparr>"

lemma demo_env_ok: "hmac_size demo_env" "md5_size demo_env" "x25519_agrees demo_env"
proof -
  have len: "length (pad32 a) = 32" for a by (simp add: pad32_def)
  have "map2 (XOR) (pad32 a) (pad32 b) = map2 (XOR) (pad32 b) (pad32 a)" for a b
    by (rule nth_equalityI) (simp_all add: len xor.commute)
  then show "hmac_size demo_env" "md5_size demo_env" "x25519_agrees demo_env"
    by (simp_all add: hmac_size_def md5_size_def x25519_agrees_def demo_env_def len)
qed

text \<open>A fresh connection with the given random bytes.\<close>

definition fresh_conn :: "byte list \<Rightarrow> conn" where
  "fresh_conn r = \<lparr>c_in = [], c_out = [], c_wcap = None, c_sched = [], c_rand = r,
     c_armed = False, c_closed = False, c_rd = None, c_wr = None\<rparr>"



lemma openSecureBlob_Inr:
  "openSecureBlob E psk label prior blob = Inr (pub, flags) \<Longrightarrow>
     length blob = 128 \<and> take 16 (drop 49 blob) = take 16 (e_hmac E psk (label @ prior @ take 49 blob)) \<and>
     blob ! 48 XOR secureMask E psk (take 16 blob) ! 32 = flags"
  unfolding openSecureBlob_def secure_sizes secureTag_def Let_def
  by (simp split: if_splits)

lemma secureServerFinish_Inr:
  assumes "secureServerFinish E psk hello priv reply = Inr (keys, toNAT)"
  shows "\<exists>pub flags. openSecureBlob E psk (go_str ''client'') hello reply = Inr (pub, flags) \<and>
           flags = (if toNAT then 1 else 0)"
proof -
  from assms obtain pub flags where op: "openSecureBlob E psk (go_str ''client'') hello reply = Inr (pub, flags)"
    unfolding secureServerFinish_def by (auto split: sum.splits)
  with assms have "\<not> flags > 1" and t: "toNAT = (flags = 1)"
    unfolding secureServerFinish_def by (auto simp: ebind_eq_Inr split: if_splits)
  then have "unat flags \<le> 1" by (simp add: word_less_nat_alt)
  then have "flags = 0 \<or> flags = 1" by (auto simp: word_unat_eq_iff le_Suc_eq)
  with op t show ?thesis by auto
qed

text \<open>
  C22. The server of the exchange accepts only an authenticated reply: when
  secureServerFinish returns keys, the reply has 128 bytes, carries the
  truncated HMAC under the shared key of the label, of this very hello and of
  its own first 49 bytes, and its unmasked flag byte is 0 or 1 and is what the
  server reports as toNAT.  Hence one reply accepted for two hellos exhibits two
  HMAC inputs with the same truncated tag.\<close>

theorem secure_server_accepts_only_authenticated:
  assumes "secureServerFinish E psk hello priv reply = Inr (keys, toNAT)"
  shows "length reply = 128 \<and>
    take 16 (drop 49 reply) = take 16 (e_hmac E psk (go_str ''client'' @ hello @ take 49 reply)) \<and>
    reply ! 48 XOR secureMask E psk (take 16 reply) ! 32 = (if toNAT then 1 else 0) \<and>
    (\<forall>hello' priv' x. secureServerFinish E psk hello' priv' reply = Inr x \<longrightarrow>
       take 16 (e_hmac E psk (go_str ''client'' @ hello' @ take 49 reply))
         = take 16 (e_hmac E psk (go_str ''client'' @ hello @ take 49 reply)))"
proof -
  have fin: "length reply = 128 \<and>
      take 16 (drop 49 reply) = take 16 (e_hmac E psk (go_str ''client'' @ h @ take 49 reply)) \<and>
      reply ! 48 XOR secureMask E psk (take 16 reply) ! 32 = (if t then 1 else 0)"
    if "secureServerFinish E psk h p reply = Inr (ks, t)" for h p ks t
    using secureServerFinish_Inr [OF that] openSecureBlob_Inr [of E psk "go_str ''client''" h reply]
    by blast
  have "take 16 (e_hmac E psk (go_str ''client'' @ h @ take 49 reply)) = take 16 (drop 49 reply)"
    if "secureServerFinish E psk h p reply = Inr x" for h p x
    using fin [of h p "fst x" "snd x"] that by simp
  with fin [OF assms] show ?thesis by metis
qed

theorem secure_server_accepts_only_authenticated_witness:
  "\<exists>keys. secureServerFinish demo_env [1] (hello_of demo_env [1] (replicate 160 7)) (take 32 (replicate 160 7))
      (reply_of demo_env [1] (hello_of demo_env [1] (replicate 160 7)) True (replicate 160 9)) = Inr (keys, True) \<and>
    length (reply_of demo_env [1] (hello_of demo_env [1] (replicate 160 7)) True (replicate 160 9)) = 128"
proof -
  have fin: "secureServerFinish demo_env [1] (hello_of demo_env [1] (replicate 160 7)) (take 32 (replicate 160 7))
      (reply_of demo_env [1] (hello_of demo_env [1] (replicate 160 7)) True (replicate 160 9))
      = Inr (keys_of demo_env [1] (replicate 160 7) True (replicate 160 9), True)"
    by (rule secureServerFinish_reply) (simp_all add: demo_env_ok)
  with secure_server_accepts_only_authenticated [OF fin] show ?thesis by blast
qed

end
