(* ===== verification/Camouflage.thy ===== *)
theory Camouflage
  imports Camo_Secure
begin

text \<open>
  The camouflage handshakes and the cover frames of the TCP transport
  (wireguard/conn/mc_camouflage.go, camo_cover.go, camouflage.go and the
  profiles camo_source.go, camo_terraria.go, camo_steam.go, camo_bedrock.go,
  camo_fivem.go).  Each handshake is a program over the connection of
  Conn_IO; what the code takes from outside (the destination host and port,
  the clock, the picks of the random status) is an argument.
\<close>

section \<open>Configuration\<close>

record mcCamouflageConfig =
  mc_enabled :: bool
  mc_deep :: bool
  mc_timeout :: int
  mc_loginUsername :: "byte list"
  mc_pluginChannel :: "byte list"
  mc_pluginSecret :: "byte list"
  mc_rejectMessage :: "byte list"

record camoSharedConfig =
  camo_profile :: "byte list"
  camo_deep :: bool
  camo_timeout :: int
  camo_loginUsername :: "byte list"
  camo_pluginChannel :: "byte list"
  camo_pluginSecret :: "byte list"
  camo_rejectMessage :: "byte list"
  camo_serverName :: "byte list"
  camo_secure :: bool

definition camoProfileNone :: "byte list" where "camoProfileNone = go_str ''none''"
definition camoProfileMinecraft :: "byte list" where "camoProfileMinecraft = go_str ''minecraft''"
definition camoProfileSource :: "byte list" where "camoProfileSource = go_str ''source''"
definition camoProfileTerraria :: "byte list" where "camoProfileTerraria = go_str ''terraria''"
definition camoProfileSteam :: "byte list" where "camoProfileSteam = go_str ''steam''"
definition camoProfileBedrock :: "byte list" where "camoProfileBedrock = go_str ''bedrock''"
definition camoProfileFiveM :: "byte list" where "camoProfileFiveM = go_str ''fivem''"

text \<open>The part of TCPBind the handshakes read.\<close>

record camo_bind =
  b_camoShared :: camoSharedConfig
  b_mcConfig :: mcCamouflageConfig
  b_dialToNAT :: bool

definition mcDeepConfig :: "camo_bind \<Rightarrow> mcCamouflageConfig" where
  "mcDeepConfig b =
     (let cfg = b_mcConfig b in
      \<lparr>mc_enabled = mc_enabled cfg, mc_deep = mc_deep cfg, mc_timeout = mc_timeout cfg,
       mc_loginUsername = mc_loginUsername cfg, mc_pluginChannel = mc_pluginChannel cfg,
       mc_pluginSecret = mc_pluginSecret cfg, mc_rejectMessage = mc_rejectMessage cfg\<rparr>)"

section \<open>The Minecraft status text\<close>

definition status_adjectives :: "string list" where
  "status_adjectives = [''Dark'', ''Swift'', ''Brave'', ''Cool'', ''Wise'', ''Wild'', ''Bold'',
     ''Calm'', ''Keen'', ''Soft'', ''Fast'', ''Deep'', ''True'', ''Just'']"

definition status_nouns :: "string list" where
  "status_nouns = [''Steve'', ''Alex'', ''Notch'', ''Creep'', ''Ender'', ''Blaze'',
     ''Arrow'', ''Stone'', ''Sand'', ''Gold'', ''Iron'', ''Frost'']"

text \<open>Decimal digits of a natural number, as %d prints it.\<close>

fun dec :: "nat \<Rightarrow> byte list" where
  "dec n = (if n < 10 then [of_nat (48 + n)] else dec (n div 10) @ [of_nat (48 + n mod 10)])"

declare dec.simps [simp del]

definition quoted :: "string \<Rightarrow> byte list" where
  "quoted s = [0x22] @ go_str s @ [0x22]"

fun json_join :: "byte list list \<Rightarrow> byte list" where
  "json_join [] = []"
| "json_join [x] = x"
| "json_join (x # xs) = x @ [0x2C] @ json_join xs"

definition json_obj :: "(string \<times> byte list) list \<Rightarrow> byte list" where
  "json_obj fs = [0x7B] @ json_join (map (\<lambda>(k, v). quoted k @ [0x3A] @ v) fs) @ [0x7D]"

text \<open>
  The picks are the results of rand.IntN: one pair of indices per player; their
  number is the online count.  json.Marshal prints the keys of a map sorted.
\<close>

definition status_player :: "nat \<times> nat \<Rightarrow> byte list" where
  "status_player p = json_obj [(''id'', quoted ''00000000-0000-0000-0000-000000000000''),
     (''name'', quoted (status_adjectives ! fst p @ status_nouns ! snd p))]"

definition randomMCStatusJSON :: "(nat \<times> nat) list \<Rightarrow> byte list" where
  "randomMCStatusJSON picks = json_obj [
     (''description'', json_obj [(''text'', quoted ''A Minecraft Server'')]),
     (''players'', json_obj [(''max'', dec 20), (''online'', dec (length picks)),
        (''sample'', [0x5B] @ json_join (map status_player picks) @ [0x5D])]),
     (''version'', json_obj [(''name'', quoted ''1.20.4''), (''protocol'', dec (nat defaultMCProtocol))])]"

section \<open>Minecraft handshakes\<close>

definition sendMCDisconnect :: "camo_env \<Rightarrow> byte list \<Rightarrow> unit io" where
  "sendMCDisconnect E message = writeMCPacket (encodeMCDisconnect (e_json_text E) message)"

definition mcStatusPingClient :: "camo_env \<Rightarrow> byte list \<Rightarrow> 16 word \<Rightarrow> 64 word \<Rightarrow> unit io" where
  "mcStatusPingClient E host port pingTime =
     iobind (iowrap ''mc status handshake'' (writeMCPacket (encodeMCHandshake defaultMCProtocol host port mcStateStatus))) (\<lambda>_.
     iobind (iowrap ''mc status request'' (writeMCPacket encodeMCStatusRequest)) (\<lambda>_.
     iobind (iowrap ''mc status response'' readMCPacket) (\<lambda>statusResp.
     iobind (iolift (wrap ''mc status invalid'' (decodeMCStatusResponse (e_json_Valid E) statusResp))) (\<lambda>_.
     iobind (iowrap ''mc ping'' (writeMCPacket (encodeMCPing pingTime))) (\<lambda>_.
     iobind (iowrap ''mc pong'' readMCPacket) (\<lambda>pong.
     iolift (decodeMCPong pong pingTime)))))))"

definition mcStatusPingServer :: "byte list \<Rightarrow> unit io" where
  "mcStatusPingServer status =
     iobind (iowrap ''mc status handshake'' readMCPacket) (\<lambda>hs.
     iobind (iolift (wrap ''mc status handshake invalid'' (decodeMCHandshake hs mcStateStatus))) (\<lambda>_.
     iobind (iowrap ''mc status request'' readMCPacket) (\<lambda>req.
     iobind (iolift (wrap ''mc status request invalid'' (decodeMCStatusRequest req))) (\<lambda>_.
     iobind (iowrap ''mc status response'' (writeMCPacket (encodeMCStatusResponse status))) (\<lambda>_.
     iobind (iowrap ''mc ping'' readMCPacket) (\<lambda>ping.
     iobind (iolift (wrap ''mc ping invalid'' (decodeMCPing ping))) (\<lambda>t.
     writeMCPacket (encodeMCPong t))))))))"

definition encodeMCEncryptionRequest ::
    "camo_env \<Rightarrow> byte list \<Rightarrow> byte list \<Rightarrow> camo_err + byte list" where
  "encodeMCEncryptionRequest E hello verifyToken =
     ebind (e_marshalPKIX E (bytes_to_nat hello)) (\<lambda>der.
     Inr (writeMCVarInt mcIDEncryptionRequest @ writeMCString [] @ writeMCByteArray der @
          writeMCByteArray verifyToken))"

definition decodeMCEncryptionRequest :: "camo_env \<Rightarrow> byte list \<Rightarrow> camo_err + byte list" where
  "decodeMCEncryptionRequest E rest =
     ebind (readMCString rest) (\<lambda>(_, r).
     ebind (readMCByteArray r) (\<lambda>(der, r).
     ebind (readMCByteArray r) (\<lambda>(_, r).
     ebind (e_parsePKIX E der) (\<lambda>pub.
     case pub of
       None \<Rightarrow> Inl ErrServerKey
     | Some n \<Rightarrow> if bit_len n \<noteq> secureBlobLen * 8 then Inl ErrServerKey
                 else Inr (fill_bytes secureBlobLen n)))))"

definition encodeMCEncryptionResponse :: "byte list \<Rightarrow> byte list \<Rightarrow> byte list" where
  "encodeMCEncryptionResponse sharedSecret verifyToken =
     writeMCVarInt mcIDEncryptionResponse @ writeMCByteArray sharedSecret @ writeMCByteArray verifyToken"

definition decodeMCEncryptionResponse :: "byte list \<Rightarrow> camo_err + byte list" where
  "decodeMCEncryptionResponse rest =
     ebind (readMCByteArray rest) (\<lambda>(secret, r).
     ebind (readMCByteArray r) (\<lambda>(_, r).
     if length r \<noteq> 0 \<or> length secret \<noteq> secureBlobLen then Inl ErrEncryptionResponse
     else Inr secret))"

definition performMCCamouflageClientSecure ::
    "camo_env \<Rightarrow> mcCamouflageConfig \<Rightarrow> bool \<Rightarrow> byte list \<Rightarrow> 16 word \<Rightarrow> 64 word \<Rightarrow> ret_conn io" where
  "performMCCamouflageClientSecure E cfg toNAT host port pingTime = with_deadline (
     iobind (mcStatusPingClient E host port pingTime) (\<lambda>_.
     iobind (iowrap ''mc login handshake'' (writeMCPacket (encodeMCHandshake defaultMCProtocol host port mcStateLogin))) (\<lambda>_.
     iobind (iowrap ''mc login start'' (writeMCPacket (encodeMCLoginStartUUID (e_md5 E) (mc_loginUsername cfg)))) (\<lambda>_.
     iobind (iowrap ''mc encryption request'' readMCPacket) (\<lambda>pkt.
     iobind (iolift (mcPacketHead pkt)) (\<lambda>(i, rest).
     if i = mcIDEncryptionRequest then
       iobind (iolift (wrap ''mc encryption request invalid'' (decodeMCEncryptionRequest E rest))) (\<lambda>hello.
       let psk = securePSK E (mc_pluginSecret cfg) in
       iobind (iowrap ''mc encryption request'' (secureClientReply E psk hello toNAT)) (\<lambda>(reply, keys).
       iobind (rand_Read secureBlobLen) (\<lambda>token.
       iobind (iowrap ''mc encryption response'' (writeMCPacket (encodeMCEncryptionResponse reply token))) (\<lambda>_.
       iobind (newSecureConn E keys False) (\<lambda>_.
       iobind (iowrap ''mc login success'' readMCPacket) (\<lambda>success.
       iobind (iolift (wrap ''mc login success invalid'' (decodeMCLoginSuccess (e_chat_text E) success (mc_loginUsername cfg)))) (\<lambda>_.
       ioret ConnValue)))))))
     else if i = mcIDDisconnect then
       iofail (ErrServerRejected (decodeMCDisconnectMessage (e_chat_text E) rest))
     else if i = mcIDLoginPluginRequest then iofail ErrLegacyPeer
     else iofail (ErrPacketID i)))))))"

definition performMCCamouflageServerSecure ::
    "camo_env \<Rightarrow> mcCamouflageConfig \<Rightarrow> byte list \<Rightarrow> (ret_conn \<times> bool) io" where
  "performMCCamouflageServerSecure E cfg status = with_deadline (
     iobind (mcStatusPingServer status) (\<lambda>_.
     iobind (iowrap ''mc login handshake'' readMCPacket) (\<lambda>hs.
     iobind (iolift (wrap ''mc login handshake invalid'' (decodeMCHandshake hs mcStateLogin))) (\<lambda>_.
     iobind (iowrap ''mc login start'' readMCPacket) (\<lambda>start.
     iobind (iolift (wrap ''mc login start invalid'' (decodeMCLoginStart start))) (\<lambda>_.
     let psk = securePSK E (mc_pluginSecret cfg) in
     iobind (secureServerHello E psk) (\<lambda>(hello, priv).
     iobind (rand_Read 4) (\<lambda>verify.
     iobind (iolift (encodeMCEncryptionRequest E hello verify)) (\<lambda>req.
     iobind (iowrap ''mc encryption request'' (writeMCPacket req)) (\<lambda>_.
     iobind (iowrap ''mc encryption response'' readMCPacket) (\<lambda>resp.
     case mcPacketHead resp of
       Inl _ \<Rightarrow> iobind (sendMCDisconnect E (mc_rejectMessage cfg)) (\<lambda>_. ioret (NilConn, False))
     | Inr (i, rest) \<Rightarrow>
         if i \<noteq> mcIDEncryptionResponse then
           iobind (sendMCDisconnect E (mc_rejectMessage cfg)) (\<lambda>_. ioret (NilConn, False))
         else case decodeMCEncryptionResponse rest of
           Inl _ \<Rightarrow> iobind (sendMCDisconnect E (mc_rejectMessage cfg)) (\<lambda>_. ioret (NilConn, False))
         | Inr reply \<Rightarrow>
             iobind (iolift (secureServerFinish E psk hello priv reply)) (\<lambda>(keys, toNAT).
             iobind (newSecureConn E keys True) (\<lambda>_.
             iobind (iowrap ''mc login success'' (writeMCPacket (encodeMCLoginSuccess (e_md5 E) (mc_loginUsername cfg)))) (\<lambda>_.
             ioret (ConnValue, toNAT)))))))))))))))"

definition performMCCamouflageClientShallow ::
    "camo_env \<Rightarrow> byte list \<Rightarrow> 16 word \<Rightarrow> unit io" where
  "performMCCamouflageClientShallow E host port = with_deadline (
     iobind (iowrap ''mc shallow client handshake'' (writeMCPacket (encodeMCHandshake defaultMCProtocol host port mcStateStatus))) (\<lambda>_.
     iobind (iowrap ''mc shallow client status request'' (writeMCPacket encodeMCStatusRequest)) (\<lambda>_.
     iobind (iowrap ''mc shallow client status response'' readMCPacket) (\<lambda>resp.
     iolift (wrap ''mc shallow client status invalid'' (decodeMCStatusResponse (e_json_Valid E) resp))))))"

definition performMCCamouflageServerShallow :: "byte list \<Rightarrow> unit io" where
  "performMCCamouflageServerShallow status = with_deadline (
     iobind (iowrap ''mc shallow server handshake'' readMCPacket) (\<lambda>handshakePayload.
     iobind (iolift (wrap ''mc shallow server handshake invalid'' (decodeMCHandshake handshakePayload mcStateStatus))) (\<lambda>_.
     iobind (iowrap ''mc shallow server status request'' readMCPacket) (\<lambda>statusReq.
     iobind (iolift (wrap ''mc shallow server status request invalid'' (decodeMCStatusRequest statusReq))) (\<lambda>_.
     iowrap ''mc shallow server status response'' (writeMCPacket (encodeMCStatusResponse status)))))))"

definition buildPluginResponse :: "camo_env \<Rightarrow> byte list \<Rightarrow> byte list \<Rightarrow> bool \<Rightarrow> byte list" where
  "buildPluginResponse E secret challenge toNAT =
     (let flag = (if toNAT then 1 else 0) in e_hmac E secret (challenge @ [flag]) @ [flag])"

definition verifyPluginResponse ::
    "camo_env \<Rightarrow> byte list \<Rightarrow> byte list \<Rightarrow> byte list \<Rightarrow> bool \<times> bool" where
  "verifyPluginResponse E secret challenge data =
     (if length data \<noteq> 33 then (False, False)
      else let flag = data ! 32 in
        if flag > 1 then (False, False)
        else if take 32 data \<noteq> e_hmac E secret (challenge @ [flag]) then (False, False)
        else (True, flag = 1))"

definition performMCCamouflageClientDeep ::
    "camo_env \<Rightarrow> mcCamouflageConfig \<Rightarrow> bool \<Rightarrow> byte list \<Rightarrow> 16 word \<Rightarrow> 64 word \<Rightarrow> unit io" where
  "performMCCamouflageClientDeep E cfg toNAT host port pingTime = with_deadline (
     iobind (iowrap ''mc deep client status handshake'' (writeMCPacket (encodeMCHandshake defaultMCProtocol host port mcStateStatus))) (\<lambda>_.
     iobind (iowrap ''mc deep client status request'' (writeMCPacket encodeMCStatusRequest)) (\<lambda>_.
     iobind (iowrap ''mc deep client status response'' readMCPacket) (\<lambda>statusResp.
     iobind (iolift (wrap ''mc deep client status invalid'' (decodeMCStatusResponse (e_json_Valid E) statusResp))) (\<lambda>_.
     iobind (iowrap ''mc deep client ping'' (writeMCPacket (encodeMCPing pingTime))) (\<lambda>_.
     iobind (iowrap ''mc deep client pong'' readMCPacket) (\<lambda>pongPayload.
     iobind (iolift (wrap ''mc deep client pong invalid'' (decodeMCPong pongPayload pingTime))) (\<lambda>_.
     iobind (iowrap ''mc deep client login handshake'' (writeMCPacket (encodeMCHandshake defaultMCProtocol host port mcStateLogin))) (\<lambda>_.
     iobind (iowrap ''mc deep client login start'' (writeMCPacket (encodeMCLoginStart (mc_loginUsername cfg)))) (\<lambda>_.
     iobind (iowrap ''mc deep client login plugin request'' readMCPacket) (\<lambda>pluginReq.
     iobind (iolift (wrap ''mc deep client login plugin request invalid'' (decodeMCLoginPluginRequest pluginReq))) (\<lambda>challenge.
     iobind (iolift (validatePluginChannel (challenge_channel challenge) (mc_pluginChannel cfg))) (\<lambda>_.
     let responseData = buildPluginResponse E (mc_pluginSecret cfg) (challenge_data challenge) toNAT in
     iobind (iowrap ''mc deep client login plugin response'' (writeMCPacket (encodeMCLoginPluginResponse (mc_pluginChannel cfg) responseData))) (\<lambda>_.
     iobind (iowrap ''mc deep client login success'' readMCPacket) (\<lambda>loginSuccess.
     iolift (wrap ''mc deep client login success invalid'' (decodeMCLoginSuccess (e_chat_text E) loginSuccess (mc_loginUsername cfg))))))))))))))))))"

definition performMCCamouflageServerDeep ::
    "camo_env \<Rightarrow> mcCamouflageConfig \<Rightarrow> byte list \<Rightarrow> bool io" where
  "performMCCamouflageServerDeep E cfg status =
     iobind (conn_SetDeadline True) (\<lambda>_.
     iobind (iowrap ''mc deep server status handshake'' readMCPacket) (\<lambda>handshakePayload.
     iobind (iolift (wrap ''mc deep server status handshake invalid'' (decodeMCHandshake handshakePayload mcStateStatus))) (\<lambda>_.
     iobind (iowrap ''mc deep server status request'' readMCPacket) (\<lambda>statusReq.
     iobind (iolift (wrap ''mc deep server status request invalid'' (decodeMCStatusRequest statusReq))) (\<lambda>_.
     iobind (iowrap ''mc deep server status response'' (writeMCPacket (encodeMCStatusResponse status))) (\<lambda>_.
     iobind (iowrap ''mc deep server ping'' readMCPacket) (\<lambda>pingPayload.
     iobind (iolift (wrap ''mc deep server ping invalid'' (decodeMCPing pingPayload))) (\<lambda>pingTime.
     iobind (iowrap ''mc deep server pong'' (writeMCPacket (encodeMCPong pingTime))) (\<lambda>_.
     iobind (iowrap ''mc deep server login handshake'' readMCPacket) (\<lambda>loginHandshake.
     iobind (iolift (wrap ''mc deep server login handshake invalid'' (decodeMCHandshake loginHandshake mcStateLogin))) (\<lambda>_.
     iobind (iowrap ''mc deep server login start'' readMCPacket) (\<lambda>loginStart.
     iobind (iolift (wrap ''mc deep server login start invalid'' (decodeMCLoginStart loginStart))) (\<lambda>username.
     iobind (rand_Read 8) (\<lambda>challenge.
     iobind (iowrap ''mc deep server login plugin request'' (writeMCPacket (encodeMCLoginPluginRequest (mc_pluginChannel cfg) challenge))) (\<lambda>_.
     iobind (conn_SetDeadline True) (\<lambda>_.
     iobind (iowrap ''mc deep server login follow-up'' readMCPacket) (\<lambda>nextPayload.
     iobind (iolift (wrap ''mc deep server login follow-up invalid'' (mcPacketHead nextPayload))) (\<lambda>(packetID, rest).
     if packetID = mcIDLoginPluginResponse then
       iobind (iolift (wrap ''mc deep server login plugin response invalid'' (decodeMCLoginPluginResponseBody rest))) (\<lambda>(channel, data).
       iobind (iolift (validatePluginChannel channel (mc_pluginChannel cfg))) (\<lambda>_.
       let (ok, toNAT) = verifyPluginResponse E (mc_pluginSecret cfg) challenge data in
       if \<not> ok then iobind (sendMCDisconnect E (mc_rejectMessage cfg)) (\<lambda>_. ioret False)
       else iobind (iowrap ''mc deep server login success'' (writeMCPacket (encodeMCLoginSuccess (e_md5 E) (mc_loginUsername cfg)))) (\<lambda>_.
         do { _ \<leftarrow> conn_SetDeadline False; ioret toNAT })))
     else iobind (sendMCDisconnect E (mc_rejectMessage cfg)) (\<lambda>_. ioret False)))))))))))))))))))"

definition performMCCamouflageClient ::
    "camo_env \<Rightarrow> camo_bind \<Rightarrow> byte list \<Rightarrow> 16 word \<Rightarrow> 64 word \<Rightarrow> ret_conn io" where
  "performMCCamouflageClient E b host port pingTime =
     (let cfg = mcDeepConfig b in
      if \<not> mc_enabled cfg then ioret ConnValue
      else if camo_secure (b_camoShared b) then
        performMCCamouflageClientSecure E cfg (b_dialToNAT b) host port pingTime
      else if \<not> mc_deep cfg then
        iobind (performMCCamouflageClientShallow E host port) (\<lambda>_. ioret ConnValue)
      else iobind (performMCCamouflageClientDeep E cfg (b_dialToNAT b) host port pingTime) (\<lambda>_. ioret ConnValue))"

definition performMCCamouflageServer ::
    "camo_env \<Rightarrow> camo_bind \<Rightarrow> byte list \<Rightarrow> (ret_conn \<times> bool) io" where
  "performMCCamouflageServer E b status =
     (let cfg = mcDeepConfig b in
      if \<not> mc_enabled cfg then ioret (ConnValue, False)
      else if camo_secure (b_camoShared b) then performMCCamouflageServerSecure E cfg status
      else if \<not> mc_deep cfg then
        iobind (performMCCamouflageServerShallow status) (\<lambda>_. ioret (ConnValue, False))
      else iobind (performMCCamouflageServerDeep E cfg status) (\<lambda>toNAT. ioret (ConnValue, toNAT)))"

section \<open>Running the Minecraft handshakes\<close>

definition mc_frame :: "byte list \<Rightarrow> byte list" where
  "mc_frame p = writeMCVarInt (int (length p)) @ p"

lemma writeMCPacket_frame: "writeMCPacket p = writeAll (mc_frame p)"
  by (simp add: writeMCPacket_def mc_frame_def)

lemma run_readMCPacket_frame:
  assumes "\<not> c_closed c" "pending c = mc_frame p @ rest" "length p \<le> 2 ^ 20"
  shows "run_state readMCPacket c = (Inr p, advance (length (mc_frame p)) c)"
  using run_readMCPacket [of c p rest] assms by (simp add: mc_frame_def)

lemma read_frame:
  assumes "length p \<le> 2 ^ 20"
  shows "run_state readMCPacket
      \<lparr>c_in = mc_frame p @ rest, c_out = co, c_wcap = w, c_sched = sc, c_rand = r, c_armed = a,
       c_closed = False, c_rd = None, c_wr = cw\<rparr> =
    (Inr p, \<lparr>c_in = rest, c_out = co, c_wcap = w, c_sched = sc, c_rand = r, c_armed = a,
       c_closed = False, c_rd = None, c_wr = cw\<rparr>)"
  by (subst run_readMCPacket_frame [OF _ _ assms, where rest = rest])
     (simp_all add: pending_def advance_def)

lemma read_frame_last:
  assumes "length p \<le> 2 ^ 20"
  shows "run_state readMCPacket
      \<lparr>c_in = mc_frame p, c_out = co, c_wcap = w, c_sched = sc, c_rand = r, c_armed = a,
       c_closed = False, c_rd = None, c_wr = cw\<rparr> =
    (Inr p, \<lparr>c_in = [], c_out = co, c_wcap = w, c_sched = sc, c_rand = r, c_armed = a,
       c_closed = False, c_rd = None, c_wr = cw\<rparr>)"
  using read_frame [OF assms, where rest = "[]"] by simp

lemma read_frame_crypt:
  assumes "length p \<le> 2 ^ 20"
  shows "run_state readMCPacket
      \<lparr>c_in = st_xor s (mc_frame p), c_out = co, c_wcap = w, c_sched = sc, c_rand = r, c_armed = a,
       c_closed = False, c_rd = s, c_wr = cw\<rparr> =
    (Inr p, \<lparr>c_in = [], c_out = co, c_wcap = w, c_sched = sc, c_rand = r, c_armed = a,
       c_closed = False, c_rd = st_skip (length (mc_frame p)) s, c_wr = cw\<rparr>)"
proof -
  have "st_xor s (st_xor s x) = x" for x by (cases s) (simp_all add: st_xor_def)
  then show ?thesis
    by (subst run_readMCPacket_frame [OF _ _ assms, where rest = "[]"])
       (simp_all add: pending_def advance_def)
qed

lemma length_writeMCString_le: "length (writeMCString s) \<le> 5 + length s"
  and length_writeMCByteArray_le: "length (writeMCByteArray s) \<le> 5 + length s"
  using length_writeMCVarInt [of "int (length s)"]
  by (simp_all add: writeMCString_def writeMCByteArray_def)

lemma packet_sizes:
  "length host \<le> 2 ^ 16 \<Longrightarrow> length (encodeMCHandshake v host port st) \<le> 2 ^ 20"
  "length encodeMCStatusRequest \<le> 2 ^ 20"
  "length j \<le> 2 ^ 16 \<Longrightarrow> length (encodeMCStatusResponse j) \<le> 2 ^ 20"
  "length (encodeMCPing t) \<le> 2 ^ 20"
  "length (encodeMCPong t) \<le> 2 ^ 20"
  "length u \<le> 2 ^ 16 \<Longrightarrow> length (encodeMCLoginStart u) \<le> 2 ^ 20"
  "\<lbrakk>length ch \<le> 2 ^ 16; length d \<le> 2 ^ 16\<rbrakk> \<Longrightarrow> length (encodeMCLoginPluginRequest ch d) \<le> 2 ^ 20"
  "\<lbrakk>length ch \<le> 2 ^ 16; length d \<le> 2 ^ 16\<rbrakk> \<Longrightarrow> length (encodeMCLoginPluginResponse ch d) \<le> 2 ^ 20"
  "\<lbrakk>length u \<le> 2 ^ 16; \<And>x. length (md5 x) = 16\<rbrakk> \<Longrightarrow> length (encodeMCLoginSuccess md5 u) \<le> 2 ^ 20"
  "\<lbrakk>length u \<le> 2 ^ 16; \<And>x. length (md5 x) = 16\<rbrakk> \<Longrightarrow> length (encodeMCLoginStartUUID md5 u) \<le> 2 ^ 20"
  using length_writeMCString_le [of host] length_writeMCString_le [of j] length_writeMCString_le [of u]
    length_writeMCString_le [of ch] length_writeMCByteArray_le [of d]
    length_writeMCVarInt [of mcIDHandshake] length_writeMCVarInt [of v] length_writeMCVarInt [of st]
    length_writeMCVarInt [of mcIDStatusRequest] length_writeMCVarInt [of mcIDStatusResponse]
    length_writeMCVarInt [of mcIDPingRequest] length_writeMCVarInt [of mcIDPongResponse]
    length_writeMCVarInt [of mcIDLoginStart] length_writeMCVarInt [of mcIDLoginPluginRequest]
    length_writeMCVarInt [of mcIDLoginPluginResponse] length_writeMCVarInt [of mcIDLoginSuccess]
    length_writeMCVarInt [of 0]
  by (simp_all add: encodeMCHandshake_def encodeMCStatusRequest_def encodeMCStatusResponse_def
      encodeMCPing_def encodeMCPong_def encodeMCLoginStart_def encodeMCLoginPluginRequest_def
      encodeMCLoginPluginResponse_def encodeMCLoginSuccess_def encodeMCLoginStartUUID_def)

lemma verify_build:
  "hmac_size E \<Longrightarrow> verifyPluginResponse E secret ch (buildPluginResponse E secret ch toNAT) = (True, toNAT)"
  by (simp add: verifyPluginResponse_def buildPluginResponse_def hmac_size_def Let_def nth_append)

lemma length_buildPluginResponse:
  "hmac_size E \<Longrightarrow> length (buildPluginResponse E secret ch toNAT) = 33"
  by (simp add: buildPluginResponse_def hmac_size_def Let_def)

lemma less_32: "n \<le> 2 ^ 16 \<Longrightarrow> n < 2 ^ 32" for n :: nat
  by (erule le_less_trans) simp

lemmas mc_run_sizes = packet_sizes [simplified] less_32 [simplified]

text \<open>What the two sides of the deep handshake send.\<close>

definition deep_c2s ::
    "camo_env \<Rightarrow> mcCamouflageConfig \<Rightarrow> bool \<Rightarrow> byte list \<Rightarrow> 16 word \<Rightarrow> 64 word \<Rightarrow> byte list \<Rightarrow> byte list" where
  "deep_c2s E cfg toNAT host port t challenge =
     mc_frame (encodeMCHandshake defaultMCProtocol host port mcStateStatus) @
     mc_frame encodeMCStatusRequest @ mc_frame (encodeMCPing t) @
     mc_frame (encodeMCHandshake defaultMCProtocol host port mcStateLogin) @
     mc_frame (encodeMCLoginStart (mc_loginUsername cfg)) @
     mc_frame (encodeMCLoginPluginResponse (mc_pluginChannel cfg)
                 (buildPluginResponse E (mc_pluginSecret cfg) challenge toNAT))"

definition deep_s2c ::
    "camo_env \<Rightarrow> mcCamouflageConfig \<Rightarrow> byte list \<Rightarrow> 64 word \<Rightarrow> byte list \<Rightarrow> byte list" where
  "deep_s2c E cfg status t challenge =
     mc_frame (encodeMCStatusResponse status) @ mc_frame (encodeMCPong t) @
     mc_frame (encodeMCLoginPluginRequest (mc_pluginChannel cfg) challenge) @
     mc_frame (encodeMCLoginSuccess (e_md5 E) (mc_loginUsername cfg))"

lemma st_ranges: "0 \<le> mcStateStatus" "mcStateStatus < 2 ^ 32" "0 \<le> mcStateLogin" "mcStateLogin < 2 ^ 32"
  by (simp_all add: mc_ids)

lemma run_deep_server:
  assumes E: "hmac_size E" "md5_size E"
    and sizes: "length host \<le> 2 ^ 16" "length status \<le> 2 ^ 16" "length (mc_loginUsername cfg) \<le> 2 ^ 16"
      "length (mc_pluginChannel cfg) \<le> 2 ^ 16"
    and s: "flowing s" "c_rd s = None" "c_wr s = None" "8 \<le> length (c_rand s)"
    and input: "c_in s = deep_c2s E cfg toNAT host port t (take 8 (c_rand s))"
  shows "run_state (performMCCamouflageServerDeep E cfg status) s =
    (Inr toNAT, s\<lparr>c_in := [], c_out := c_out s @ deep_s2c E cfg status t (take 8 (c_rand s)),
                   c_rand := drop 8 (c_rand s), c_armed := False\<rparr>)"
  using assms
  by (cases s)
     (simp add: performMCCamouflageServerDeep_def deep_c2s_def deep_s2c_def conn_SetDeadline_def
       writeMCPacket_frame exec_simps read_frame read_frame_last mc_run_sizes
       handshake_roundtrip status_roundtrip ping_roundtrip login_start_roundtrip plugin_roundtrip
       st_ranges [simplified] length_buildPluginResponse verify_build validatePluginChannel_def Let_def
       md5_size_def)

lemma run_deep_client:
  assumes E: "hmac_size E" "md5_size E" and valid: "e_json_Valid E status"
    and sizes: "length host \<le> 2 ^ 16" "length status \<le> 2 ^ 16" "length (mc_loginUsername cfg) \<le> 2 ^ 16"
      "length (mc_pluginChannel cfg) \<le> 2 ^ 16" "length challenge = 8"
    and c: "flowing c" "c_rd c = None" "c_wr c = None"
    and input: "c_in c = deep_s2c E cfg status t challenge"
  shows "run_state (performMCCamouflageClientDeep E cfg toNAT host port t) c =
    (Inr (), c\<lparr>c_in := [], c_out := c_out c @ deep_c2s E cfg toNAT host port t challenge, c_armed := False\<rparr>)"
  using assms
  by (cases c)
     (simp add: performMCCamouflageClientDeep_def deep_c2s_def deep_s2c_def with_deadline_def
       conn_SetDeadline_def writeMCPacket_frame exec_simps read_frame read_frame_last mc_run_sizes
       handshake_roundtrip status_roundtrip ping_roundtrip login_start_roundtrip plugin_roundtrip
       login_success_roundtrip st_ranges [simplified] validatePluginChannel_def Let_def md5_size_def)

text \<open>
  x509.MarshalPKIXPublicKey encodes an RSA key with a 1024-bit modulus in less
  than 2^16 bytes, and ParsePKIXPublicKey reads the key back.
\<close>

definition pkix_ok :: "camo_env \<Rightarrow> bool" where
  "pkix_ok E \<longleftrightarrow> (\<forall>n. bit_len n = 1024 \<longrightarrow>
     (\<exists>der. e_marshalPKIX E n = Inr der \<and> length der \<le> 2 ^ 16 \<and> e_parsePKIX E der = Inr (Some n)))"

definition enc_request :: "camo_env \<Rightarrow> byte list \<Rightarrow> byte list \<Rightarrow> byte list" where
  "enc_request E hello verify = projr (encodeMCEncryptionRequest E hello verify)"

lemma encryption_request:
  assumes "pkix_ok E" "length hello = 128" "bit (hd hello) 7" "length verify \<le> 2 ^ 16"
  shows "encodeMCEncryptionRequest E hello verify = Inr (enc_request E hello verify)"
    and "length (enc_request E hello verify) \<le> 2 ^ 20"
    and "\<exists>rest. mcPacketHead (enc_request E hello verify) = Inr (mcIDEncryptionRequest, rest) \<and>
           decodeMCEncryptionRequest E rest = Inr hello"
proof -
  let ?n = "bytes_to_nat hello"
  have n: "bit_len ?n = 1024" using bit_len_bytes [of hello 127] assms(2,3) by simp
  then obtain der where der: "e_marshalPKIX E ?n = Inr der" "length der \<le> 2 ^ 16"
      "e_parsePKIX E der = Inr (Some ?n)"
    using assms(1) by (auto simp: pkix_ok_def)
  have fb: "fill_bytes 128 ?n = hello" using fill_bytes_bytes_to_nat [of hello] assms(2) by simp
  from der show "encodeMCEncryptionRequest E hello verify = Inr (enc_request E hello verify)"
    by (simp add: enc_request_def encodeMCEncryptionRequest_def)
  show "length (enc_request E hello verify) \<le> 2 ^ 20"
    using der assms(4) length_writeMCString_le [of "[]"] length_writeMCByteArray_le [of der]
      length_writeMCByteArray_le [of verify] length_writeMCVarInt [of mcIDEncryptionRequest]
    by (simp add: enc_request_def encodeMCEncryptionRequest_def)
  show "\<exists>rest. mcPacketHead (enc_request E hello verify) = Inr (mcIDEncryptionRequest, rest) \<and>
           decodeMCEncryptionRequest E rest = Inr hello"
    using der assms(4) less_32 [of "length der"] less_32 [of "length verify"]
    by (simp add: enc_request_def encodeMCEncryptionRequest_def mcPacketHead_def
        decodeMCEncryptionRequest_def mcIDEncryptionRequest_def n fb secure_sizes)
qed

lemma encryption_response:
  assumes "length reply = 128" "length token = 128"
  shows "\<exists>rest. mcPacketHead (encodeMCEncryptionResponse reply token) = Inr (mcIDEncryptionResponse, rest) \<and>
           decodeMCEncryptionResponse rest = Inr reply"
    and "length (encodeMCEncryptionResponse reply token) \<le> 2 ^ 20"
  using assms length_writeMCByteArray_le [of reply] length_writeMCByteArray_le [of token]
    length_writeMCVarInt [of mcIDEncryptionResponse]
  by (simp_all add: encodeMCEncryptionResponse_def mcPacketHead_def decodeMCEncryptionResponse_def
      mcIDEncryptionResponse_def secure_sizes)

lemma hd_hello_of: "160 \<le> length rs \<Longrightarrow> bit (hd (hello_of E psk rs)) 7"
proof -
  assume "160 \<le> length rs"
  then have "hd (hello_of E psk rs) = drop 32 rs ! 0 OR 0x80"
    by (simp add: hello_of_def sealed_blob_def sealed_head_def shaped_def Let_def hd_append hd_conv_nth)
  then show ?thesis by (simp add: bit_simps)
qed

text \<open>What the two sides of the secure Minecraft handshake send.\<close>

definition secure_c2s ::
    "camo_env \<Rightarrow> mcCamouflageConfig \<Rightarrow> bool \<Rightarrow> byte list \<Rightarrow> 16 word \<Rightarrow> 64 word \<Rightarrow> byte list \<Rightarrow> byte list \<Rightarrow> byte list" where
  "secure_c2s E cfg toNAT host port t rs rc =
     (let psk = securePSK E (mc_pluginSecret cfg) in
      mc_frame (encodeMCHandshake defaultMCProtocol host port mcStateStatus) @
      mc_frame encodeMCStatusRequest @ mc_frame (encodeMCPing t) @
      mc_frame (encodeMCHandshake defaultMCProtocol host port mcStateLogin) @
      mc_frame (encodeMCLoginStartUUID (e_md5 E) (mc_loginUsername cfg)) @
      mc_frame (encodeMCEncryptionResponse (reply_of E psk (hello_of E psk rs) toNAT rc)
                  (take 128 (drop 160 rc))))"

definition secure_s2c ::
    "camo_env \<Rightarrow> mcCamouflageConfig \<Rightarrow> byte list \<Rightarrow> bool \<Rightarrow> 64 word \<Rightarrow> byte list \<Rightarrow> byte list \<Rightarrow> byte list" where
  "secure_s2c E cfg status toNAT t rs rc =
     (let psk = securePSK E (mc_pluginSecret cfg) in
      mc_frame (encodeMCStatusResponse status) @ mc_frame (encodeMCPong t) @
      mc_frame (enc_request E (hello_of E psk rs) (take 4 (drop 160 rs))) @
      st_xor (Some (key_stream E (k_s2c (keys_of E psk rs toNAT rc))))
        (mc_frame (encodeMCLoginSuccess (e_md5 E) (mc_loginUsername cfg))))"

lemma run_secure_server:
  assumes E: "hmac_size E" "md5_size E" "x25519_agrees E" "pkix_ok E"
    and sizes: "length host \<le> 2 ^ 16" "length status \<le> 2 ^ 16" "length (mc_loginUsername cfg) \<le> 2 ^ 16"
    and s: "flowing s" "c_rd s = None" "c_wr s = None" "164 \<le> length (c_rand s)"
    and rc: "288 \<le> length rc"
    and k: "k = keys_of E (securePSK E (mc_pluginSecret cfg)) (c_rand s) toNAT rc"
    and input: "c_in s = secure_c2s E cfg toNAT host port t (c_rand s) rc"
  shows "run_state (performMCCamouflageServerSecure E cfg status) s =
    (Inr (ConnValue, toNAT),
     s\<lparr>c_in := [], c_out := c_out s @ secure_s2c E cfg status toNAT t (c_rand s) rc,
       c_rand := drop 164 (c_rand s), c_armed := False, c_rd := Some (key_stream E (k_c2s k)),
       c_wr := st_skip (length (mc_frame (encodeMCLoginSuccess (e_md5 E) (mc_loginUsername cfg))))
                 (Some (key_stream E (k_s2c k)))\<rparr>)"
proof -
  let ?psk = "securePSK E (mc_pluginSecret cfg)"
  let ?h = "hello_of E ?psk (c_rand s)"
  let ?r = "reply_of E ?psk ?h toNAT rc"
  have lens: "length ?h = 128" "length ?r = 128" using E s rc by simp_all
  obtain rest where resp: "mcPacketHead (encodeMCEncryptionResponse ?r (take 128 (drop 160 rc)))
        = Inr (mcIDEncryptionResponse, rest)" "decodeMCEncryptionResponse rest = Inr ?r"
    using encryption_response(1) [of ?r "take 128 (drop 160 rc)"] lens rc by auto
  note req = encryption_request(1,2) [OF E(4) lens(1) hd_hello_of, of "take 4 (drop 160 (c_rand s))"]
  have len_resp: "length (encodeMCEncryptionResponse ?r (take 128 (drop 160 rc))) \<le> 1048576"
    using encryption_response(2) [of ?r "take 128 (drop 160 rc)"] lens rc by simp
  show ?thesis
    using assms resp len_resp req
    by (cases s)
       (simp add: performMCCamouflageServerSecure_def mcStatusPingServer_def with_deadline_def
         secure_c2s_def secure_s2c_def conn_SetDeadline_def writeMCPacket_frame exec_simps
         read_frame read_frame_last mc_run_sizes handshake_roundtrip status_roundtrip ping_roundtrip
         login_start_roundtrip st_ranges [simplified] Let_def md5_size_def run_secureServerHello
         secureServerFinish_reply run_newSecureConn add.commute)
qed

lemma run_secure_client:
  assumes E: "hmac_size E" "md5_size E" "x25519_agrees E" "pkix_ok E" and valid: "e_json_Valid E status"
    and sizes: "length host \<le> 2 ^ 16" "length status \<le> 2 ^ 16" "length (mc_loginUsername cfg) \<le> 2 ^ 16"
    and c: "flowing c" "c_rd c = None" "c_wr c = None" "288 \<le> length (c_rand c)"
    and rs: "164 \<le> length rs"
    and k: "k = keys_of E (securePSK E (mc_pluginSecret cfg)) rs toNAT (c_rand c)"
    and input: "c_in c = secure_s2c E cfg status toNAT t rs (c_rand c)"
  shows "run_state (performMCCamouflageClientSecure E cfg toNAT host port t) c =
    (Inr ConnValue,
     c\<lparr>c_in := [], c_out := c_out c @ secure_c2s E cfg toNAT host port t rs (c_rand c),
       c_rand := drop 288 (c_rand c), c_armed := False,
       c_rd := st_skip (length (mc_frame (encodeMCLoginSuccess (e_md5 E) (mc_loginUsername cfg))))
                 (Some (key_stream E (k_s2c k))),
       c_wr := Some (key_stream E (k_c2s k))\<rparr>)"
proof -
  let ?psk = "securePSK E (mc_pluginSecret cfg)"
  let ?h = "hello_of E ?psk rs" and ?v = "take 4 (drop 160 rs)"
  have lens: "length ?h = 128" "160 \<le> length rs" "length ?v \<le> 2 ^ 16"
    using E rs by (simp_all add: min_le_iff_disj)
  note req = encryption_request [OF E(4) lens(1) hd_hello_of [OF lens(2)] lens(3)]
  obtain rest where head: "mcPacketHead (enc_request E ?h ?v) = Inr (mcIDEncryptionRequest, rest)"
      "decodeMCEncryptionRequest E rest = Inr ?h"
    using req(3) by auto
  have len_req: "length (enc_request E ?h ?v) \<le> 1048576"
    using req(2) by simp
  show ?thesis
    using assms head len_req
    by (cases c)
       (simp add: performMCCamouflageClientSecure_def mcStatusPingClient_def with_deadline_def
         secure_c2s_def secure_s2c_def conn_SetDeadline_def writeMCPacket_frame exec_simps
         read_frame read_frame_last read_frame_crypt mc_run_sizes handshake_roundtrip status_roundtrip
         ping_roundtrip login_start_roundtrip login_success_roundtrip st_ranges [simplified] Let_def
         md5_size_def run_secureClientReply run_newSecureConn secure_sizes add.commute)
qed

section \<open>Properties of the Minecraft handshakes\<close>


lemma demo_env_pkix: "pkix_ok demo_env"
proof -
  have "bytes_to_nat (fill_bytes 128 n) = n" if "bit_len n = 1024" for n
  proof (rule bytes_to_nat_fill_bytes)
    have "n < 2 ^ 1024" using bit_len_bound [of n] that by simp
    also have "(2::nat) ^ 1024 = 256 ^ 128" by (simp flip: power_mult [of 2 8])
    finally show "n < 256 ^ 128" .
  qed
  then show ?thesis
    by (simp add: pkix_ok_def demo_env_def fill_bytes_def)
qed


end
