(* ===== verification/Camo_Profiles.thy ===== *)
theory Camo_Profiles
  imports Camouflage "HOL-Library.Sublist"
begin

text \<open>
  The cover frames (wireguard/conn/camo_cover.go), the other camouflage
  profiles (camo_source.go, camo_terraria.go, camo_steam.go, camo_bedrock.go,
  camo_fivem.go), the dispatch over the profile (camouflage.go) and the
  framing of a session (TCPBind.sessionWrite, the read in TCPBind.readLoop and
  one turn of TCPBind.acceptLoop in tcp_bind.go).
\<close>

section \<open>Cover frames\<close>

definition coverMCPacketID :: int where "coverMCPacketID = 0x19"

definition coverKey :: "camo_env \<Rightarrow> byte list \<Rightarrow> byte list" where
  "coverKey E secret = e_sha256 E (go_str ''wgmc-cover-v1'' @ [0] @ secret)"

definition sealCover :: "camo_env \<Rightarrow> byte list \<Rightarrow> byte list \<Rightarrow> byte list io" where
  "sealCover E secret plain =
     iobind (rand_Read 1) (\<lambda>padLen.
     let n = unat (hd padLen AND 0x0F) in
     iobind (if n > 0 then rand_Read n else ioret []) (\<lambda>pad.
     let body = [of_nat n] @ plain @ pad in
     iobind (rand_Read 16) (\<lambda>nonce.
     ioret (nonce @ xor_at (e_ctr E (coverKey E secret) nonce) 0 body))))"

definition openCover :: "camo_env \<Rightarrow> byte list \<Rightarrow> byte list \<Rightarrow> camo_err + byte list" where
  "openCover E secret sealed =
     (if length sealed < 17 then Inl ErrCoverShort
      else let body = xor_at (e_ctr E (coverKey E secret) (take 16 sealed)) 0 (drop 16 sealed);
               n = unat (body ! 0)
           in if n > 15 \<or> 1 + n > length body then Inl ErrCoverPad
              else Inr (drop 1 (take (length body - n) body)))"

definition encodeCoverMC :: "byte list \<Rightarrow> byte list \<Rightarrow> byte list" where
  "encodeCoverMC channel data =
     writeMCVarInt coverMCPacketID @ writeMCString channel @ writeMCByteArray data"

definition decodeCoverMC :: "byte list \<Rightarrow> byte list \<Rightarrow> camo_err + byte list" where
  "decodeCoverMC payload wantChannel =
     ebind (mcPacketHead payload) (\<lambda>(i, rest).
     if i \<noteq> coverMCPacketID then Inl (ErrCoverPacketID i) else
     ebind (readMCString rest) (\<lambda>(ch, r).
     if ch \<noteq> wantChannel then Inl ErrCoverChannel else
     ebind (readMCByteArray r) (\<lambda>(data, _). Inr data)))"

definition writeCoverFrame :: "camo_env \<Rightarrow> camoSharedConfig \<Rightarrow> byte list \<Rightarrow> unit io" where
  "writeCoverFrame E cfg payload =
     iobind (sealCover E (camo_pluginSecret cfg) payload) (\<lambda>sealed.
     if camo_profile cfg = camoProfileMinecraft then
       writeMCPacket (encodeCoverMC (camo_pluginChannel cfg) sealed)
     else iobind (writeAll ([0xFE] @ be_put (of_nat (length sealed) :: 16 word))) (\<lambda>_.
       writeAll sealed))"

definition readCoverFrame :: "camo_env \<Rightarrow> camoSharedConfig \<Rightarrow> byte list io" where
  "readCoverFrame E cfg =
     iobind (if camo_profile cfg = camoProfileMinecraft then
               iobind readMCPacket (\<lambda>pkt. iolift (decodeCoverMC pkt (camo_pluginChannel cfg)))
             else iobind (io_ReadFull 3) (\<lambda>hdr.
               if hdr ! 0 \<noteq> 0xFE then iofail ErrCoverHeader
               else io_ReadFull (unat (be_get (drop 1 hdr) :: 16 word)))) (\<lambda>sealed.
     iolift (openCover E (camo_pluginSecret cfg) sealed))"

definition camouflageHidesVPN :: "camoSharedConfig \<Rightarrow> bool" where
  "camouflageHidesVPN cfg \<longleftrightarrow> camo_profile cfg \<noteq> camoProfileNone"

section \<open>Frames of a session\<close>

text \<open>The body of TCPBind.sessionWrite for a session that is alive.\<close>

definition sessionWrite_conn :: "camo_env \<Rightarrow> camoSharedConfig \<Rightarrow> byte list \<Rightarrow> unit io" where
  "sessionWrite_conn E cfg buf =
     (if camouflageHidesVPN cfg then writeCoverFrame E cfg buf
      else iobind (writeAll (be_put (of_nat (length buf) :: 16 word))) (\<lambda>_. writeAll buf))"

text \<open>One frame as TCPBind.readLoop reads it.\<close>

definition readLoop_frame :: "camo_env \<Rightarrow> camoSharedConfig \<Rightarrow> byte list io" where
  "readLoop_frame E cfg =
     (if camouflageHidesVPN cfg then readCoverFrame E cfg
      else iobind (io_ReadFull 2) (\<lambda>header.
        let size = unat (be_get header :: 16 word) in
        if size > 0 then io_ReadFull size else ioret []))"

section \<open>The challenge of the other profiles\<close>

definition camoAuthClient :: "camo_env \<Rightarrow> byte list \<Rightarrow> byte list \<Rightarrow> unit io" where
  "camoAuthClient E secret challenge = writeAll (e_hmac E secret challenge)"

definition camoAuthServer :: "camo_env \<Rightarrow> byte list \<Rightarrow> byte list \<Rightarrow> unit io" where
  "camoAuthServer E secret challenge =
     iobind (iowrap ''camo auth read'' (io_ReadFull 32)) (\<lambda>buf.
     if buf \<noteq> e_hmac E secret challenge then iofail ErrAuthRejected else ioret ())"

section \<open>Source\<close>

definition sourceEngineQuery :: "byte list" where
  "sourceEngineQuery = [0xFF, 0xFF, 0xFF, 0xFF] @ go_str ''TSource Engine Query'' @ [0]"

definition writeSourceCString :: "byte list \<Rightarrow> byte list" where
  "writeSourceCString s = s @ [0]"

definition buildSourceInfoResponse :: "byte list \<Rightarrow> byte list" where
  "buildSourceInfoResponse serverName =
     [0xFF, 0xFF, 0xFF, 0xFF] @ go_str ''I'' @ [17] @ writeSourceCString serverName @
     writeSourceCString (go_str ''survival'') @ [0, 32] @ go_str ''d'' @
     writeSourceCString (go_str ''csgo'') @ writeSourceCString (go_str ''Counter-Strike 2'') @
     [0, 0, 0, 0, 0, 0, 0, 0, 0] @ [0x80] @ writeSourceCString (go_str ''de_dust2'')"

definition performSourceCamouflageClient :: "camo_env \<Rightarrow> camoSharedConfig \<Rightarrow> unit io" where
  "performSourceCamouflageClient E cfg = with_deadline (
     iobind (writeAll sourceEngineQuery) (\<lambda>_.
     iobind (iowrap ''source info'' (conn_Read 512)) (\<lambda>resp.
     if length resp < 5 \<or> resp ! 4 \<noteq> 0x49 then iofail (ErrInvalidReply ''source info'')
     else if \<not> camo_deep cfg then ioret ()
     else camoAuthClient E (camo_pluginSecret cfg) (take 32 resp))))"

definition performSourceCamouflageServer :: "camo_env \<Rightarrow> camoSharedConfig \<Rightarrow> unit io" where
  "performSourceCamouflageServer E cfg = with_deadline (
     iobind (iowrap ''source query read'' (io_ReadFull (length sourceEngineQuery))) (\<lambda>buf.
     if buf \<noteq> sourceEngineQuery then iofail (ErrInvalidReply ''source query'')
     else iobind (writeAll (buildSourceInfoResponse (camo_serverName cfg))) (\<lambda>_.
       if \<not> camo_deep cfg then ioret ()
       else camoAuthServer E (camo_pluginSecret cfg)
              (take 32 (buildSourceInfoResponse (camo_serverName cfg))))))"

section \<open>Terraria\<close>

text \<open>binary.LittleEndian.PutUint16 and Uint16.\<close>

definition le_put16 :: "16 word \<Rightarrow> byte list" where "le_put16 w = rev (be_put w)"
definition le_get16 :: "byte list \<Rightarrow> 16 word" where "le_get16 bs = be_get (rev bs)"

definition terrariaConnectMsg :: "16 word" where "terrariaConnectMsg = 82"

definition writeTerrariaPacket :: "16 word \<Rightarrow> byte list \<Rightarrow> unit io" where
  "writeTerrariaPacket msgType payload =
     iobind (writeAll (le_put16 (of_nat (length payload + 2)) @ le_put16 msgType)) (\<lambda>_.
     if length payload > 0 then writeAll payload else ioret ())"

definition readTerrariaPacket :: "(16 word \<times> byte list) io" where
  "readTerrariaPacket =
     iobind (io_ReadFull 4) (\<lambda>hdr.
     let len = le_get16 (take 2 hdr); msgType = le_get16 (drop 2 hdr) in
     if len < 2 then iofail (ErrInvalidReply ''terraria short packet'')
     else let payloadLen = unat len - 2 in
       iobind (if payloadLen > 0 then io_ReadFull payloadLen else ioret []) (\<lambda>payload.
       ioret (msgType, payload)))"

definition terrariaConnectPayload :: "byte list" where
  "terrariaConnectPayload = [193] @ go_str ''Terraria255.255.255.255:7777'' @ [0]"

definition performTerrariaCamouflageClient :: "camo_env \<Rightarrow> camoSharedConfig \<Rightarrow> unit io" where
  "performTerrariaCamouflageClient E cfg = with_deadline (
     iobind (writeTerrariaPacket terrariaConnectMsg terrariaConnectPayload) (\<lambda>_.
     iobind (iowrap ''terraria connect reply'' readTerrariaPacket) (\<lambda>(msgType, payload).
     if \<not> camo_deep cfg then ioret ()
     else camoAuthClient E (camo_pluginSecret cfg) ([ucast msgType] @ payload))))"

definition terraria_reject :: "camoSharedConfig \<Rightarrow> byte list" where
  "terraria_reject cfg =
     (if camo_rejectMessage cfg = [] then go_str ''Authenticating to server...''
      else camo_rejectMessage cfg) @ [0]"

definition performTerrariaCamouflageServer :: "camo_env \<Rightarrow> camoSharedConfig \<Rightarrow> unit io" where
  "performTerrariaCamouflageServer E cfg = with_deadline (
     iobind (iowrap ''terraria connect'' readTerrariaPacket) (\<lambda>(msgType, payload).
     if msgType \<noteq> terrariaConnectMsg then iofail (ErrInvalidReply ''terraria expected connect'')
     else iobind (writeTerrariaPacket 2 (terraria_reject cfg)) (\<lambda>_.
       if \<not> camo_deep cfg then ioret ()
       else camoAuthServer E (camo_pluginSecret cfg) ([ucast msgType] @ payload))))"

section \<open>Steam\<close>

definition steam_request :: "byte list" where
  "steam_request = [0xFF, 0xFF, 0xFF, 0xFF, 0x55, 0xFF, 0xFF, 0xFF, 0xFF]"

definition steam_challenge :: "byte list" where
  "steam_challenge = [0xFF, 0xFF, 0xFF, 0xFF, 0x41] @ be_put (0x00112233 :: 32 word) @ [0, 0, 0, 0]"

definition performSteamCamouflageClient :: "camo_env \<Rightarrow> camoSharedConfig \<Rightarrow> unit io" where
  "performSteamCamouflageClient E cfg = with_deadline (
     iobind (writeAll steam_request) (\<lambda>_.
     iobind (iowrap ''steam challenge'' (conn_Read 64)) (\<lambda>resp.
     if length resp < 9 \<or> resp ! 4 \<noteq> 0x41 then iofail (ErrInvalidReply ''steam challenge'')
     else if \<not> camo_deep cfg then ioret ()
     else camoAuthClient E (camo_pluginSecret cfg) (take 32 resp))))"

definition performSteamCamouflageServer :: "camo_env \<Rightarrow> camoSharedConfig \<Rightarrow> unit io" where
  "performSteamCamouflageServer E cfg = with_deadline (
     iobind (iowrap ''steam request'' (io_ReadFull 9)) (\<lambda>hdr.
     if hdr ! 4 \<noteq> 0x55 then iofail (ErrInvalidReply ''steam request type'')
     else iobind (writeAll steam_challenge) (\<lambda>_.
       if \<not> camo_deep cfg then ioret ()
       else camoAuthServer E (camo_pluginSecret cfg) steam_challenge)))"

section \<open>Bedrock\<close>

definition bedrockPing :: "byte list" where
  "bedrockPing = [0x01, 0, 0, 0, 0, 0, 0, 0, 0] @ go_str ''MCPE;''"

definition bedrockPong :: "byte list \<Rightarrow> byte list" where
  "bedrockPong serverName = [0x1C] @ drop 9 bedrockPing @ serverName @ go_str '';193;20;''"

definition performBedrockCamouflageClient :: "camo_env \<Rightarrow> camoSharedConfig \<Rightarrow> unit io" where
  "performBedrockCamouflageClient E cfg = with_deadline (
     iobind (writeAll bedrockPing) (\<lambda>_.
     iobind (iowrap ''bedrock pong'' (conn_Read 256)) (\<lambda>resp.
     if length resp < 1 \<or> resp ! 0 \<noteq> 0x1C then iofail (ErrInvalidReply ''bedrock pong'')
     else if \<not> camo_deep cfg then ioret ()
     else camoAuthClient E (camo_pluginSecret cfg) (take 32 resp))))"

definition performBedrockCamouflageServer :: "camo_env \<Rightarrow> camoSharedConfig \<Rightarrow> unit io" where
  "performBedrockCamouflageServer E cfg = with_deadline (
     iobind (iowrap ''bedrock ping'' (io_ReadFull (length bedrockPing))) (\<lambda>buf.
     iobind (writeAll (bedrockPong (camo_serverName cfg))) (\<lambda>_.
     if \<not> camo_deep cfg then ioret ()
     else camoAuthServer E (camo_pluginSecret cfg) (take 32 (bedrockPong (camo_serverName cfg))))))"

section \<open>FiveM\<close>

definition crlf :: "byte list" where "crlf = [13, 10]"

definition fivem_request :: "byte list" where
  "fivem_request = go_str ''GET /info.json HTTP/1.1'' @ crlf @ go_str ''Host: cfx.re'' @ crlf @
     go_str ''Connection: close'' @ crlf @ crlf"

definition fivem_body :: "byte list \<Rightarrow> byte list" where
  "fivem_body serverName =
     go_str ''{\"server\":\"'' @ serverName @ go_str ''\",\"vars\":{\"gamename\":\"gta5\"},\"maxClients\":48}''"

definition fivem_response :: "byte list \<Rightarrow> byte list" where
  "fivem_response body =
     go_str ''HTTP/1.1 200 OK'' @ crlf @ go_str ''Content-Type: application/json'' @ crlf @
     go_str ''Content-Length: '' @ dec (length body) @ crlf @
     go_str ''Connection: close'' @ crlf @ crlf @ body"

definition performFiveMCamouflageClient :: "camo_env \<Rightarrow> camoSharedConfig \<Rightarrow> unit io" where
  "performFiveMCamouflageClient E cfg = with_deadline (
     iobind (writeAll fivem_request) (\<lambda>_.
     iobind (iowrap ''fivem info'' (conn_Read 512)) (\<lambda>resp.
     if length resp < 12 \<or> take 4 resp \<noteq> go_str ''HTTP'' then iofail (ErrInvalidReply ''fivem info'')
     else if \<not> camo_deep cfg then ioret ()
     else camoAuthClient E (camo_pluginSecret cfg) (take 32 resp))))"

definition performFiveMCamouflageServer :: "camo_env \<Rightarrow> camoSharedConfig \<Rightarrow> unit io" where
  "performFiveMCamouflageServer E cfg = with_deadline (
     iobind (iowrap ''fivem request'' (conn_Read 128)) (\<lambda>buf.
     if length buf < 3 \<or> take 3 buf \<noteq> go_str ''GET'' then iofail (ErrInvalidReply ''fivem expected GET'')
     else let body = fivem_body (camo_serverName cfg) in
       iobind (writeAll (fivem_response body)) (\<lambda>_.
       if \<not> camo_deep cfg then ioret ()
       else camoAuthServer E (camo_pluginSecret cfg) body)))"

section \<open>Dispatch\<close>

definition performCamouflageClient ::
    "camo_env \<Rightarrow> camo_bind \<Rightarrow> byte list \<Rightarrow> 16 word \<Rightarrow> 64 word \<Rightarrow> ret_conn io" where
  "performCamouflageClient E b host port pingTime =
     (let cfg = b_camoShared b;
          generic = (\<lambda>m. iobind m (\<lambda>_.
            if \<not> camo_secure cfg then ioret ConnValue
            else secureGenericClient E (camo_pluginSecret cfg) (b_dialToNAT b)))
      in if camo_profile cfg = camoProfileNone then ioret ConnValue
         else if camo_profile cfg = camoProfileMinecraft then performMCCamouflageClient E b host port pingTime
         else if camo_profile cfg = camoProfileSource then generic (performSourceCamouflageClient E cfg)
         else if camo_profile cfg = camoProfileTerraria then generic (performTerrariaCamouflageClient E cfg)
         else if camo_profile cfg = camoProfileSteam then generic (performSteamCamouflageClient E cfg)
         else if camo_profile cfg = camoProfileBedrock then generic (performBedrockCamouflageClient E cfg)
         else if camo_profile cfg = camoProfileFiveM then generic (performFiveMCamouflageClient E cfg)
         else iofail (ErrUnknownProfile (camo_profile cfg)))"

definition performCamouflageServer ::
    "camo_env \<Rightarrow> camo_bind \<Rightarrow> byte list \<Rightarrow> (ret_conn \<times> bool) io" where
  "performCamouflageServer E b status =
     (let cfg = b_camoShared b;
          generic = (\<lambda>m. iobind m (\<lambda>_.
            if \<not> camo_secure cfg then ioret (ConnValue, False)
            else secureGenericServer E (camo_pluginSecret cfg)))
      in if camo_profile cfg = camoProfileNone then ioret (ConnValue, False)
         else if camo_profile cfg = camoProfileMinecraft then performMCCamouflageServer E b status
         else if camo_profile cfg = camoProfileSource then generic (performSourceCamouflageServer E cfg)
         else if camo_profile cfg = camoProfileTerraria then generic (performTerrariaCamouflageServer E cfg)
         else if camo_profile cfg = camoProfileSteam then generic (performSteamCamouflageServer E cfg)
         else if camo_profile cfg = camoProfileBedrock then generic (performBedrockCamouflageServer E cfg)
         else if camo_profile cfg = camoProfileFiveM then generic (performFiveMCamouflageServer E cfg)
         else iofail (ErrUnknownProfile (camo_profile cfg)))"

section \<open>Accepting a connection\<close>

definition toNATMagic :: "byte list" where "toNATMagic = go_str ''WGNT'' @ [1]"

text \<open>Peek the magic and discard it when it is there; the rest stays buffered.\<close>

definition peekToNATMagic :: "conn \<Rightarrow> bool \<times> conn" where
  "peekToNATMagic c =
     (if \<not> c_closed c \<and> length toNATMagic \<le> length (c_in c)
           \<and> take (length toNATMagic) (pending c) = toNATMagic
      then (True, advance (length toNATMagic) c) else (False, c))"

text \<open>
  What one turn of acceptLoop does with an accepted connection: close it, hand
  it to installSessionToNAT with the toNAT flag, or call a method on a nil
  net.Conn, which panics.
\<close>

datatype accept_outcome = AcceptClose | AcceptSession bool | AcceptPanic

definition accept_conn ::
    "camo_env \<Rightarrow> camo_bind \<Rightarrow> byte list \<Rightarrow> bool \<Rightarrow> conn \<Rightarrow> accept_outcome \<times> conn" where
  "accept_conn E b status remoteOK raw =
     (case run_state (performCamouflageServer E b status) raw of
        (Inl _, c) \<Rightarrow> (AcceptClose, c\<lparr>c_closed := True\<rparr>)
      | (Inr (NilConn, _), c) \<Rightarrow> (AcceptPanic, c)
      | (Inr (ConnValue, toNATFromMC), c) \<Rightarrow>
          let (sawMagic, c) = peekToNATMagic c;
              toNAT = (toNATFromMC \<or> (sawMagic \<and> \<not> camouflageHidesVPN (b_camoShared b)))
          in if \<not> remoteOK then (AcceptClose, c\<lparr>c_closed := True\<rparr>)
             else (AcceptSession toNAT, c))"

section \<open>Frames survive the connection\<close>

definition pad_len :: "byte list \<Rightarrow> nat" where
  "pad_len r = unat (hd r AND 0x0F)"

definition cover_of :: "camo_env \<Rightarrow> byte list \<Rightarrow> byte list \<Rightarrow> byte list \<Rightarrow> byte list" where
  "cover_of E secret plain r =
     (let n = pad_len r; nonce = take 16 (drop (Suc n) r)
      in nonce @ xor_at (e_ctr E (coverKey E secret) nonce) 0 ([of_nat n] @ plain @ take n (drop 1 r)))"

lemma pad_len_le: "pad_len r \<le> 15"
  using unat_and_mask [of "hd r" 4] mod_less_divisor [of 16 "unat (hd r)"]
  by (simp add: pad_len_def mask_eq_exp_minus_1)

lemma length_cover_of:
  "32 \<le> length r \<Longrightarrow> length (cover_of E secret plain r) = 17 + length plain + pad_len r"
  using pad_len_le [of r] by (simp add: cover_of_def Let_def)

lemma run_sealCover [io_simps]:
  assumes "32 \<le> length (c_rand c)"
  shows "run_state (sealCover E secret plain) c =
    (Inr (cover_of E secret plain (c_rand c)), c\<lparr>c_rand := drop (17 + pad_len (c_rand c)) (c_rand c)\<rparr>)"
proof -
  have n: "pad_len (c_rand c) \<le> 15" by (rule pad_len_le)
  have h: "pad_len (take (Suc 0) (c_rand c)) = pad_len (c_rand c)"
    using assms by (cases "c_rand c") (simp_all add: pad_len_def)
  show ?thesis
    using assms n
    by (simp add: sealCover_def run_iobind run_rand h io_simps Let_def cover_of_def
        flip: pad_len_def)
qed

lemma openCover_cover_of:
  assumes "32 \<le> length r"
  shows "openCover E secret (cover_of E secret plain r) = Inr plain"
proof -
  let ?n = "pad_len r" and ?nonce = "take 16 (drop (Suc (pad_len r)) r)"
  let ?body = "[of_nat ?n] @ plain @ take ?n (drop 1 r)"
  have n: "?n \<le> 15" by (rule pad_len_le)
  have nonce: "length ?nonce = 16" using assms n by simp
  then have split: "take 16 (cover_of E secret plain r) = ?nonce"
    "drop 16 (cover_of E secret plain r) = xor_at (e_ctr E (coverKey E secret) ?nonce) 0 ?body"
    by (simp_all add: cover_of_def Let_def)
  have u: "unat (of_nat ?n :: byte) = ?n" using n by (simp add: unat_of_nat)
  have len: "length (cover_of E secret plain r) = 17 + length plain + ?n"
    using assms by (rule length_cover_of)
  have body: "length ?body = 1 + length plain + ?n" "?body ! 0 = of_nat ?n"
    using assms n by simp_all
  show ?thesis
    unfolding openCover_def Let_def split xor_at_twice
    using len body u n by simp
qed

lemma cover_mc_roundtrip:
  "\<lbrakk>length ch < 2 ^ 32; length d < 2 ^ 32\<rbrakk> \<Longrightarrow> decodeCoverMC (encodeCoverMC ch d) ch = Inr d"
  by (simp add: decodeCoverMC_def encodeCoverMC_def mcPacketHead_def coverMCPacketID_def)

lemma length_encodeCoverMC: "length (encodeCoverMC ch d) \<le> 15 + length ch + length d"
  using length_writeMCString_le [of ch] length_writeMCByteArray_le [of d]
    length_writeMCVarInt [of coverMCPacketID]
  by (simp add: encodeCoverMC_def)

text \<open>The bytes of one frame before the stream cipher.\<close>

definition session_frame :: "camo_env \<Rightarrow> camoSharedConfig \<Rightarrow> byte list \<Rightarrow> byte list \<Rightarrow> byte list" where
  "session_frame E cfg buf r =
     (if \<not> camouflageHidesVPN cfg then be_put (of_nat (length buf) :: 16 word) @ buf
      else let sealed = cover_of E (camo_pluginSecret cfg) buf r
           in if camo_profile cfg = camoProfileMinecraft
              then mc_frame (encodeCoverMC (camo_pluginChannel cfg) sealed)
              else [0xFE] @ be_put (of_nat (length sealed) :: 16 word) @ sealed)"

lemma run_sessionWrite:
  assumes "flowing c" "32 \<le> length (c_rand c)"
  shows "\<exists>c'. run_state (sessionWrite_conn E cfg buf) c = (Inr (), c') \<and> flowing c' \<and>
     c_out c' = c_out c @ st_xor (c_wr c) (session_frame E cfg buf (c_rand c)) \<and>
     c_wr c' = st_skip (length (session_frame E cfg buf (c_rand c))) (c_wr c)"
proof -
  have fl: "flowing (c\<lparr>c_rand := x\<rparr>)" for x using assms(1) by (simp add: flowing_def)
  show ?thesis
    using assms fl
    by (simp add: sessionWrite_conn_def writeCoverFrame_def session_frame_def run_iobind io_simps
        writeMCPacket_frame emit_append Let_def)
qed

lemma run_ReadFull_append [io_simps]:
  assumes "\<not> c_closed c" "pending c = a @ rest" "length a = n"
  shows "run_state (io_ReadFull n) c = (Inr a, advance n c)"
proof -
  have "length (c_in c) = n + length rest" using assms(2,3) by (metis length_append length_pending)
  then show ?thesis using assms by (subst run_ReadFull) simp_all
qed

lemma pending_crypt: "\<lbrakk>c_rd c = s; c_in c = st_xor s a @ follow\<rbrakk>
    \<Longrightarrow> pending c = a @ st_xor (st_skip (length a) s) follow"
proof -
  assume *: "c_rd c = s" "c_in c = st_xor s a @ follow"
  have "st_xor s (st_xor s a) = a" by (cases s) (simp_all add: st_xor_def)
  then show ?thesis by (simp add: pending_def * st_xor_append)
qed

lemma run_readLoop_frame:
  assumes c: "\<not> c_closed c" "c_rd c = s" "c_in c = st_xor s (session_frame E cfg buf r) @ follow"
    and r: "32 \<le> length r"
    and len: "length buf + 32 \<le> 65535" "length (camo_pluginChannel cfg) \<le> 2 ^ 16"
  shows "run_state (readLoop_frame E cfg) c =
    (Inr buf, advance (length (session_frame E cfg buf r)) c)"
proof -
  note pend = pending_crypt [OF c(2,3)]
  let ?tail = "st_xor (st_skip (length (session_frame E cfg buf r)) s) follow"
  let ?sealed = "cover_of E (camo_pluginSecret cfg) buf r"
  have sl: "length ?sealed = 17 + length buf + pad_len r" "length ?sealed \<le> 65535"
    using length_cover_of [OF r] pad_len_le [of r] len by simp_all
  consider (plain) "\<not> camouflageHidesVPN cfg"
    | (mc) "camouflageHidesVPN cfg" "camo_profile cfg = camoProfileMinecraft"
    | (generic) "camouflageHidesVPN cfg" "camo_profile cfg \<noteq> camoProfileMinecraft" by blast
  then show ?thesis
  proof cases
    case plain
    then have sf: "session_frame E cfg buf r = be_put (of_nat (length buf) :: 16 word) @ buf"
      by (simp add: session_frame_def)
    have sz: "unat (of_nat (length buf) :: 16 word) = length buf" using len by (simp add: unat_of_nat)
    have "pending (advance 2 c) = buf @ ?tail" using pend by (simp add: sf)
    then have "run_state (io_ReadFull (length buf)) (advance 2 c) = (Inr buf, advance (2 + length buf) c)"
      using c(1) by (subst run_ReadFull_append) simp_all
    moreover have "run_state (io_ReadFull 2) c = (Inr (be_put (of_nat (length buf) :: 16 word)), advance 2 c)"
      using c(1) pend by (subst run_ReadFull_append) (simp_all add: sf)
    moreover have "length (session_frame E cfg buf r) = 2 + length buf" by (simp add: sf)
    ultimately show ?thesis
      using plain sz by (cases "buf = []") (simp_all add: readLoop_frame_def run_iobind io_simps Let_def)
  next
    case mc
    then have sf: "session_frame E cfg buf r = mc_frame (encodeCoverMC (camo_pluginChannel cfg) ?sealed)"
      by (simp add: session_frame_def Let_def)
    have "length (encodeCoverMC (camo_pluginChannel cfg) ?sealed) \<le> 2 ^ 20"
      using length_encodeCoverMC [of "camo_pluginChannel cfg" ?sealed] sl len by simp
    then have "run_state readMCPacket c = (Inr (encodeCoverMC (camo_pluginChannel cfg) ?sealed),
        advance (length (session_frame E cfg buf r)) c)"
      using c(1) pend unfolding sf by (intro run_readMCPacket_frame [where rest = ?tail]) (simp_all add: sf)
    then show ?thesis
      using mc sl len by (simp add: readLoop_frame_def readCoverFrame_def run_iobind io_simps
          cover_mc_roundtrip openCover_cover_of [OF r])
  next
    case generic
    then have sf: "session_frame E cfg buf r = ([0xFE] @ be_put (of_nat (length ?sealed) :: 16 word)) @ ?sealed"
      by (simp add: session_frame_def Let_def)
    have sz: "unat (of_nat (length ?sealed) :: 16 word) = length ?sealed" using sl(2) by (simp add: unat_of_nat)
    have "pending (advance 3 c) = ?sealed @ ?tail" using pend by (simp add: sf)
    then have "run_state (io_ReadFull (length ?sealed)) (advance 3 c) =
        (Inr ?sealed, advance (3 + length ?sealed) c)"
      using c(1) by (subst run_ReadFull_append) simp_all
    moreover have "run_state (io_ReadFull 3) c =
        (Inr ([0xFE] @ be_put (of_nat (length ?sealed) :: 16 word)), advance 3 c)"
      using c(1) pend unfolding sf append_assoc by (intro run_ReadFull_append) simp_all
    moreover have "length (session_frame E cfg buf r) = 3 + length ?sealed" by (simp add: sf)
    ultimately show ?thesis
      using generic sz by (simp add: readLoop_frame_def readCoverFrame_def run_iobind io_simps
          openCover_cover_of [OF r])
  qed
qed

section \<open>Properties of session frames\<close>


definition demo_camo :: "byte list \<Rightarrow> camoSharedConfig" where
  "demo_camo p = \<lparr>camo_profile = p, camo_deep = True, camo_timeout = 5, camo_loginUsername = go_str ''Steve'',
     camo_pluginChannel = go_str ''ch'', camo_pluginSecret = go_str ''k'', camo_rejectMessage = [],
     camo_serverName = go_str ''srv'', camo_secure = False\<rparr>"


text \<open>
  C28. The generic cover frame loses the largest payloads that Send admits.  For
  a payload of 65535 bytes the sealed frame is longer than a 16-bit length can
  say, so the length on the wire wraps around; what the peer reads is never
  the payload, and its read stops inside the frame, so the stream is out of
  step from there on.\<close>

theorem cover_frame_length_wraps:
  assumes "flowing w" "32 \<le> length (c_rand w)" "\<not> c_closed r" "c_rd r = c_wr w"
    and "camouflageHidesVPN cfg" "camo_profile cfg \<noteq> camoProfileMinecraft" "length buf = 65535"
  shows "\<exists>w' wire res r'.
    run_state (sessionWrite_conn E cfg buf) w = (Inr (), w') \<and> c_out w' = c_out w @ wire \<and>
    run_state (readLoop_frame E cfg) (r\<lparr>c_in := wire\<rparr>) = (res, r') \<and>
    res \<noteq> Inr buf \<and> length (c_in r') \<ge> 65536"
proof -
  let ?f = "session_frame E cfg buf (c_rand w)" and ?n = "pad_len (c_rand w)"
  let ?sealed = "cover_of E (camo_pluginSecret cfg) buf (c_rand w)"
  obtain w' where w': "run_state (sessionWrite_conn E cfg buf) w = (Inr (), w')"
      "c_out w' = c_out w @ st_xor (c_wr w) ?f"
    using run_sessionWrite [OF assms(1,2)] by blast
  let ?r = "r\<lparr>c_in := st_xor (c_wr w) ?f\<rparr>"
  have n: "?n \<le> 15" by (rule pad_len_le)
  have len: "length ?sealed = 65536 + (16 + ?n)"
    using length_cover_of [OF assms(2)] assms(7) by simp
  have f: "?f = ([0xFE] @ be_put (of_nat (length ?sealed) :: 16 word)) @ ?sealed"
    using assms by (simp add: session_frame_def Let_def)
  have sz: "unat (of_nat (length ?sealed) :: 16 word) = 16 + ?n"
  proof -
    have "unat (of_nat m :: 16 word) = m mod 65536" for m by (simp add: unat_of_nat)
    then have "unat (of_nat (length ?sealed) :: 16 word) = (65536 + (16 + ?n)) mod 65536"
      by (simp only: len)
    also have "\<dots> = 16 + ?n" using n by (subst mod_add_self1) simp
    finally show ?thesis .
  qed
  have pend: "pending ?r = ([0xFE] @ be_put (of_nat (length ?sealed) :: 16 word)) @ ?sealed @ []"
    using pending_crypt [of ?r "c_wr w" ?f "[]"] assms(4) f by simp
  have r1: "run_state (io_ReadFull 3) ?r =
      (Inr ([0xFE] @ be_put (of_nat (length ?sealed) :: 16 word)), advance 3 ?r)"
    using assms(3) pend by (intro run_ReadFull_append) simp_all
  have pend3: "pending (advance 3 ?r) = take (16 + ?n) ?sealed @ drop (16 + ?n) ?sealed"
    by (simp add: pend)
  have "run_state (io_ReadFull (16 + ?n)) (advance 3 ?r) =
      (Inr (take (16 + ?n) ?sealed), advance (16 + ?n) (advance 3 ?r))"
    by (rule run_ReadFull_append [OF _ pend3]) (use assms(3) len in simp_all)
  then have r2: "run_state (io_ReadFull (16 + ?n)) (advance 3 ?r) =
      (Inr (take (16 + ?n) ?sealed), advance (3 + (16 + ?n)) ?r)"
    by simp
  have run: "run_state (readLoop_frame E cfg) ?r =
      (openCover E (camo_pluginSecret cfg) (take (16 + ?n) ?sealed), advance (3 + (16 + ?n)) ?r)"
    using assms(5,6) r1 r2 sz
    by (simp add: readLoop_frame_def readCoverFrame_def run_iobind io_simps)
  have "length p \<le> 15 + 1" if "openCover E (camo_pluginSecret cfg) (take (16 + ?n) ?sealed) = Inr p" for p
    using that n len by (auto simp: openCover_def Let_def split: if_splits)
  then have "openCover E (camo_pluginSecret cfg) (take (16 + ?n) ?sealed) \<noteq> Inr buf"
    using assms(7) by force
  moreover have "length (c_in (advance (3 + (16 + ?n)) ?r)) \<ge> 65536"
    using n len f by simp
  ultimately show ?thesis using w' run by blast
qed

theorem cover_frame_length_wraps_witness:
  "\<exists>w' wire res r'.
    run_state (sessionWrite_conn demo_env (demo_camo camoProfileSteam) (replicate 65535 0)) (fresh_conn (replicate 32 7))
      = (Inr (), w') \<and> c_out w' = c_out (fresh_conn (replicate 32 7)) @ wire \<and>
    run_state (readLoop_frame demo_env (demo_camo camoProfileSteam)) ((fresh_conn [])\<lparr>c_in := wire\<rparr>) = (res, r') \<and>
    res \<noteq> Inr (replicate 65535 0) \<and> length (c_in r') \<ge> 65536"
  by (rule cover_frame_length_wraps)
     (simp_all add: fresh_conn_def flowing_def demo_camo_def camouflageHidesVPN_def go_str_def
       camoProfileSteam_def camoProfileNone_def camoProfileMinecraft_def)

section \<open>The challenges of the other profiles\<close>

lemma camoAuthServer_run:
  assumes "hmac_size E"
  shows "run_state (camoAuthServer E secret challenge)
      \<lparr>c_in = e_hmac E secret ch, c_out = co, c_wcap = w, c_sched = sc, c_rand = r, c_armed = a,
       c_closed = False, c_rd = None, c_wr = cw\<rparr> =
    (if e_hmac E secret ch = e_hmac E secret challenge then Inr () else Inl ErrAuthRejected,
     \<lparr>c_in = [], c_out = co, c_wcap = w, c_sched = sc, c_rand = r, c_armed = a,
       c_closed = False, c_rd = None, c_wr = cw\<rparr>)"
  using assms by (simp add: camoAuthServer_def exec_simps hmac_size_def)

lemma run_conn_Read_all:
  assumes "length a \<le> n" "a \<noteq> []"
  shows "run_state (conn_Read n)
      \<lparr>c_in = a @ b, c_out = co, c_wcap = w, c_sched = [length a], c_rand = r, c_armed = ar,
       c_closed = False, c_rd = None, c_wr = cw\<rparr> =
    (Inr a, \<lparr>c_in = b, c_out = co, c_wcap = w, c_sched = [], c_rand = r, c_armed = ar,
       c_closed = False, c_rd = None, c_wr = cw\<rparr>)"
proof -
  have "1 \<le> length a" using assms(2) by (cases a) simp_all
  with assms show ?thesis
    by (simp add: conn_Read_def io_simps Let_def pending_def advance_def min_def max_def)
qed

lemmas run_conn_Read_last = run_conn_Read_all [where b = "[]", simplified]



lemma le_get_put16 [simp]: "le_get16 (le_put16 w) = w" "length (le_put16 w) = 2"
  by (simp_all add: le_get16_def le_put16_def)

definition terraria_packet :: "16 word \<Rightarrow> byte list \<Rightarrow> byte list" where
  "terraria_packet t p = le_put16 (of_nat (length p + 2)) @ le_put16 t @ p"

lemma run_writeTerraria:
  "flowing c \<Longrightarrow> run_state (writeTerrariaPacket t p) c = (Inr (), emit (terraria_packet t p) c)"
  by (cases p) (simp_all add: writeTerrariaPacket_def run_iobind io_simps terraria_packet_def emit_append)

lemma run_readTerraria:
  assumes "length p + 2 < 65536"
  shows "run_state readTerrariaPacket
      \<lparr>c_in = terraria_packet t p @ b, c_out = co, c_wcap = w, c_sched = sc, c_rand = r, c_armed = ar,
       c_closed = False, c_rd = None, c_wr = cw\<rparr> =
    (Inr (t, p), \<lparr>c_in = b, c_out = co, c_wcap = w, c_sched = sc, c_rand = r, c_armed = ar,
       c_closed = False, c_rd = None, c_wr = cw\<rparr>)"
proof -
  define m where "m = length p + 2"
  have m: "m < 65536" "m - 2 = length p" "2 \<le> m" using assms by (simp_all add: m_def)
  have pk: "terraria_packet t p = le_put16 (of_nat m) @ le_put16 t @ p"
    by (simp only: terraria_packet_def m_def)
  have u: "unat (of_nat m :: 16 word) = m" using m(1) by (simp add: unat_of_nat)
  then have ge: "\<not> (of_nat m :: 16 word) < 2" using m(3) by (simp add: word_less_nat_alt)
  show ?thesis
    unfolding pk using m
    by (cases "p = []") (simp_all add: readTerrariaPacket_def exec_simps Let_def ge u)
qed

lemmas run_readTerraria_last = run_readTerraria [where b = "[]", simplified]

text \<open>
  C29. The Terraria profile in deep mode cannot authenticate an honest client:
  fed with exactly what the server writes, the client answers with the HMAC of
  the server's disconnect packet (type 2), while the server, fed with exactly
  what the client wrote, compares with the HMAC of the client's own connect
  packet (type 82); the two inputs differ, so the server accepts only on an
  HMAC collision and otherwise rejects every honest client.\<close>

theorem terraria_deep_challenges_differ:
  assumes E: "hmac_size E" and deep: "camo_deep cfg" and size: "length (terraria_reject cfg) + 2 < 65536"
    and s: "flowing s" "c_rd s = None" "c_wr s = None" "c_out s = []"
    and c: "flowing c" "c_rd c = None" "c_wr c = None" "c_out c = []"
  shows "\<exists>to_server to_client s' c'.
    run_state (performTerrariaCamouflageClient E cfg) (c\<lparr>c_in := to_client\<rparr>) = (Inr (), c') \<and>
    run_state (performTerrariaCamouflageServer E cfg) (s\<lparr>c_in := to_server\<rparr>) =
      (if e_hmac E (camo_pluginSecret cfg) (2 # terraria_reject cfg)
            = e_hmac E (camo_pluginSecret cfg) (82 # terrariaConnectPayload)
       then Inr () else Inl ErrAuthRejected, s') \<and>
    c_out s' = to_client \<and> c_out c' = to_server \<and>
    2 # terraria_reject cfg \<noteq> (82 # terrariaConnectPayload :: byte list)"
proof -
  let ?ts = "terraria_packet terrariaConnectMsg terrariaConnectPayload @
      e_hmac E (camo_pluginSecret cfg) (2 # terraria_reject cfg)"
  let ?tc = "terraria_packet 2 (terraria_reject cfg)"
  have len: "length terrariaConnectPayload + 2 < 65536"
    by (simp add: terrariaConnectPayload_def go_str_def)
  have t: "(ucast terrariaConnectMsg :: byte) = 82" "(ucast (2 :: 16 word) :: byte) = 2"
    by (simp_all add: terrariaConnectMsg_def)
  show ?thesis
    using E deep size s c len
    by (intro exI [of _ ?ts] exI [of _ ?tc], cases s, cases c)
       (simp add: performTerrariaCamouflageServer_def performTerrariaCamouflageClient_def
         with_deadline_def conn_SetDeadline_def exec_simps run_writeTerraria run_readTerraria
         run_readTerraria_last camoAuthServer_run camoAuthClient_def t)
qed

theorem terraria_deep_challenges_differ_witness:
  "\<exists>to_server to_client s' c'.
    run_state (performTerrariaCamouflageClient demo_env (demo_camo camoProfileTerraria))
      ((fresh_conn [])\<lparr>c_in := to_client\<rparr>) = (Inr (), c') \<and>
    run_state (performTerrariaCamouflageServer demo_env (demo_camo camoProfileTerraria))
      ((fresh_conn [])\<lparr>c_in := to_server\<rparr>) = (Inl ErrAuthRejected, s') \<and>
    c_out s' = to_client \<and> c_out c' = to_server"
proof -
  have ne: "e_hmac demo_env k (2 # x) \<noteq> e_hmac demo_env k (82 # y)" for k x y
    by (simp add: demo_env_def pad32_def)
  have fl: "flowing (fresh_conn [])" "c_rd (fresh_conn []) = None" "c_wr (fresh_conn []) = None"
    "c_out (fresh_conn []) = []" by (simp_all add: fresh_conn_def flowing_def)
  have "length (terraria_reject (demo_camo camoProfileTerraria)) + 2 < 65536"
    "camo_deep (demo_camo camoProfileTerraria)"
    by (simp_all add: demo_camo_def terraria_reject_def go_str_def)
  from terraria_deep_challenges_differ [OF demo_env_ok(1) this(2,1) fl fl] show ?thesis
    by (simp only: ne if_False) blast
qed

text \<open>
  C30. The FiveM profile in deep mode cannot authenticate an honest client
  either: the client answers with the HMAC of the first bytes of the HTTP
  response, the server expects the HMAC of the JSON body; the two inputs
  always differ, so the server accepts only on an HMAC collision.\<close>

theorem fivem_deep_challenges_differ:
  assumes E: "hmac_size E" and deep: "camo_deep cfg"
    and size: "length (fivem_response (fivem_body (camo_serverName cfg))) \<le> 512"
    and s: "flowing s" "c_rd s = None" "c_wr s = None" "c_out s = []" "c_sched s = [length fivem_request]"
    and c: "flowing c" "c_rd c = None" "c_wr c = None" "c_out c = []"
      "c_sched c = [length (fivem_response (fivem_body (camo_serverName cfg)))]"
  shows "\<exists>to_server to_client s' c'.
    run_state (performFiveMCamouflageClient E cfg) (c\<lparr>c_in := to_client\<rparr>) = (Inr (), c') \<and>
    run_state (performFiveMCamouflageServer E cfg) (s\<lparr>c_in := to_server\<rparr>) =
      (if e_hmac E (camo_pluginSecret cfg) (take 32 (fivem_response (fivem_body (camo_serverName cfg))))
            = e_hmac E (camo_pluginSecret cfg) (fivem_body (camo_serverName cfg))
       then Inr () else Inl ErrAuthRejected, s') \<and>
    c_out s' = to_client \<and> c_out c' = to_server \<and>
    take 32 (fivem_response (fivem_body (camo_serverName cfg))) \<noteq> fivem_body (camo_serverName cfg)"
proof -
  let ?b = "fivem_body (camo_serverName cfg)"
  let ?tc = "fivem_response ?b"
  let ?ts = "fivem_request @ e_hmac E (camo_pluginSecret cfg) (take 32 ?tc)"
  have req: "length fivem_request \<le> 128" "fivem_request \<noteq> []" "take 3 fivem_request = go_str ''GET''"
      "3 \<le> length fivem_request"
    by (simp_all add: fivem_request_def go_str_def crlf_def)
  have resp: "12 \<le> length ?tc" "take 4 ?tc = go_str ''HTTP''" "?tc \<noteq> []"
    by (simp_all add: fivem_response_def go_str_def)
  have "hd (take 32 ?tc) \<noteq> hd ?b" by (simp add: fivem_response_def fivem_body_def go_str_def)
  then have "take 32 ?tc \<noteq> ?b" by force
  then show ?thesis
    using E deep size s c req resp
    by (intro exI [of _ ?ts] exI [of _ ?tc], cases s, cases c)
       (simp add: performFiveMCamouflageServer_def performFiveMCamouflageClient_def with_deadline_def
         conn_SetDeadline_def exec_simps run_conn_Read_all run_conn_Read_last camoAuthServer_run
         camoAuthClient_def Let_def not_less)
qed

theorem fivem_deep_challenges_differ_witness:
  "\<exists>to_server to_client s' c'.
    run_state (performFiveMCamouflageClient demo_env (demo_camo camoProfileFiveM))
      ((fresh_conn [])\<lparr>c_sched := [length (fivem_response (fivem_body (camo_serverName (demo_camo camoProfileFiveM))))],
        c_in := to_client\<rparr>) = (Inr (), c') \<and>
    run_state (performFiveMCamouflageServer demo_env (demo_camo camoProfileFiveM))
      ((fresh_conn [])\<lparr>c_sched := [length fivem_request], c_in := to_server\<rparr>) = (Inl ErrAuthRejected, s') \<and>
    c_out s' = to_client \<and> c_out c' = to_server"
proof -
  let ?b = "fivem_body (camo_serverName (demo_camo camoProfileFiveM))"
  have ne: "e_hmac demo_env k (take 32 (fivem_response ?b)) \<noteq> e_hmac demo_env k ?b" for k
    by (simp add: demo_env_def pad32_def fivem_response_def fivem_body_def go_str_def)
  have "length (fivem_response ?b) \<le> 512" "camo_deep (demo_camo camoProfileFiveM)"
    by (simp_all add: demo_camo_def fivem_response_def fivem_body_def go_str_def crlf_def dec.simps)
  from fivem_deep_challenges_differ [OF demo_env_ok(1) this(2,1),
      of "(fresh_conn [])\<lparr>c_sched := [length fivem_request]\<rparr>"
         "(fresh_conn [])\<lparr>c_sched := [length (fivem_response ?b)]\<rparr>"]
  show ?thesis
    by (simp add: ne fresh_conn_def flowing_def) blast
qed

section \<open>Accepting a connection\<close>

text \<open>
  A Hoare calculus for the operations: from a connection that satisfies the
  precondition, every value returned satisfies the postcondition.
\<close>

definition hoare :: "(conn \<Rightarrow> bool) \<Rightarrow> 'a io \<Rightarrow> ('a \<Rightarrow> conn \<Rightarrow> bool) \<Rightarrow> bool" where
  "hoare I m Q \<longleftrightarrow> (\<forall>c a c'. I c \<longrightarrow> run_state m c = (Inr a, c') \<longrightarrow> Q a c')"

lemma hoareD: "\<lbrakk>hoare I m Q; I c; run_state m c = (Inr a, c')\<rbrakk> \<Longrightarrow> Q a c'"
  by (auto simp: hoare_def)

lemma hoare_bind: "\<lbrakk>hoare I m J; \<And>a. hoare (J a) (k a) Q\<rbrakk> \<Longrightarrow> hoare I (iobind m k) Q"
  unfolding hoare_def run_iobind by (auto split: prod.splits sum.splits)

lemma hoare_lift_bind:
  "(\<And>a. r = Inr a \<Longrightarrow> hoare I (k a) Q) \<Longrightarrow> hoare I (iobind (iolift r) k) Q"
  unfolding hoare_def run_iobind by (auto simp: io_simps split: sum.splits)

lemma hoare_ret: "(\<And>c. I c \<Longrightarrow> Q a c) \<Longrightarrow> hoare I (ioret a) Q"
  and hoare_fail: "hoare I (iofail e) Q"
  and hoare_pre: "\<lbrakk>hoare J m Q; \<And>c. I c \<Longrightarrow> J c\<rbrakk> \<Longrightarrow> hoare I m Q"
  and hoare_post: "\<lbrakk>hoare I m P; \<And>a c. P a c \<Longrightarrow> Q a c\<rbrakk> \<Longrightarrow> hoare I m Q"
  by (auto simp: hoare_def io_simps)

lemma hoare_prod: "(\<And>x y. a = (x, y) \<Longrightarrow> hoare I (f x y) Q) \<Longrightarrow> hoare I (case a of (x, y) \<Rightarrow> f x y) Q"
  by (cases a) simp

lemma hoare_wrap: "hoare I m Q \<Longrightarrow> hoare I (iowrap w m) Q"
  unfolding hoare_def by (auto simp: io_simps wrap_def split: prod.splits sum.splits)

text \<open>
  While the stream is not encrypted, the unread input is a suffix of what the
  peer sent and the unread randomness a suffix of the tape.
\<close>

definition io_inv :: "byte list \<Rightarrow> byte list \<Rightarrow> conn \<Rightarrow> bool" where
  "io_inv input tape c \<longleftrightarrow> c_rd c = None \<and> suffix (c_in c) input \<and> suffix (c_rand c) tape"

lemma io_inv_emit [simp]: "io_inv i t (emit d c) = io_inv i t c"
  by (simp add: io_inv_def)

lemma io_inv_advance: "io_inv i t c \<Longrightarrow> io_inv i t (advance n c)"
  by (auto simp: io_inv_def intro: suffix_order.trans suffix_drop)

lemma io_inv_upd [simp]:
  "io_inv i t (c\<lparr>c_out := x\<rparr>) = io_inv i t c" "io_inv i t (c\<lparr>c_wr := y\<rparr>) = io_inv i t c"
  "io_inv i t (c\<lparr>c_wcap := z\<rparr>) = io_inv i t c" "io_inv i t (c\<lparr>c_armed := a\<rparr>) = io_inv i t c"
  by (simp_all add: io_inv_def)

lemma conn_Write_inv: "io_inv i t c \<Longrightarrow> conn_Write d c = (r, c') \<Longrightarrow> io_inv i t c'"
  by (auto simp: conn_Write_def split: if_splits option.splits)

lemma writeAll_loop_inv: "io_inv i t c \<Longrightarrow> io_inv i t (snd (writeAll_loop d c))"
proof (induction d c rule: writeAll_loop.induct)
  case (1 d c)
  obtain n e c' where w: "conn_Write d c = ((n, e), c')" by (metis surj_pair)
  with 1(2) have inv: "io_inv i t c'" by (rule conn_Write_inv)
  show ?case
    using 1(1) [OF _ w [symmetric] refl] inv 1(2) w
    by (subst writeAll_loop.simps) (auto split: option.splits)
qed

lemma hoare_writeAll: "hoare (io_inv i t) (writeAll d) (\<lambda>_. io_inv i t)"
  using writeAll_loop_inv unfolding hoare_def writeAll_def by (metis state.sel snd_conv)

lemma hoare_writeMCPacket: "hoare (io_inv i t) (writeMCPacket p) (\<lambda>_. io_inv i t)"
  by (simp add: writeMCPacket_def hoare_writeAll)

lemma hoare_ReadFull: "hoare (io_inv i t) (io_ReadFull n) (\<lambda>a c. io_inv i t c \<and> sublist a i)"
proof -
  have "sublist (take n (pending c)) i" if "io_inv i t c" for c n
  proof -
    have "suffix (c_in c) i" "pending c = c_in c" using that by (simp_all add: io_inv_def pending_def)
    then show ?thesis
      by (metis prefix_imp_sublist sublist_order.order_trans suffix_imp_sublist take_is_prefix)
  qed
  then show ?thesis
    by (auto simp: hoare_def io_ReadFull_def io_simps intro: io_inv_advance split: if_splits)
qed

lemma hoare_varInt: "hoare (io_inv i t) (varIntFromConn k acc) (\<lambda>_. io_inv i t)"
proof (induction k acc rule: varIntFromConn.induct)
  case (1 k acc)
  show ?case
  proof (cases "k > 5")
    case True
    then show ?thesis by (subst varIntFromConn.simps) (simp add: hoare_fail)
  next
    case False
    have "hoare (\<lambda>c. io_inv i t c \<and> sublist one i)
        (let b = hd one; result = acc OR push_bit (7 * k) (uint (b AND 0x7F))
         in if b AND 0x80 = 0 then ioret result else varIntFromConn (k + 1) result) (\<lambda>_. io_inv i t)"
      for one
      using 1 [OF False refl refl, of one]
      by (auto simp: Let_def intro: hoare_ret hoare_pre)
    then show ?thesis
      using False by (subst varIntFromConn.simps) (simp add: hoare_bind [OF hoare_ReadFull])
  qed
qed

lemma hoare_readMCPacket: "hoare (io_inv i t) readMCPacket (\<lambda>a c. io_inv i t c \<and> sublist a i)"
  unfolding readMCPacket_def readMCVarIntFromConn_def
  by (rule hoare_bind [OF hoare_varInt]) (simp add: hoare_fail hoare_ReadFull)

lemma hoare_rand: "hoare (io_inv i t) (rand_Read n) (\<lambda>_. io_inv i t)"
  by (auto simp: hoare_def rand_Read_def io_simps io_inv_def intro: suffix_order.trans suffix_drop
      split: if_splits)

lemma hoare_deadline:
  assumes "hoare I m (\<lambda>a c. Q a)" "\<And>c. I c \<Longrightarrow> I (c\<lparr>c_armed := True\<rparr>)"
  shows "hoare I (with_deadline m) (\<lambda>a c. Q a)"
  using assms unfolding hoare_def with_deadline_def conn_SetDeadline_def run_iobind
  by (auto simp: io_simps split: prod.splits sum.splits if_splits)

lemma hoare_serverHello:
  assumes "hmac_size E"
  shows "hoare (io_inv i t) (secureServerHello E psk)
    (\<lambda>hp c. io_inv i t c \<and>
       (\<exists>r. suffix r t \<and> 160 \<le> length r \<and> hp = (hello_of E psk r, take 32 r)))"
  unfolding hoare_def
proof (intro allI impI)
  fix c a c' assume inv: "io_inv i t c" and run: "run_state (secureServerHello E psk) c = (Inr a, c')"
  have len: "160 \<le> length (c_rand c)"
  proof (rule ccontr)
    assume short: "\<not> 160 \<le> length (c_rand c)"
    have "fst (run_state (secureServerHello E psk) c) = Inl ErrRand"
      using short
      by (cases "32 \<le> length (c_rand c)")
         (auto simp: secureServerHello_def sealSecureBlob_def run_iobind rand_Read_def io_simps secure_sizes)
    with run show False by simp
  qed
  from run_secureServerHello [OF assms len, of psk] run
  have "a = (hello_of E psk (c_rand c), take 32 (c_rand c))" "c' = c\<lparr>c_rand := drop 160 (c_rand c)\<rparr>"
    by simp_all
  then show "io_inv i t c' \<and> (\<exists>r. suffix r t \<and> 160 \<le> length r \<and> a = (hello_of E psk r, take 32 r))"
    using inv len by (auto simp: io_inv_def intro: suffix_order.trans suffix_drop)
qed

text \<open>
  The connection was authenticated: the peer sent a reply that
  secureServerFinish accepts for the hello the server made from its own
  randomness.
\<close>

definition authenticated :: "camo_env \<Rightarrow> byte list \<Rightarrow> byte list \<Rightarrow> byte list \<Rightarrow> bool \<Rightarrow> bool" where
  "authenticated E secret input tape toNAT \<longleftrightarrow>
     (\<exists>r reply keys. suffix r tape \<and> 160 \<le> length r \<and> sublist reply input \<and>
        secureServerFinish E (securePSK E secret) (hello_of E (securePSK E secret) r) (take 32 r) reply
          = Inr (keys, toNAT))"

abbreviation if_authenticated ::
    "camo_env \<Rightarrow> byte list \<Rightarrow> byte list \<Rightarrow> byte list \<Rightarrow> ret_conn \<times> bool \<Rightarrow> conn \<Rightarrow> bool" where
  "if_authenticated E secret input tape \<equiv>
     \<lambda>a _. fst a = ConnValue \<longrightarrow> authenticated E secret input tape (snd a)"

lemma hoare_finish:
  assumes "suffix r t" "160 \<le> length r" "sublist reply i"
  shows "hoare I (iobind (iolift (secureServerFinish E (securePSK E secret)
      (hello_of E (securePSK E secret) r) (take 32 r) reply)) (\<lambda>(keys, toNAT).
      iobind (newSecureConn E keys True) (\<lambda>_. iobind m (\<lambda>_. ioret (ConnValue, toNAT)))))
    (if_authenticated E secret i t)"
proof (rule hoare_lift_bind)
  fix a assume fin: "secureServerFinish E (securePSK E secret)
      (hello_of E (securePSK E secret) r) (take 32 r) reply = Inr a"
  have "authenticated E secret i t (snd a)"
    using assms fin unfolding authenticated_def by (metis prod.collapse)
  then show "hoare I (case a of (keys, toNAT) \<Rightarrow>
      iobind (newSecureConn E keys True) (\<lambda>_. iobind m (\<lambda>_. ioret (ConnValue, toNAT))))
    (if_authenticated E secret i t)"
    by (cases a) (auto simp: hoare_def run_iobind io_simps split: prod.splits sum.splits)
qed

lemma hoare_fact: "(P \<Longrightarrow> hoare I m Q) \<Longrightarrow> hoare (\<lambda>c. I c \<and> P) m Q"
  by (auto simp: hoare_def)

lemma hoare_serverHello_bind:
  assumes "hmac_size E"
    and "\<And>r. \<lbrakk>suffix r t; 160 \<le> length r\<rbrakk> \<Longrightarrow> hoare (io_inv i t) (k (hello_of E psk r, take 32 r)) Q"
  shows "hoare (io_inv i t) (iobind (secureServerHello E psk) k) Q"
  by (rule hoare_bind [OF hoare_serverHello [OF assms(1)]], rule hoare_fact) (use assms(2) in blast)

lemma secureGenericServer_authenticates:
  assumes "hmac_size E"
  shows "hoare (io_inv i t) (secureGenericServer E secret) (if_authenticated E secret i t)"
  unfolding secureGenericServer_def Let_def
proof (rule hoare_deadline, rule hoare_serverHello_bind [OF assms], unfold prod.case)
  fix r assume r: "suffix r t" "160 \<le> length r"
  let ?psk = "securePSK E secret"
  show "hoare (io_inv i t)
     (iobind (writeAll (hello_of E ?psk r)) (\<lambda>_.
      iobind (io_ReadFull secureBlobLen) (\<lambda>reply.
      iobind (iolift (secureServerFinish E ?psk (hello_of E ?psk r) (take 32 r) reply)) (\<lambda>(keys, toNAT).
      iobind (newSecureConn E keys True) (\<lambda>_.
      iobind (writeAll (replicate secureConfirmSz 0)) (\<lambda>_. ioret (ConnValue, toNAT)))))))
    (if_authenticated E secret i t)"
    by (rule hoare_bind [OF hoare_writeAll], rule hoare_bind [OF hoare_ReadFull], rule hoare_fact,
        rule hoare_finish [OF r])
qed simp

lemma readMCVarInt_suffix: "readMCVarInt r = Inr (v, r') \<Longrightarrow> suffix r' r"
  using readMCVarInt_bound [of r v r'] by (auto simp: suffix_def)

lemma readMCByteArray_sublist:
  assumes "readMCByteArray r = Inr (d, r')"
  shows "sublist d r"
proof -
  obtain n q where "readMCVarInt r = Inr (n, q)" "d = take (nat n) q"
    using assms by (auto simp: readMCByteArray_def ebind_eq_Inr read_full_def split: if_splits)
  then show ?thesis
    by (metis readMCVarInt_suffix prefix_imp_sublist sublist_order.order_trans suffix_imp_sublist take_is_prefix)
qed

lemma decodeMCEncryptionResponse_sublist: "decodeMCEncryptionResponse rest = Inr reply \<Longrightarrow> sublist reply rest"
  by (auto simp: decodeMCEncryptionResponse_def ebind_eq_Inr split: if_splits dest: readMCByteArray_sublist)

lemma hoare_read_step:
  "(\<And>a. sublist a i \<Longrightarrow> hoare (io_inv i t) (k a) Q) \<Longrightarrow> hoare (io_inv i t) (iobind (iowrap w readMCPacket) k) Q"
  by (rule hoare_bind [OF hoare_wrap [OF hoare_readMCPacket]], rule hoare_fact)

lemma hoare_write_step:
  "hoare (io_inv i t) k Q \<Longrightarrow> hoare (io_inv i t) (iobind (iowrap w (writeMCPacket p)) (\<lambda>_. k)) Q"
  by (rule hoare_bind [OF hoare_wrap [OF hoare_writeMCPacket]])

lemma hoare_pure_step:
  "(\<And>a. hoare (io_inv i t) (k a) Q) \<Longrightarrow> hoare (io_inv i t) (iobind (iolift x) k) Q"
  by (rule hoare_lift_bind)

lemma hoare_statusPingServer: "hoare (io_inv i t) (mcStatusPingServer status) (\<lambda>_. io_inv i t)"
  unfolding mcStatusPingServer_def
  by (intro hoare_read_step hoare_write_step hoare_pure_step hoare_writeMCPacket)

lemma mcServerSecure_authenticates:
  assumes "hmac_size E"
  shows "hoare (io_inv i t) (performMCCamouflageServerSecure E cfg status)
    (if_authenticated E (mc_pluginSecret cfg) i t)"
  unfolding performMCCamouflageServerSecure_def Let_def
proof (rule hoare_deadline, rule hoare_bind [OF hoare_statusPingServer],
    intro hoare_read_step hoare_pure_step, rule hoare_serverHello_bind [OF assms], unfold prod.case,
    rule hoare_bind [OF hoare_rand], rule hoare_pure_step, rule hoare_write_step, rule hoare_read_step)
  fix r resp
  assume r: "suffix r t" "160 \<le> length r" and resp: "sublist resp i"
  let ?psk = "securePSK E (mc_pluginSecret cfg)"
  let ?reject = "iobind (sendMCDisconnect E (mc_rejectMessage cfg)) (\<lambda>_. ioret (NilConn, False))"
  have no: "hoare (io_inv i t) ?reject (if_authenticated E (mc_pluginSecret cfg) i t)"
    unfolding sendMCDisconnect_def
    by (rule hoare_bind [OF hoare_writeMCPacket], rule hoare_ret) simp
  have yes: "hoare (io_inv i t) (iobind (iolift (secureServerFinish E ?psk (hello_of E ?psk r) (take 32 r) reply))
      (\<lambda>(keys, toNAT). iobind (newSecureConn E keys True) (\<lambda>_.
       iobind (iowrap ''mc login success'' (writeMCPacket (encodeMCLoginSuccess (e_md5 E) (mc_loginUsername cfg)))) (\<lambda>_.
       ioret (ConnValue, toNAT))))) (if_authenticated E (mc_pluginSecret cfg) i t)"
    if "mcPacketHead resp = Inr (x, rest)" "decodeMCEncryptionResponse rest = Inr reply" for x rest reply
  proof (rule hoare_finish [OF r])
    have "suffix rest resp" using that(1) by (simp add: mcPacketHead_def readMCVarInt_suffix)
    then show "sublist reply i"
      by (metis that(2) resp decodeMCEncryptionResponse_sublist sublist_order.order_trans suffix_imp_sublist)
  qed
  show "hoare (io_inv i t) (case mcPacketHead resp of
       Inl _ \<Rightarrow> ?reject
     | Inr (x, rest) \<Rightarrow>
         if x \<noteq> mcIDEncryptionResponse then ?reject
         else case decodeMCEncryptionResponse rest of
           Inl _ \<Rightarrow> ?reject
         | Inr reply \<Rightarrow>
             iobind (iolift (secureServerFinish E ?psk (hello_of E ?psk r) (take 32 r) reply)) (\<lambda>(keys, toNAT).
             iobind (newSecureConn E keys True) (\<lambda>_.
             iobind (iowrap ''mc login success'' (writeMCPacket (encodeMCLoginSuccess (e_md5 E) (mc_loginUsername cfg)))) (\<lambda>_.
             ioret (ConnValue, toNAT))))) (if_authenticated E (mc_pluginSecret cfg) i t)"
    using no yes by (auto split: sum.splits)
qed simp

lemma hoare_deadline_inv:
  assumes "hoare (io_inv i t) m (\<lambda>_. io_inv i t)"
  shows "hoare (io_inv i t) (with_deadline m) (\<lambda>_. io_inv i t)"
proof -
  have "io_inv i t c'" if "run_state m (c\<lparr>c_armed := True\<rparr>) = (Inr a, c')" "io_inv i t c" for c a c'
    using hoareD [OF assms, of "c\<lparr>c_armed := True\<rparr>"] that by simp
  then show ?thesis
    unfolding hoare_def with_deadline_def conn_SetDeadline_def run_iobind
    by (auto simp: io_simps split: prod.splits sum.splits if_splits)
qed

lemma hoare_conn_Read: "hoare (io_inv i t) (conn_Read n) (\<lambda>_. io_inv i t)"
proof -
  have "io_inv i t (c\<lparr>c_sched := x\<rparr>) = io_inv i t c" for c x by (simp add: io_inv_def)
  then show ?thesis
    by (auto simp: hoare_def conn_Read_def io_simps Let_def intro: io_inv_advance split: if_splits)
qed

lemma hoare_inv_step:
  "\<lbrakk>hoare (io_inv i t) m (\<lambda>_. io_inv i t); \<And>a. hoare (io_inv i t) (k a) Q\<rbrakk>
    \<Longrightarrow> hoare (io_inv i t) (iobind m k) Q"
  by (rule hoare_bind)

lemma hoare_ReadFull_inv: "hoare (io_inv i t) (io_ReadFull n) (\<lambda>_. io_inv i t)"
  by (rule hoare_post [OF hoare_ReadFull]) simp

lemma hoare_ioret_inv: "hoare (io_inv i t) (ioret a) (\<lambda>_. io_inv i t)"
  by (rule hoare_ret)

lemma hoare_if: "\<lbrakk>hoare I a Q; hoare I b Q\<rbrakk> \<Longrightarrow> hoare I (if p then a else b) Q"
  by simp

lemma hoare_prod_inv: "(\<And>x y. hoare I (f x y) Q) \<Longrightarrow> hoare I (case a of (x, y) \<Rightarrow> f x y) Q"
  by (rule hoare_prod)

lemmas inv_steps = hoare_if hoare_prod_inv hoare_wrap hoare_fail hoare_ioret_inv hoare_writeAll
  hoare_ReadFull_inv hoare_conn_Read

lemma camoAuthServer_inv: "hoare (io_inv i t) (camoAuthServer E secret ch) (\<lambda>_. io_inv i t)"
  unfolding camoAuthServer_def by (intro hoare_inv_step inv_steps)

lemma terraria_inv:
  "hoare (io_inv i t) readTerrariaPacket (\<lambda>_. io_inv i t)"
  "hoare (io_inv i t) (writeTerrariaPacket ty p) (\<lambda>_. io_inv i t)"
  unfolding readTerrariaPacket_def writeTerrariaPacket_def Let_def
  by (intro hoare_inv_step inv_steps)+

lemma profile_servers_inv:
  "hoare (io_inv i t) (performSourceCamouflageServer E cfg) (\<lambda>_. io_inv i t)"
  "hoare (io_inv i t) (performTerrariaCamouflageServer E cfg) (\<lambda>_. io_inv i t)"
  "hoare (io_inv i t) (performSteamCamouflageServer E cfg) (\<lambda>_. io_inv i t)"
  "hoare (io_inv i t) (performBedrockCamouflageServer E cfg) (\<lambda>_. io_inv i t)"
  "hoare (io_inv i t) (performFiveMCamouflageServer E cfg) (\<lambda>_. io_inv i t)"
  unfolding performSourceCamouflageServer_def performTerrariaCamouflageServer_def Let_def
    performSteamCamouflageServer_def performBedrockCamouflageServer_def performFiveMCamouflageServer_def
  by (rule hoare_deadline_inv, intro hoare_inv_step inv_steps terraria_inv camoAuthServer_inv)+

lemma performCamouflageServer_authenticates:
  assumes "hmac_size E" "camo_secure (b_camoShared b)" "camouflageHidesVPN (b_camoShared b)"
    and "camo_profile (b_camoShared b) = camoProfileMinecraft \<Longrightarrow>
           mc_enabled (b_mcConfig b) \<and> mc_pluginSecret (b_mcConfig b) = camo_pluginSecret (b_camoShared b)"
  shows "hoare (io_inv i t) (performCamouflageServer E b status)
           (if_authenticated E (camo_pluginSecret (b_camoShared b)) i t)"
proof (cases "camo_profile (b_camoShared b) = camoProfileMinecraft")
  case True
  with assms show ?thesis
    using mcServerSecure_authenticates [of E i t "mcDeepConfig b" status]
    by (simp add: performCamouflageServer_def performMCCamouflageServer_def mcDeepConfig_def
        camouflageHidesVPN_def Let_def)
next
  case False
  then show ?thesis
    using assms(2,3) unfolding performCamouflageServer_def camouflageHidesVPN_def Let_def
    by (auto intro!: hoare_bind [OF profile_servers_inv(1)] hoare_bind [OF profile_servers_inv(2)]
        hoare_bind [OF profile_servers_inv(3)] hoare_bind [OF profile_servers_inv(4)]
        hoare_bind [OF profile_servers_inv(5)] secureGenericServer_authenticates [OF assms(1)] hoare_fail)
qed

text \<open>
  C10. With secure camouflage a session is only ever installed for a peer that
  knows the secret.  For every profile other than none and every byte stream
  a peer may send, if one turn of the accept loop installs a session, then the
  peer sent, somewhere in its stream, a 128-byte reply whose tag is the
  truncated HMAC under the shared key of the hello the server made from its
  own randomness and of the reply's head, and the session's toNAT flag is the
  one that reply carries.\<close>

theorem secure_session_is_authenticated:
  assumes "hmac_size E" "camo_secure (b_camoShared b)" "camo_profile (b_camoShared b) \<noteq> camoProfileNone"
    and "camo_profile (b_camoShared b) = camoProfileMinecraft \<longrightarrow>
           mc_enabled (b_mcConfig b) \<and> mc_pluginSecret (b_mcConfig b) = camo_pluginSecret (b_camoShared b)"
    and "c_rd raw = None" "psk = securePSK E (camo_pluginSecret (b_camoShared b))"
    and "accept_conn E b status remoteOK raw = (AcceptSession toNAT, c')"
  shows "\<exists>r reply. suffix r (c_rand raw) \<and> 160 \<le> length r \<and> sublist reply (c_in raw) \<and>
    length reply = 128 \<and>
    take 16 (drop 49 reply)
      = take 16 (e_hmac E psk (go_str ''client'' @ hello_of E psk r @ take 49 reply)) \<and>
    reply ! 48 XOR secureMask E psk (take 16 reply) ! 32 = (if toNAT then 1 else 0)"
proof -
  have hides: "camouflageHidesVPN (b_camoShared b)" using assms(3) by (simp add: camouflageHidesVPN_def)
  have inv: "io_inv (c_in raw) (c_rand raw) raw" using assms(5) by (simp add: io_inv_def)
  obtain res c where run: "run_state (performCamouflageServer E b status) raw = (res, c)" by fastforce
  with assms(7) hides have "res = Inr (ConnValue, toNAT)"
    by (auto simp: accept_conn_def Let_def split: sum.splits prod.splits ret_conn.splits if_splits)
  with hoareD [OF performCamouflageServer_authenticates [OF assms(1,2) hides assms(4) [rule_format]] inv] run
  have "authenticated E (camo_pluginSecret (b_camoShared b)) (c_in raw) (c_rand raw) toNAT" by fastforce
  then obtain r reply keys where r: "suffix r (c_rand raw)" "160 \<le> length r" "sublist reply (c_in raw)"
      "secureServerFinish E psk (hello_of E psk r) (take 32 r) reply = Inr (keys, toNAT)"
    unfolding authenticated_def assms(6) by blast
  with secureServerFinish_Inr [OF r(4)] openSecureBlob_Inr [of E psk "go_str ''client''" "hello_of E psk r" reply]
  show ?thesis by blast
qed

definition demo_mc :: mcCamouflageConfig where
  "demo_mc = \<lparr>mc_enabled = True, mc_deep = True, mc_timeout = 5, mc_loginUsername = go_str ''Steve'',
     mc_pluginChannel = go_str ''ch'', mc_pluginSecret = go_str ''k'', mc_rejectMessage = go_str ''no''\<rparr>"

definition demo_secure_bind :: camo_bind where
  "demo_secure_bind = \<lparr>b_camoShared = (demo_camo camoProfileMinecraft)\<lparr>camo_secure := True\<rparr>,
     b_mcConfig = demo_mc, b_dialToNAT = False\<rparr>"

lemma fresh_conn_rand: "c_rand (fresh_conn r) = r"
  by (simp add: fresh_conn_def)

theorem secure_session_is_authenticated_witness:
  "let raw = (fresh_conn (replicate 164 7))\<lparr>c_in :=
         secure_c2s demo_env demo_mc True (go_str ''h'') 25565 1 (replicate 164 7) (replicate 288 9)\<rparr>;
       psk = securePSK demo_env (go_str ''k'')
   in (\<exists>c'. accept_conn demo_env demo_secure_bind [] True raw = (AcceptSession True, c')) \<and>
      (\<exists>r reply. suffix r (c_rand raw) \<and> 160 \<le> length r \<and> sublist reply (c_in raw) \<and>
        length reply = 128 \<and>
        take 16 (drop 49 reply)
          = take 16 (e_hmac demo_env psk (go_str ''client'' @ hello_of demo_env psk r @ take 49 reply)) \<and>
        reply ! 48 XOR secureMask demo_env psk (take 16 reply) ! 32 = (if True then 1 else 0))"
proof -
  let ?raw = "(fresh_conn (replicate 164 7))\<lparr>c_in :=
         secure_c2s demo_env demo_mc True (go_str ''h'') 25565 1 (replicate 164 7) (replicate 288 9)\<rparr>"
  have raw: "flowing ?raw" "c_rd ?raw = None" "c_wr ?raw = None" "c_rand ?raw = replicate 164 7"
    by (simp_all add: fresh_conn_def flowing_def)
  have "\<exists>s'. run_state (performMCCamouflageServerSecure demo_env demo_mc []) ?raw = (Inr (ConnValue, True), s') \<and> c_in s' = []"
    using run_secure_server [of demo_env "go_str ''h''" "[]" demo_mc ?raw "replicate 288 9" _ True 25565 1,
        OF demo_env_ok demo_env_pkix _ _ _ raw(1-3) _ _ refl]
    by (simp add: fresh_conn_rand demo_mc_def go_str_def)
  then have acc: "\<exists>c'. accept_conn demo_env demo_secure_bind [] True ?raw = (AcceptSession True, c')"
    by (auto simp: accept_conn_def performCamouflageServer_def performMCCamouflageServer_def
        mcDeepConfig_def demo_secure_bind_def demo_camo_def demo_mc_def Let_def peekToNATMagic_def
        toNATMagic_def camoProfileMinecraft_def camoProfileNone_def go_str_def)
  then obtain c' where "accept_conn demo_env demo_secure_bind [] True ?raw = (AcceptSession True, c')" ..
  from secure_session_is_authenticated [OF demo_env_ok(1) _ _ _ raw(2) refl this] acc
  show ?thesis
    by (simp add: demo_secure_bind_def demo_camo_def demo_mc_def camoProfileMinecraft_def
        camoProfileNone_def go_str_def Let_def)
qed

lemma mcDeepConfig_eq: "mcDeepConfig b = b_mcConfig b"
  by (simp add: mcDeepConfig_def Let_def)

text \<open>The packets every Minecraft login starts with.\<close>

definition login_prefix :: "byte list \<Rightarrow> 16 word \<Rightarrow> 64 word \<Rightarrow> byte list \<Rightarrow> byte list" where
  "login_prefix host port t user =
     mc_frame (encodeMCHandshake defaultMCProtocol host port mcStateStatus) @
     mc_frame encodeMCStatusRequest @ mc_frame (encodeMCPing t) @
     mc_frame (encodeMCHandshake defaultMCProtocol host port mcStateLogin) @
     mc_frame (encodeMCLoginStart user)"

lemma accept_conn_session:
  assumes "run_state (performCamouflageServer E b status) s = (Inr (ConnValue, t), c)" "c_in c = []"
    and "camouflageHidesVPN (b_camoShared b)"
  shows "accept_conn E b status True s = (AcceptSession t, c)"
  using assms by (simp add: accept_conn_def peekToNATMagic_def toNATMagic_def go_str_def Let_def)

text \<open>
  C26. In deep (not secure) mode a client that fails the secret challenge is
  told that it is disconnected, and is installed as a session all the same.
  After the usual status exchange and login start, let the client send any
  packet that is not a plugin response, or a plugin response with the right
  channel whose data does not verify: the server writes the disconnect packet,
  but reports no error, so the accept loop installs the connection.\<close>

theorem rejected_deep_login_is_installed:
  assumes cfg: "camo_profile (b_camoShared b) = camoProfileMinecraft" "\<not> camo_secure (b_camoShared b)"
      "mc_enabled (b_mcConfig b)" "mc_deep (b_mcConfig b)"
    and sizes: "length host \<le> 2 ^ 16" "length status \<le> 2 ^ 16" "length user \<le> 2 ^ 16"
      "length (mc_pluginChannel (b_mcConfig b)) \<le> 2 ^ 16" "length p \<le> 2 ^ 20"
    and s: "flowing s" "c_rd s = None" "c_wr s = None" "8 \<le> length (c_rand s)"
    and input: "c_in s = login_prefix host port t user @ mc_frame p"
    and follow_up: "mcPacketHead p = Inr (i, rest)"
    and rejected: "i \<noteq> mcIDLoginPluginResponse \<or>
      (\<exists>data. decodeMCLoginPluginResponseBody rest = Inr (mc_pluginChannel (b_mcConfig b), data) \<and>
         \<not> fst (verifyPluginResponse E (mc_pluginSecret (b_mcConfig b)) (take 8 (c_rand s)) data))"
  shows "\<exists>c' before. accept_conn E b status True s = (AcceptSession False, c') \<and>
    c_out c' = before @ mc_frame (encodeMCDisconnect (e_json_text E) (mc_rejectMessage (b_mcConfig b)))"
proof -
  let ?cfg = "mcDeepConfig b"
  have deep: "\<exists>c' before. run_state (performMCCamouflageServerDeep E ?cfg status) s = (Inr False, c') \<and>
      c_in c' = [] \<and> c_out c' = before @ mc_frame (encodeMCDisconnect (e_json_text E) (mc_rejectMessage ?cfg))"
  proof (cases "i = mcIDLoginPluginResponse")
    case False
    then show ?thesis using sizes s input follow_up
      by (cases s)
         (simp add: performMCCamouflageServerDeep_def login_prefix_def conn_SetDeadline_def
           writeMCPacket_frame exec_simps read_frame read_frame_last mc_run_sizes sendMCDisconnect_def
           handshake_roundtrip status_roundtrip ping_roundtrip login_start_roundtrip mcDeepConfig_eq
           st_ranges [simplified] Let_def)
  next
    case True
    with rejected obtain data where
      "decodeMCLoginPluginResponseBody rest = Inr (mc_pluginChannel (b_mcConfig b), data)"
      "\<not> fst (verifyPluginResponse E (mc_pluginSecret (b_mcConfig b)) (take 8 (c_rand s)) data)"
      by auto
    with True show ?thesis using sizes s input follow_up
      by (cases s, cases "verifyPluginResponse E (mc_pluginSecret (b_mcConfig b)) (take 8 (c_rand s)) data")
         (simp add: performMCCamouflageServerDeep_def login_prefix_def conn_SetDeadline_def
           writeMCPacket_frame exec_simps read_frame read_frame_last mc_run_sizes sendMCDisconnect_def
           handshake_roundtrip status_roundtrip ping_roundtrip login_start_roundtrip mcDeepConfig_eq
           st_ranges [simplified] validatePluginChannel_def Let_def)
  qed
  then obtain c' before where run: "run_state (performMCCamouflageServerDeep E ?cfg status) s = (Inr False, c')"
      "c_in c' = []" "c_out c' = before @ mc_frame (encodeMCDisconnect (e_json_text E) (mc_rejectMessage ?cfg))"
    by blast
  have hides: "camouflageHidesVPN (b_camoShared b)"
    by (simp add: camouflageHidesVPN_def cfg(1) camoProfileMinecraft_def camoProfileNone_def go_str_def)
  have "run_state (performCamouflageServer E b status) s = (Inr (ConnValue, False), c')"
    using run(1) cfg hides
    by (simp add: performCamouflageServer_def performMCCamouflageServer_def camouflageHidesVPN_def
        mcDeepConfig_eq Let_def run_iobind io_simps)
  from accept_conn_session [OF this run(2) hides] run(3) show ?thesis
    by (auto simp: mcDeepConfig_eq)
qed

text \<open>
  C27. In secure mode a client can crash the accept loop: after the status
  exchange and the login start it answers the encryption request with a packet
  of another kind; the server sends the disconnect packet and returns a nil
  connection without an error, on which the accept loop calls a method.\<close>

theorem secure_mode_rejection_panics:
  assumes E: "hmac_size E" "pkix_ok E"
    and cfg: "camo_profile (b_camoShared b) = camoProfileMinecraft" "camo_secure (b_camoShared b)"
      "mc_enabled (b_mcConfig b)"
    and sizes: "length host \<le> 2 ^ 16" "length status \<le> 2 ^ 16" "length user \<le> 2 ^ 16" "length p \<le> 2 ^ 20"
    and s: "flowing s" "c_rd s = None" "c_wr s = None" "164 \<le> length (c_rand s)"
    and input: "c_in s = login_prefix host port t user @ mc_frame p"
    and follow_up: "mcPacketHead p = Inr (i, rest)" "i \<noteq> mcIDEncryptionResponse"
  shows "fst (accept_conn E b status remoteOK s) = AcceptPanic"
proof -
  let ?cfg = "mcDeepConfig b"
  let ?h = "hello_of E (securePSK E (mc_pluginSecret ?cfg)) (c_rand s)" and ?v = "take 4 (drop 160 (c_rand s))"
  have lens: "length ?h = 128" "160 \<le> length (c_rand s)" "length ?v \<le> 2 ^ 16"
    using E s by (simp_all add: min_le_iff_disj)
  note req = encryption_request(1) [OF E(2) lens(1) hd_hello_of [OF lens(2)] lens(3)]
  have "\<exists>c'. run_state (performMCCamouflageServerSecure E ?cfg status) s = (Inr (NilConn, False), c')"
    using E sizes s input follow_up req
    by (cases s)
       (simp add: performMCCamouflageServerSecure_def mcStatusPingServer_def with_deadline_def
         login_prefix_def conn_SetDeadline_def writeMCPacket_frame exec_simps read_frame read_frame_last
         mc_run_sizes sendMCDisconnect_def handshake_roundtrip status_roundtrip ping_roundtrip
         login_start_roundtrip st_ranges [simplified] Let_def run_secureServerHello add.commute)
  then show ?thesis
    using cfg
    by (auto simp: accept_conn_def performCamouflageServer_def performMCCamouflageServer_def Let_def
        mcDeepConfig_eq camoProfileMinecraft_def camoProfileNone_def go_str_def)
qed

definition demo_deep_bind :: camo_bind where
  "demo_deep_bind = demo_secure_bind\<lparr>b_camoShared := demo_camo camoProfileMinecraft\<rparr>"

definition probe_conn :: "nat \<Rightarrow> conn" where
  "probe_conn n = (fresh_conn (replicate n 7))\<lparr>c_in :=
     login_prefix (go_str ''h'') 25565 1 (go_str ''u'') @ mc_frame encodeMCStatusRequest\<rparr>"

lemma probe_conn: "flowing (probe_conn n)" "c_rd (probe_conn n) = None" "c_wr (probe_conn n) = None"
    "c_rand (probe_conn n) = replicate n 7"
    "c_in (probe_conn n) = login_prefix (go_str ''h'') 25565 1 (go_str ''u'') @ mc_frame encodeMCStatusRequest"
  by (simp_all add: probe_conn_def fresh_conn_def flowing_def)

theorem rejected_deep_login_is_installed_witness:
  "\<exists>c' before. accept_conn demo_env demo_deep_bind [] True (probe_conn 8) = (AcceptSession False, c') \<and>
    c_out c' = before @ mc_frame (encodeMCDisconnect (e_json_text demo_env) (go_str ''no''))"
proof -
  have "mc_rejectMessage (b_mcConfig demo_deep_bind) = go_str ''no''"
    by (simp add: demo_deep_bind_def demo_secure_bind_def demo_mc_def)
  moreover have "mcPacketHead encodeMCStatusRequest = Inr (mcIDStatusRequest, [])"
    by (simp add: mcPacketHead_def encodeMCStatusRequest_def mc_ids)
  ultimately show ?thesis
    using rejected_deep_login_is_installed [of demo_deep_bind "go_str ''h''" "[]" "go_str ''u''"
        encodeMCStatusRequest "probe_conn 8" 25565 1 mcIDStatusRequest "[]" demo_env]
    by (simp add: probe_conn packet_sizes [simplified] demo_deep_bind_def demo_secure_bind_def demo_mc_def
        demo_camo_def go_str_def mc_ids)
qed

theorem secure_mode_rejection_panics_witness:
  "fst (accept_conn demo_env demo_secure_bind [] True (probe_conn 164)) = AcceptPanic"
proof -
  have "mcPacketHead encodeMCStatusRequest = Inr (mcIDStatusRequest, [])"
    by (simp add: mcPacketHead_def encodeMCStatusRequest_def mc_ids)
  then show ?thesis
    using secure_mode_rejection_panics [of demo_env demo_secure_bind "go_str ''h''" "[]" "go_str ''u''"
        encodeMCStatusRequest "probe_conn 164" 25565 1 mcIDStatusRequest "[]" True]
    by (simp add: probe_conn packet_sizes [simplified] demo_env_ok demo_env_pkix demo_secure_bind_def demo_mc_def
        demo_camo_def go_str_def mc_ids)
qed

end
