(* ===== verification/Tcp_Bind.thy ===== *)
theory Tcp_Bind
  imports Netip Camo_Profiles "HOL-Library.AList"
begin

text \<open>
  The session table of the TCP transport (wireguard/conn/tcp_bind.go,
  tcp_bind_listen.go): sessions keyed by destination, the addresses that have
  connected inbound, dialing with retries, sending with one redial, idle
  supervision, opening and closing.  A *tcpSession is an index into a heap of
  sessions, so that replaced and dropped sessions stay observable.  The key
  dst.String() is the destination itself (String is injective on valid
  addresses).  The outcomes of dials and writes come from two queues of the
  state; what the network sees is recorded in a trace.  Durations and times are
  nanoseconds.
\<close>

section \<open>State\<close>

record reconnectConfig =
  rc_initial :: int
  rc_max :: int
  rc_dialTimeout :: int
  rc_rxIdleTimeout :: int
  rc_allowOutbound :: bool

definition seconds :: "int \<Rightarrow> int" where "seconds n = n * 1000000000"

definition defaultMCHandshakeTime :: int where "defaultMCHandshakeTime = seconds 5"
definition defaultDialTimeout :: int where "defaultDialTimeout = seconds 3"
definition defaultReconnectInitial :: int where "defaultReconnectInitial = seconds 1"
definition defaultReconnectMax :: int where "defaultReconnectMax = seconds 30"
definition defaultRXIdleTimeout :: int where "defaultRXIdleTimeout = seconds 5"
definition keepWarmWindow :: int where "keepWarmWindow = seconds 90"
definition maxSendDialAttempts :: nat where "maxSendDialAttempts = 2"

record tcpSession =
  ts_dst :: AddrPort
  ts_alive :: bool
  ts_connOpen :: bool
  ts_inbound :: bool
  ts_toNAT :: bool
  ts_lastRX :: int
  ts_lastTX :: int

datatype dial_result = DialOK | DialErr | DialAborted

datatype bind_err = NetClosed | DialFailed | WriteFailed | FrameTooLarge nat | WaitingInboundReconnect
  | BindAlreadyOpen

datatype bind_event = EvDial AddrPort | EvSleep int | EvWrite nat "byte list"

record TCPBind =
  tb_isOpen :: bool
  tb_sessions :: "(AddrPort \<times> nat) list option"
  tb_heap :: "tcpSession list"
  tb_inboundIPs :: "Addr list option"
  tb_reconnect :: reconnectConfig
  tb_lastSend :: "(AddrPort \<times> int) list"
  tb_dialq :: "dial_result list"
  tb_writeq :: "bool list"
  tb_trace :: "bind_event list"

section \<open>Operations\<close>

definition upd_session :: "nat \<Rightarrow> (tcpSession \<Rightarrow> tcpSession) \<Rightarrow> TCPBind \<Rightarrow> TCPBind" where
  "upd_session p f b = b\<lparr>tb_heap := (tb_heap b)[p := f (tb_heap b ! p)]\<rparr>"

definition getReconnectConfig :: "TCPBind \<Rightarrow> reconnectConfig" where
  "getReconnectConfig b =
     (let cfg = tb_reconnect b;
          cfg = (if rc_initial cfg \<le> 0 then cfg\<lparr>rc_initial := defaultReconnectInitial\<rparr> else cfg);
          cfg = (if rc_max cfg \<le> 0 then cfg\<lparr>rc_max := defaultReconnectMax\<rparr> else cfg);
          cfg = (if rc_dialTimeout cfg \<le> 0 then cfg\<lparr>rc_dialTimeout := defaultDialTimeout\<rparr> else cfg)
      in cfg)"

definition mustWaitInbound :: "TCPBind \<Rightarrow> AddrPort \<Rightarrow> bool" where
  "mustWaitInbound b dst =
     (if \<not> rc_allowOutbound (tb_reconnect b) then True
      else case tb_inboundIPs b of
        None \<Rightarrow> False
      | Some ips \<Rightarrow> ap_Addr dst \<in> set ips)"

text \<open>One turn of the scan for sessions of the same address.\<close>

definition same_ip_step :: "tcpSession list \<Rightarrow> Addr \<Rightarrow> nat \<times> nat option \<Rightarrow> AddrPort \<times> nat \<Rightarrow> nat \<times> nat option" where
  "same_ip_step heap ip acc kp =
     (if \<not> ts_alive (heap ! snd kp) then acc
      else if ap_Addr (ts_dst (heap ! snd kp)) = ip then (fst acc + 1, Some (snd kp))
      else acc)"

definition lookupSession :: "TCPBind \<Rightarrow> AddrPort \<Rightarrow> nat option" where
  "lookupSession b dst =
     (case tb_sessions b of
        None \<Rightarrow> None
      | Some ss \<Rightarrow>
          if \<not> tb_isOpen b then None
          else case map_of ss dst of
            Some p \<Rightarrow>
              if ts_alive (tb_heap b ! p) then Some p
              else (let r = foldl (same_ip_step (tb_heap b) (ap_Addr dst)) (0, None) ss
                    in if fst r = 1 then snd r else None)
          | None \<Rightarrow>
              (let r = foldl (same_ip_step (tb_heap b) (ap_Addr dst)) (0, None) ss
               in if fst r = 1 then snd r else None))"

definition installSessionToNAT :: "TCPBind \<Rightarrow> AddrPort \<Rightarrow> bool \<Rightarrow> bool \<Rightarrow> int \<Rightarrow> nat option \<times> TCPBind" where
  "installSessionToNAT b dst inbound toNAT now =
     (case tb_sessions b of
        None \<Rightarrow> (None, b)
      | Some ss \<Rightarrow>
          if \<not> tb_isOpen b then (None, b)
          else let p = length (tb_heap b);
                   session = \<lparr>ts_dst = dst, ts_alive = True, ts_connOpen = True, ts_inbound = inbound,
                              ts_toNAT = toNAT, ts_lastRX = now, ts_lastTX = now\<rparr>;
                   stale = map_of ss dst;
                   b = b\<lparr>tb_heap := tb_heap b @ [session],
                         tb_sessions := Some (AList.update dst p (AList.delete dst ss))\<rparr>;
                   b = (if inbound
                        then b\<lparr>tb_inboundIPs :=
                               Some (List.insert (ap_Addr dst) (case tb_inboundIPs b of None \<Rightarrow> [] | Some ips \<Rightarrow> ips))\<rparr>
                        else b);
                   b = (case stale of
                          None \<Rightarrow> b
                        | Some q \<Rightarrow> upd_session q (\<lambda>s. s\<lparr>ts_alive := False, ts_connOpen := False\<rparr>) b)
               in (Some p, b))"

definition installSession :: "TCPBind \<Rightarrow> AddrPort \<Rightarrow> bool \<Rightarrow> int \<Rightarrow> nat option \<times> TCPBind" where
  "installSession b dst inbound now = installSessionToNAT b dst inbound False now"

definition dropSession :: "nat \<Rightarrow> TCPBind \<Rightarrow> TCPBind" where
  "dropSession p b =
     (let b = upd_session p (\<lambda>s. s\<lparr>ts_alive := False\<rparr>) b;
          key = ts_dst (tb_heap b ! p);
          b = (case tb_sessions b of
                 None \<Rightarrow> b
               | Some ss \<Rightarrow> if map_of ss key = Some p then b\<lparr>tb_sessions := Some (AList.delete key ss)\<rparr> else b)
      in upd_session p (\<lambda>s. s\<lparr>ts_connOpen := False\<rparr>) b)"

definition dialOnce :: "AddrPort \<Rightarrow> TCPBind \<Rightarrow> dial_result \<times> TCPBind" where
  "dialOnce dst b =
     (case tb_dialq b of [] \<Rightarrow> DialErr | r # _ \<Rightarrow> r,
      b\<lparr>tb_dialq := tl (tb_dialq b), tb_trace := tb_trace b @ [EvDial dst]\<rparr>)"

text \<open>The loop of dialWithRetries; the first argument counts the attempts left.\<close>

fun dial_attempts :: "nat \<Rightarrow> int \<Rightarrow> AddrPort \<Rightarrow> TCPBind \<Rightarrow> (bind_err + unit) \<times> TCPBind" where
  "dial_attempts 0 backoff dst b = (Inl DialFailed, b)"
| "dial_attempts (Suc n) backoff dst b =
     (if \<not> tb_isOpen b then (Inl NetClosed, b)
      else case dialOnce dst b of
        (DialOK, b) \<Rightarrow> (Inr (), b)
      | (DialAborted, b) \<Rightarrow> (Inl NetClosed, b)
      | (DialErr, b) \<Rightarrow>
          if n = 0 then (Inl DialFailed, b)
          else dial_attempts n (min (backoff * 2) (rc_max (getReconnectConfig b))) dst
                 (b\<lparr>tb_trace := tb_trace b @ [EvSleep backoff]\<rparr>))"

definition dialWithRetries :: "AddrPort \<Rightarrow> nat \<Rightarrow> TCPBind \<Rightarrow> (bind_err + unit) \<times> TCPBind" where
  "dialWithRetries dst maxAttempts b =
     (let maxAttempts = (if maxAttempts = 0 then maxSendDialAttempts else maxAttempts)
      in dial_attempts maxAttempts (rc_initial (getReconnectConfig b)) dst b)"

definition getOrDialSession :: "AddrPort \<Rightarrow> int \<Rightarrow> TCPBind \<Rightarrow> (bind_err + nat) \<times> TCPBind" where
  "getOrDialSession dst now b =
     (case lookupSession b dst of
        Some p \<Rightarrow> (Inr p, b)
      | None \<Rightarrow>
          if mustWaitInbound b dst then (Inl WaitingInboundReconnect, b)
          else if \<not> tb_isOpen b then (Inl NetClosed, b)
          else case dialWithRetries dst maxSendDialAttempts b of
            (Inl e, b) \<Rightarrow> (Inl e, b)
          | (Inr _, b) \<Rightarrow>
              (case installSession b dst False now of
                 (None, b) \<Rightarrow> (Inl NetClosed, b)
               | (Some p, b) \<Rightarrow> (Inr p, b)))"

definition sessionWrite :: "nat \<Rightarrow> byte list \<Rightarrow> int \<Rightarrow> TCPBind \<Rightarrow> (bind_err + unit) \<times> TCPBind" where
  "sessionWrite p buf now b =
     (let s = tb_heap b ! p in
      if \<not> ts_alive s then (Inl NetClosed, b)
      else let b = upd_session p (\<lambda>s. s\<lparr>ts_lastTX := now\<rparr>) b;
               ok = (case tb_writeq b of [] \<Rightarrow> False | x # _ \<Rightarrow> x)
           in if \<not> ts_connOpen s then (Inl NetClosed, b)
              else if ok
              then (Inr (), b\<lparr>tb_writeq := tl (tb_writeq b), tb_trace := tb_trace b @ [EvWrite p buf]\<rparr>)
              else (Inl WriteFailed, b\<lparr>tb_writeq := tl (tb_writeq b)\<rparr>))"

fun send_bufs :: "byte list list \<Rightarrow> nat \<Rightarrow> AddrPort \<Rightarrow> int \<Rightarrow> TCPBind \<Rightarrow> (bind_err + unit) \<times> TCPBind" where
  "send_bufs [] session dst now b = (Inr (), b)"
| "send_bufs (buf # bufs) session dst now b =
     (if length buf > 65535 then (Inl (FrameTooLarge (length buf)), b)
      else case sessionWrite session buf now b of
        (Inr _, b) \<Rightarrow> send_bufs bufs session dst now b
      | (Inl _, b) \<Rightarrow>
          (case getOrDialSession dst now (dropSession session b) of
             (Inl e, b) \<Rightarrow> (Inl e, b)
           | (Inr session, b) \<Rightarrow>
               (case sessionWrite session buf now b of
                  (Inl e, b) \<Rightarrow> (Inl e, dropSession session b)
                | (Inr _, b) \<Rightarrow> send_bufs bufs session dst now b)))"

definition Send :: "byte list list \<Rightarrow> AddrPort \<Rightarrow> int \<Rightarrow> TCPBind \<Rightarrow> (bind_err + unit) \<times> TCPBind" where
  "Send bufs dst now b =
     (let b = b\<lparr>tb_lastSend := AList.update dst now (tb_lastSend b)\<rparr> in
      case getOrDialSession dst now b of
        (Inl e, b) \<Rightarrow> (Inl e, b)
      | (Inr session, b) \<Rightarrow> send_bufs bufs session dst now b)"

definition heartbeatEvery :: "int \<Rightarrow> int" where
  "heartbeatEvery idle = max (idle div 3) (seconds 1)"

text \<open>One tick of idleWatch; the result says whether the watch goes on.\<close>

definition idleWatch_tick :: "nat \<Rightarrow> int \<Rightarrow> int \<Rightarrow> TCPBind \<Rightarrow> bool \<times> TCPBind" where
  "idleWatch_tick p idle now b =
     (let idle = (if idle \<le> 0 then defaultRXIdleTimeout else idle);
          s = tb_heap b ! p in
      if \<not> ts_alive s then (False, b)
      else if ts_lastRX s = 0 then (True, b)
      else if now - ts_lastRX s > idle then
        (False, upd_session p (\<lambda>s. s\<lparr>ts_connOpen := False\<rparr>) b)
      else if now - ts_lastTX s \<ge> heartbeatEvery idle then
        (case sessionWrite p [] now b of
           (Inr _, b) \<Rightarrow> (True, b)
         | (Inl _, b) \<Rightarrow> (True, upd_session p (\<lambda>s. s\<lparr>ts_connOpen := False\<rparr>) b))
      else (True, b))"

definition recentlyUsed :: "AddrPort \<Rightarrow> int \<Rightarrow> TCPBind \<Rightarrow> bool" where
  "recentlyUsed dst now b =
     (case map_of (tb_lastSend b) dst of None \<Rightarrow> False | Some t \<Rightarrow> now - t < keepWarmWindow)"

text \<open>The deferred end of readLoop: drop the session, and say whether keepWarm redials.\<close>

definition readLoop_end :: "nat \<Rightarrow> int \<Rightarrow> TCPBind \<Rightarrow> bool \<times> TCPBind" where
  "readLoop_end p now b =
     (let b = dropSession p b; s = tb_heap b ! p
      in (\<not> ts_inbound s \<and> tb_isOpen b \<and> recentlyUsed (ts_dst s) now b, b))"

text \<open>A frame received on a session.\<close>

definition session_rx :: "nat \<Rightarrow> int \<Rightarrow> TCPBind \<Rightarrow> TCPBind" where
  "session_rx p now = upd_session p (\<lambda>s. s\<lparr>ts_lastRX := now\<rparr>)"

definition bind_Open :: "reconnectConfig \<Rightarrow> TCPBind \<Rightarrow> (bind_err + unit) \<times> TCPBind" where
  "bind_Open rc b =
     (if tb_isOpen b then (Inl BindAlreadyOpen, b)
      else (Inr (), b\<lparr>tb_reconnect := rc, tb_sessions := Some [], tb_inboundIPs := Some [], tb_isOpen := True\<rparr>))"

definition bind_Close :: "TCPBind \<Rightarrow> TCPBind" where
  "bind_Close b =
     (if \<not> tb_isOpen b then b
      else let sessions = (case tb_sessions b of None \<Rightarrow> [] | Some ss \<Rightarrow> ss);
               b = b\<lparr>tb_isOpen := False, tb_sessions := None, tb_inboundIPs := None\<rparr>;
               b = fold (\<lambda>kp. upd_session (snd kp) (\<lambda>s. s\<lparr>ts_connOpen := False\<rparr>)) sessions b
           in b\<lparr>tb_reconnect := \<lparr>rc_initial = 0, rc_max = 0, rc_dialTimeout = 0, rc_rxIdleTimeout = 0,
                                 rc_allowOutbound = False\<rparr>\<rparr>)"

text \<open>A connection accepted by acceptLoop whose handshake gave the outcome of accept_conn.\<close>

definition acceptLoop_step :: "accept_outcome \<Rightarrow> AddrPort \<Rightarrow> int \<Rightarrow> TCPBind \<Rightarrow> TCPBind" where
  "acceptLoop_step outcome remote now b =
     (case outcome of
        AcceptSession toNAT \<Rightarrow> snd (installSessionToNAT b remote True toNAT now)
      | _ \<Rightarrow> b)"

section \<open>The invariant of the session table\<close>

definition live :: "tcpSession \<Rightarrow> bool" where
  "live s \<longleftrightarrow> ts_alive s \<and> ts_connOpen s"

text \<open>
  Every entry of the table is a session for its key that is still alive, the
  address of an inbound one is remembered, and no session that is alive with
  an open connection is missing from the table.
\<close>

definition entry_ok :: "TCPBind \<Rightarrow> AddrPort \<times> nat \<Rightarrow> bool" where
  "entry_ok b kp \<longleftrightarrow> snd kp < length (tb_heap b) \<and> ts_dst (tb_heap b ! snd kp) = fst kp \<and>
     ts_alive (tb_heap b ! snd kp) \<and>
     (ts_inbound (tb_heap b ! snd kp) \<longrightarrow> (\<exists>ips. tb_inboundIPs b = Some ips \<and> ap_Addr (fst kp) \<in> set ips))"

definition bind_inv :: "TCPBind \<Rightarrow> bool" where
  "bind_inv b \<longleftrightarrow>
     (case tb_sessions b of
        None \<Rightarrow> \<not> tb_isOpen b \<and> (\<forall>p < length (tb_heap b). \<not> live (tb_heap b ! p))
      | Some ss \<Rightarrow> tb_isOpen b \<and> distinct (map fst ss) \<and> list_all (entry_ok b) ss \<and>
          (\<forall>p < length (tb_heap b). live (tb_heap b ! p) \<longrightarrow> (ts_dst (tb_heap b ! p), p) \<in> set ss))"

lemma upd_session_simps [simp]:
  "tb_isOpen (upd_session p f b) = tb_isOpen b" "tb_sessions (upd_session p f b) = tb_sessions b"
  "tb_inboundIPs (upd_session p f b) = tb_inboundIPs b" "tb_reconnect (upd_session p f b) = tb_reconnect b"
  "tb_trace (upd_session p f b) = tb_trace b" "tb_dialq (upd_session p f b) = tb_dialq b"
  "length (tb_heap (upd_session p f b)) = length (tb_heap b)"
  "tb_writeq (upd_session p f b) = tb_writeq b" "tb_lastSend (upd_session p f b) = tb_lastSend b"
  by (simp_all add: upd_session_def)

lemma heap_upd_session:
  "q < length (tb_heap b) \<Longrightarrow>
     tb_heap (upd_session p f b) ! q = (if p = q then f (tb_heap b ! q) else tb_heap b ! q)"
  by (simp add: upd_session_def nth_list_update)

text \<open>An update that neither revives a session nor kills one of the table keeps the invariant.\<close>

lemma bind_inv_upd:
  assumes "bind_inv b" "\<And>s. ts_dst (f s) = ts_dst s" "\<And>s. ts_alive (f s) = ts_alive s"
    "\<And>s. ts_inbound (f s) = ts_inbound s" "\<And>s. live (f s) \<Longrightarrow> live s"
  shows "bind_inv (upd_session p f b)"
proof -
  have "entry_ok (upd_session p f b) kp = entry_ok b kp" for kp
    using assms(2,3,4) by (cases "p = snd kp"; cases "snd kp < length (tb_heap b)")
      (simp_all add: entry_ok_def heap_upd_session)
  then have e: "entry_ok (upd_session p f b) = entry_ok b" by (rule ext)
  have l: "live (tb_heap (upd_session p f b) ! q) \<Longrightarrow> live (tb_heap b ! q)"
    "ts_dst (tb_heap (upd_session p f b) ! q) = ts_dst (tb_heap b ! q)" if "q < length (tb_heap b)" for q
    using that assms(2,5) by (auto simp: heap_upd_session split: if_splits)
  show ?thesis using assms(1) l e by (auto simp: bind_inv_def split: option.splits)
qed

lemma entry_unique:
  "\<lbrakk>bind_inv b; tb_sessions b = Some ss; (k, p) \<in> set ss\<rbrakk> \<Longrightarrow> map_of ss k = Some p \<and> ts_dst (tb_heap b ! p) = k"
  by (auto simp: bind_inv_def entry_ok_def list_all_iff)

lemma dropSession_inv:
  assumes inv: "bind_inv b" and p: "p < length (tb_heap b)"
  shows "bind_inv (dropSession p b)"
proof (cases "tb_sessions b")
  case None
  have "live (tb_heap (dropSession p b) ! q) \<Longrightarrow> live (tb_heap b ! q)" if "q < length (tb_heap b)" for q
    using that None by (auto simp: dropSession_def Let_def heap_upd_session live_def split: if_splits)
  moreover have "tb_sessions (dropSession p b) = None" "tb_isOpen (dropSession p b) = tb_isOpen b"
    "length (tb_heap (dropSession p b)) = length (tb_heap b)"
    using None by (simp_all add: dropSession_def Let_def)
  ultimately show ?thesis using inv None by (auto simp: bind_inv_def)
next
  case (Some ss)
  let ?k = "ts_dst (tb_heap b ! p)"
  define ss' where "ss' = (if map_of ss ?k = Some p then AList.delete ?k ss else ss)"
  have hk: "ts_dst (tb_heap (upd_session p (\<lambda>s. s\<lparr>ts_alive := False\<rparr>) b) ! p) = ?k"
    using p by (simp add: heap_upd_session)
  have sess: "tb_sessions (dropSession p b) = Some ss'" "tb_isOpen (dropSession p b) = tb_isOpen b"
    "tb_inboundIPs (dropSession p b) = tb_inboundIPs b" "length (tb_heap (dropSession p b)) = length (tb_heap b)"
    using Some by (simp_all add: dropSession_def Let_def hk ss'_def)
  have heap: "tb_heap (dropSession p b) ! q =
      (if q = p then (tb_heap b ! q)\<lparr>ts_alive := False, ts_connOpen := False\<rparr> else tb_heap b ! q)"
    if "q < length (tb_heap b)" for q
    using that Some by (simp add: dropSession_def Let_def hk heap_upd_session upd_session_def)
  have sub: "kp \<in> set ss' \<longleftrightarrow> kp \<in> set ss \<and> snd kp \<noteq> p" for kp
  proof -
    obtain k q where kp: "kp = (k, q)" by fastforce
    show ?thesis
      using entry_unique [OF inv Some] unfolding ss'_def kp
      by (auto simp: AList.delete_eq)
  qed
  have "distinct (map fst ss')"
    using inv Some unfolding ss'_def bind_inv_def by (auto simp: distinct_map AList.delete_eq intro: inj_on_subset)
  moreover have "entry_ok (dropSession p b) kp" if "kp \<in> set ss'" for kp
  proof -
    have "entry_ok b kp" "snd kp \<noteq> p" using that inv Some by (auto simp: sub bind_inv_def list_all_iff)
    then show ?thesis by (simp add: entry_ok_def sess heap)
  qed
  moreover have "(ts_dst (tb_heap (dropSession p b) ! q), q) \<in> set ss'"
    if "q < length (tb_heap b)" "live (tb_heap (dropSession p b) ! q)" for q
    using that inv Some by (auto simp: heap sub bind_inv_def live_def split: if_splits)
  ultimately show ?thesis using inv Some by (simp add: bind_inv_def sess list_all_iff)
qed

lemma update_delete: "AList.update k p (AList.delete k ss) = AList.delete k ss @ [(k, p)]"
proof -
  have "AList.update k p xs = xs @ [(k, p)]" if "k \<notin> fst ` set xs" for xs
    using that by (induction xs) auto
  moreover have "k \<notin> fst ` set (AList.delete k ss)" by (auto simp: AList.delete_eq)
  ultimately show ?thesis by blast
qed

lemma installSession_inv:
  assumes inv: "bind_inv b" and run: "installSessionToNAT b dst inbound toNAT now = (r, b')"
  shows "bind_inv b' \<and> length (tb_heap b) \<le> length (tb_heap b') \<and>
    (case r of None \<Rightarrow> b' = b | Some p \<Rightarrow> p = length (tb_heap b) \<and> length (tb_heap b') = Suc p \<and>
       tb_heap b' ! p = \<lparr>ts_dst = dst, ts_alive = True, ts_connOpen = True, ts_inbound = inbound,
                              ts_toNAT = toNAT, ts_lastRX = now, ts_lastTX = now\<rparr>)"
proof (cases "tb_sessions b")
  case None
  then show ?thesis using assms by (simp add: installSessionToNAT_def)
next
  case (Some ss)
  then have op: "tb_isOpen b" "distinct (map fst ss)" "list_all (entry_ok b) ss"
    "\<And>p. \<lbrakk>p < length (tb_heap b); live (tb_heap b ! p)\<rbrakk> \<Longrightarrow> (ts_dst (tb_heap b ! p), p) \<in> set ss"
    using inv by (auto simp: bind_inv_def)
  let ?n = "length (tb_heap b)"
  let ?s = "\<lparr>ts_dst = dst, ts_alive = True, ts_connOpen = True, ts_inbound = inbound,
             ts_toNAT = toNAT, ts_lastRX = now, ts_lastTX = now\<rparr>"
  let ?ss = "AList.delete dst ss @ [(dst, ?n)]"
  have r: "r = Some ?n" and sess: "tb_sessions b' = Some ?ss" "tb_isOpen b'"
    and len: "length (tb_heap b') = Suc ?n"
    using run Some op(1)
    by (auto simp: installSessionToNAT_def Let_def update_delete split: option.splits if_splits)
  have ips: "\<exists>ips'. tb_inboundIPs b' = Some ips' \<and> set ips \<subseteq> set ips'" if "tb_inboundIPs b = Some ips" for ips
    using run Some op(1) that
    by (auto simp: installSessionToNAT_def Let_def split: option.splits if_splits)
  have inb: "inbound \<Longrightarrow> \<exists>ips'. tb_inboundIPs b' = Some ips' \<and> ap_Addr dst \<in> set ips'"
    using run Some op(1)
    by (auto simp: installSessionToNAT_def Let_def split: option.splits if_splits)
  have stale: "q < ?n" if "map_of ss dst = Some q" for q
    using map_of_SomeD [OF that] op(3) by (auto simp: list_all_iff entry_ok_def)
  have heap: "tb_heap b' ! q = (if q = ?n then ?s
      else if map_of ss dst = Some q then (tb_heap b ! q)\<lparr>ts_alive := False, ts_connOpen := False\<rparr>
      else tb_heap b ! q)" if "q < Suc ?n" for q
    using run Some op(1) that stale
    by (auto simp: installSessionToNAT_def Let_def upd_session_def nth_append nth_list_update
        split: option.splits if_splits)
  have old: "kp \<in> set (AList.delete dst ss) \<Longrightarrow> kp \<in> set ss \<and> fst kp \<noteq> dst" for kp
    by (auto simp: AList.delete_eq)
  have "distinct (map fst ?ss)"
    using op(2) by (auto simp: AList.delete_eq distinct_map intro: inj_on_subset)
  moreover have "entry_ok b' kp" if "kp \<in> set ?ss" for kp
  proof (cases "kp = (dst, ?n)")
    case True
    then show ?thesis using inb by (simp add: entry_ok_def len heap)
  next
    case False
    with that have kp: "kp \<in> set ss" "fst kp \<noteq> dst" using old by auto
    then have e: "entry_ok b kp" using op(3) by (auto simp: list_all_iff)
    have "map_of ss dst \<noteq> Some (snd kp)"
      using entry_unique [OF inv Some, of dst "snd kp"] e kp(2) map_of_SomeD [of ss dst "snd kp"]
      by (auto simp: entry_ok_def)
    with e ips show ?thesis by (fastforce simp: entry_ok_def len heap)
  qed
  moreover have "(ts_dst (tb_heap b' ! q), q) \<in> set ?ss" if "q < Suc ?n" "live (tb_heap b' ! q)" for q
  proof (cases "q = ?n")
    case True
    then show ?thesis by (simp add: heap)
  next
    case False
    with that have h: "map_of ss dst \<noteq> Some q" "tb_heap b' ! q = tb_heap b ! q" "q < ?n"
      by (auto simp: heap live_def split: if_splits)
    with that op(4) have m: "(ts_dst (tb_heap b ! q), q) \<in> set ss" by simp
    with h(1) entry_unique [OF inv Some] have "ts_dst (tb_heap b ! q) \<noteq> dst" by metis
    with m show ?thesis by (simp add: h AList.delete_eq)
  qed
  ultimately have "bind_inv b'" by (simp add: bind_inv_def sess len list_all_iff)
  then show ?thesis using r len by (simp add: heap)
qed

section \<open>Lookup\<close>

definition same_ip :: "TCPBind \<Rightarrow> Addr \<Rightarrow> AddrPort \<times> nat \<Rightarrow> bool" where
  "same_ip b ip kp \<longleftrightarrow> ts_alive (tb_heap b ! snd kp) \<and> ap_Addr (ts_dst (tb_heap b ! snd kp)) = ip"

lemma same_ip_scan:
  "foldl (same_ip_step (tb_heap b) ip) (n, m) ss =
     (n + length (filter (same_ip b ip) ss),
      if filter (same_ip b ip) ss = [] then m else Some (snd (last (filter (same_ip b ip) ss))))"
  by (induction ss arbitrary: n m) (auto simp: same_ip_step_def same_ip_def)

lemma lookupSession_fallback:
  assumes inv: "bind_inv b" "tb_sessions b = Some ss"
  shows "lookupSession b dst = (case map_of ss dst of
     Some p \<Rightarrow> Some p
   | None \<Rightarrow> (case filter (same_ip b (ap_Addr dst)) ss of [kp] \<Rightarrow> Some (snd kp) | _ \<Rightarrow> None))"
proof -
  have "ts_alive (tb_heap b ! p)" if "map_of ss dst = Some p" for p
    using inv map_of_SomeD [OF that] by (auto simp: bind_inv_def list_all_iff entry_ok_def)
  moreover have "tb_isOpen b" using inv by (simp add: bind_inv_def)
  moreover have "length xs = 1 \<longleftrightarrow> (\<exists>x. xs = [x])" for xs :: "(AddrPort \<times> nat) list"
    by (cases xs) auto
  ultimately show ?thesis
    using inv(2) by (auto simp: lookupSession_def same_ip_scan Let_def split: option.splits list.splits)
qed

lemma lookupSession_valid:
  assumes inv: "bind_inv b" and look: "lookupSession b dst = Some p"
  shows "p < length (tb_heap b) \<and> ts_alive (tb_heap b ! p) \<and>
    ap_Addr (ts_dst (tb_heap b ! p)) = ap_Addr dst"
proof -
  obtain ss where ss: "tb_sessions b = Some ss" using look by (auto simp: lookupSession_def split: option.splits)
  have ok: "entry_ok b kp" if "kp \<in> set ss" for kp using that inv ss by (auto simp: bind_inv_def list_all_iff)
  show ?thesis
  proof (cases "map_of ss dst")
    case (Some q)
    then show ?thesis
      using ok [OF map_of_SomeD [OF Some]] look by (simp add: lookupSession_fallback [OF inv ss] entry_ok_def)
  next
    case None
    with look obtain kp where kp: "filter (same_ip b (ap_Addr dst)) ss = [kp]" "p = snd kp"
      by (auto simp: lookupSession_fallback [OF inv ss] split: list.splits)
    then have "kp \<in> set (filter (same_ip b (ap_Addr dst)) ss)" by simp
    then have "kp \<in> set ss" "same_ip b (ap_Addr dst) kp" by simp_all
    with ok kp(2) show ?thesis by (auto simp: entry_ok_def same_ip_def)
  qed
qed

section \<open>Sending keeps the invariant\<close>

lemma bind_inv_cong:
  "\<lbrakk>tb_isOpen b' = tb_isOpen b; tb_sessions b' = tb_sessions b; tb_heap b' = tb_heap b;
    tb_inboundIPs b' = tb_inboundIPs b\<rbrakk> \<Longrightarrow> bind_inv b' = bind_inv b"
proof -
  assume *: "tb_isOpen b' = tb_isOpen b" "tb_sessions b' = tb_sessions b" "tb_heap b' = tb_heap b"
    "tb_inboundIPs b' = tb_inboundIPs b"
  then have "entry_ok b' = entry_ok b" by (intro ext) (simp add: entry_ok_def)
  with * show ?thesis by (auto simp: bind_inv_def split: option.split)
qed

definition written :: "bind_event list \<Rightarrow> byte list list" where
  "written tr = concat (map (\<lambda>e. case e of EvWrite p buf \<Rightarrow> [buf] | _ \<Rightarrow> []) tr)"

definition dialed :: "bind_event list \<Rightarrow> AddrPort list" where
  "dialed tr = concat (map (\<lambda>e. case e of EvDial d \<Rightarrow> [d] | _ \<Rightarrow> []) tr)"

lemma written_simps [simp]:
  "written [] = []" "written (a @ b) = written a @ written b" "written (EvWrite p buf # tr) = buf # written tr"
  "written (EvDial d # tr) = written tr" "written (EvSleep t # tr) = written tr"
  and dialed_simps [simp]:
  "dialed [] = []" "dialed (a @ b) = dialed a @ dialed b" "dialed (EvWrite p buf # tr) = dialed tr"
  "dialed (EvDial d # tr) = d # dialed tr" "dialed (EvSleep t # tr) = dialed tr"
  by (simp_all add: written_def dialed_def)

text \<open>
  What an operation on behalf of one destination may do: it keeps the
  invariant, never forgets a session, keeps the settings, and extends the trace
  by writes of the given payloads to sessions of that address, and by dials of
  that destination only, and by none when the destination must connect first.
\<close>

definition to_addr :: "TCPBind \<Rightarrow> AddrPort \<Rightarrow> nat \<Rightarrow> bool" where
  "to_addr b dst p \<longleftrightarrow> p < length (tb_heap b) \<and> ap_Addr (ts_dst (tb_heap b ! p)) = ap_Addr dst"

lemma written_mem: "EvWrite p buf \<in> set tr \<Longrightarrow> buf \<in> set (written tr)"
  by (force simp: written_def)

definition sends :: "AddrPort \<Rightarrow> TCPBind \<Rightarrow> TCPBind \<Rightarrow> byte list list \<Rightarrow> bool" where
  "sends dst b b' out \<longleftrightarrow> bind_inv b' \<and> length (tb_heap b) \<le> length (tb_heap b') \<and>
     tb_reconnect b' = tb_reconnect b \<and> tb_inboundIPs b' = tb_inboundIPs b \<and>
     (\<forall>q. to_addr b dst q \<longrightarrow> to_addr b' dst q) \<and>
     (\<exists>tr. (\<forall>q buf. EvWrite q buf \<in> set tr \<longrightarrow> to_addr b' dst q) \<and> tb_trace b' = tb_trace b @ tr \<and> written tr = out \<and> set (dialed tr) \<subseteq> {dst} \<and>
       (mustWaitInbound b dst \<longrightarrow> dialed tr = []))"

lemma sends_refl: "bind_inv b \<Longrightarrow> sends dst b b []"
  by (simp add: sends_def)

lemma sends_trans: "\<lbrakk>sends dst a b xs; sends dst b c ys\<rbrakk> \<Longrightarrow> sends dst a c (xs @ ys)"
proof -
  assume *: "sends dst a b xs" "sends dst b c ys"
  then have "mustWaitInbound b dst = mustWaitInbound a dst" by (simp add: sends_def mustWaitInbound_def)
  moreover obtain s t where "tb_trace b = tb_trace a @ s" "\<forall>q buf. EvWrite q buf \<in> set s \<longrightarrow> to_addr b dst q"
    "written s = xs" "set (dialed s) \<subseteq> {dst}" "mustWaitInbound a dst \<longrightarrow> dialed s = []"
    "tb_trace c = tb_trace b @ t" "\<forall>q buf. EvWrite q buf \<in> set t \<longrightarrow> to_addr c dst q"
    "written t = ys" "set (dialed t) \<subseteq> {dst}" "mustWaitInbound b dst \<longrightarrow> dialed t = []"
    using * unfolding sends_def by blast
  ultimately show ?thesis using * unfolding sends_def
    by (intro conjI exI [of _ "s @ t"]) auto
qed

lemma dial_attempts_frame:
  "dial_attempts n backoff dst b = (r, b') \<Longrightarrow>
     \<exists>dq tr. b' = b\<lparr>tb_dialq := dq, tb_trace := tb_trace b @ tr\<rparr> \<and> written tr = [] \<and> set (dialed tr) \<subseteq> {dst}"
proof (induction n backoff dst b arbitrary: r b' rule: dial_attempts.induct)
  case (1 backoff dst b)
  then have "b' = b\<lparr>tb_dialq := tb_dialq b, tb_trace := tb_trace b @ []\<rparr>" by simp
  then show ?case by fastforce
next
  case (2 n backoff dst b)
  let ?b = "snd (dialOnce dst b)"
  have b1: "?b = b\<lparr>tb_dialq := tl (tb_dialq b), tb_trace := tb_trace b @ [EvDial dst]\<rparr>"
    by (simp add: dialOnce_def)
  consider (closed) "\<not> tb_isOpen b" | (stop) "tb_isOpen b" "b' = ?b"
    | (again) "tb_isOpen b" "fst (dialOnce dst b) = DialErr" "n \<noteq> 0"
       "dial_attempts n (min (backoff * 2) (rc_max (getReconnectConfig ?b))) dst
          (?b\<lparr>tb_trace := tb_trace ?b @ [EvSleep backoff]\<rparr>) = (r, b')"
    using 2(2) by (cases "dialOnce dst b") (auto split: dial_result.splits if_splits)
  then show ?case
  proof cases
    case closed
    then have "b' = b\<lparr>tb_dialq := tb_dialq b, tb_trace := tb_trace b @ []\<rparr>" using 2(2) by simp
    then show ?thesis by fastforce
  next
    case stop
    then show ?thesis using b1 by (intro exI [of _ "tl (tb_dialq b)"] exI [of _ "[EvDial dst]"]) simp
  next
    case again
    have do: "(DialErr, ?b) = dialOnce dst b" using again(2) by (simp add: prod_eq_iff)
    from 2(1) [OF _ do refl again(3,4)] again(1) obtain dq tr where
      "b' = ?b\<lparr>tb_trace := tb_trace ?b @ [EvSleep backoff], tb_dialq := dq,
               tb_trace := (tb_trace ?b @ [EvSleep backoff]) @ tr\<rparr>" "written tr = []" "set (dialed tr) \<subseteq> {dst}"
      by auto
    then show ?thesis
      by (intro exI [of _ dq] exI [of _ "[EvDial dst] @ [EvSleep backoff] @ tr"]) (simp add: b1)
  qed
qed


lemma dialWithRetries_sends:
  assumes "bind_inv b" "\<not> mustWaitInbound b dst" "dialWithRetries dst n b = (r, b')"
  shows "sends dst b b' []"
proof -
  obtain dq tr where "b' = b\<lparr>tb_dialq := dq, tb_trace := tb_trace b @ tr\<rparr>" "written tr = []" "set (dialed tr) \<subseteq> {dst}"
    using dial_attempts_frame assms(3) unfolding dialWithRetries_def Let_def by blast
  with assms(1,2) show ?thesis
    by (auto simp: sends_def to_addr_def bind_inv_cong [of "b\<lparr>tb_dialq := dq, tb_trace := tb_trace b @ tr\<rparr>" b]
        dest: written_mem)
qed

lemma getOrDialSession_sends:
  assumes inv: "bind_inv b" and run: "getOrDialSession dst now b = (r, b')"
  shows "sends dst b b' [] \<and>
    (\<forall>p. r = Inr p \<longrightarrow> to_addr b' dst p \<and> ts_alive (tb_heap b' ! p))"
proof (cases "lookupSession b dst")
  case (Some p)
  then have "r = Inr p" "b' = b" using run by (simp_all add: getOrDialSession_def)
  then show ?thesis using sends_refl [OF inv] lookupSession_valid [OF inv Some] by (simp add: to_addr_def)
next
  case None
  show ?thesis
  proof (cases "mustWaitInbound b dst \<or> \<not> tb_isOpen b")
    case True
    then have "b' = b" "\<forall>p. r \<noteq> Inr p" using run None by (auto simp: getOrDialSession_def split: if_splits)
    then show ?thesis using sends_refl [OF inv] by simp
  next
    case False
    obtain r1 b1 where d: "dialWithRetries dst maxSendDialAttempts b = (r1, b1)" by fastforce
    have s1: "sends dst b b1 []" using dialWithRetries_sends [OF inv _ d] False by simp
    then have inv1: "bind_inv b1" by (simp add: sends_def)
    show ?thesis
    proof (cases r1)
      case (Inl e)
      then show ?thesis using run None False d s1 by (auto simp: getOrDialSession_def)
    next
      case (Inr u)
      obtain i b2 where ins: "installSession b1 dst False now = (i, b2)" by fastforce
      from installSession_inv [OF inv1 ins [unfolded installSession_def]]
      have i2: "bind_inv b2" "length (tb_heap b1) \<le> length (tb_heap b2)"
        "case i of None \<Rightarrow> b2 = b1 | Some p \<Rightarrow> p = length (tb_heap b1) \<and> length (tb_heap b2) = Suc p \<and>
           tb_heap b2 ! p = \<lparr>ts_dst = dst, ts_alive = True, ts_connOpen = True, ts_inbound = False,
                              ts_toNAT = False, ts_lastRX = now, ts_lastTX = now\<rparr>"
        by auto
      have "tb_reconnect b2 = tb_reconnect b1" "tb_inboundIPs b2 = tb_inboundIPs b1" "tb_trace b2 = tb_trace b1"
        using ins by (auto simp: installSession_def installSessionToNAT_def Let_def split: option.splits if_splits)
      moreover have "ts_dst (tb_heap b2 ! q) = ts_dst (tb_heap b1 ! q)" if "q < length (tb_heap b1)" for q
        using ins that by (auto simp: installSession_def installSessionToNAT_def Let_def heap_upd_session nth_append
            split: option.splits if_splits)
      ultimately have "sends dst b1 b2 []" using i2 by (auto simp: sends_def to_addr_def)
      from sends_trans [OF s1 this] have "sends dst b b2 []" by simp
      moreover have "b' = b2" "r = (case i of None \<Rightarrow> Inl NetClosed | Some p \<Rightarrow> Inr p)"
        using run None False d Inr ins by (auto simp: getOrDialSession_def split: option.splits)
      ultimately show ?thesis using i2(3) by (auto simp: to_addr_def split: option.splits)
    qed
  qed
qed

lemma sessionWrite_sends:
  assumes inv: "bind_inv b" and run: "sessionWrite p buf now b = (r, b')" and p: "to_addr b dst p"
  shows "sends dst b b' (case r of Inl _ \<Rightarrow> [] | Inr _ \<Rightarrow> [buf])"
proof -
  let ?b = "upd_session p (\<lambda>s. s\<lparr>ts_lastTX := now\<rparr>) b"
  have inv1: "bind_inv ?b" by (rule bind_inv_upd [OF inv]) (simp_all add: live_def)
  have eq: "bind_inv (?b\<lparr>tb_writeq := q, tb_trace := t\<rparr>) = bind_inv ?b" "bind_inv (?b\<lparr>tb_writeq := q\<rparr>) = bind_inv ?b" for q t
    by (rule bind_inv_cong; simp)+
  have "ts_dst (tb_heap ?b ! q) = ts_dst (tb_heap b ! q)"
    if "q < length (tb_heap b)" for q using that by (simp add: heap_upd_session)
  then have to: "to_addr (?b\<lparr>tb_writeq := q, tb_trace := t\<rparr>) dst = to_addr b dst"
    "to_addr (?b\<lparr>tb_writeq := q\<rparr>) dst = to_addr b dst" "to_addr ?b dst = to_addr b dst" for q t
    by (auto simp: to_addr_def fun_eq_iff)
  show ?thesis
    using run inv inv1 p
    by (auto simp: sessionWrite_def Let_def sends_def eq to split: if_splits)
qed

lemma dropSession_sends:
  assumes "bind_inv b" "p < length (tb_heap b)"
  shows "sends dst b (dropSession p b) []"
proof -
  have d: "ts_dst (tb_heap (dropSession p b) ! q) = ts_dst (tb_heap b ! q)" if "q < length (tb_heap b)" for q
    using that by (cases "p = q") (simp_all add: dropSession_def Let_def upd_session_def split: option.splits)
  have "length (tb_heap (dropSession p b)) = length (tb_heap b)" "tb_reconnect (dropSession p b) = tb_reconnect b"
    "tb_inboundIPs (dropSession p b) = tb_inboundIPs b" "tb_trace (dropSession p b) = tb_trace b"
    by (simp_all add: dropSession_def Let_def split: option.splits)
  with d dropSession_inv [OF assms] show ?thesis by (auto simp: sends_def to_addr_def)
qed

lemma send_bufs_sends:
  "\<lbrakk>bind_inv b; to_addr b dst p; send_bufs bufs p dst now b = (r, b')\<rbrakk> \<Longrightarrow>
     \<exists>out rest. sends dst b b' out \<and> bufs = out @ rest \<and> (r = Inr () \<longleftrightarrow> rest = [])"
proof (induction bufs p dst now b arbitrary: r b' rule: send_bufs.induct)
  case (1 p dst now b)
  then show ?case using sends_refl by auto
next
  case (2 buf bufs p dst now b)
  show ?case
  proof (cases "length buf > 65535")
    case True
    then show ?thesis using 2(3,5) sends_refl by (intro exI [of _ "[]"] exI [of _ "buf # bufs"]) auto
  next
    case False
    obtain r1 b1 where w: "sessionWrite p buf now b = (r1, b1)" by fastforce
    have s1: "sends dst b b1 (case r1 of Inl _ \<Rightarrow> [] | Inr _ \<Rightarrow> [buf])" by (rule sessionWrite_sends [OF 2(3) w 2(4)])
    then have inv1: "bind_inv b1" and p1: "to_addr b1 dst p" using 2(4) by (auto simp: sends_def)
    show ?thesis
    proof (cases r1)
      case (Inr u)
      then have "send_bufs bufs p dst now b1 = (r, b')" using 2(5) False w by simp
      from 2(2) [OF _ w [symmetric] Inr inv1 p1 this] False obtain out rest where
        "sends dst b1 b' out" "bufs = out @ rest" "(r = Inr ()) = (rest = [])" by auto
      with sends_trans [OF s1] Inr show ?thesis by (intro exI [of _ "buf # out"] exI [of _ rest]) auto
    next
      case (Inl e)
      obtain r2 b2 where g: "getOrDialSession dst now (dropSession p b1) = (r2, b2)" by fastforce
      have sd: "sends dst b1 (dropSession p b1) []" by (rule dropSession_sends [OF inv1]) (use p1 in \<open>simp add: to_addr_def\<close>)
      then have "bind_inv (dropSession p b1)" by (simp add: sends_def)
      from getOrDialSession_sends [OF this g] have s2: "sends dst (dropSession p b1) b2 []"
        and q: "\<And>q. r2 = Inr q \<Longrightarrow> to_addr b2 dst q" by auto
      have s12: "sends dst b b2 []"
        using sends_trans [OF s1 sends_trans [OF sd s2]] Inl by simp
      show ?thesis
      proof (cases r2)
        case (Inl e2)
        then have "r = Inl e2" "b' = b2" using 2(5) False w \<open>r1 = Inl e\<close> g by simp_all
        then show ?thesis using s12 by (intro exI [of _ "[]"] exI [of _ "buf # bufs"]) simp
      next
        case (Inr q')
        obtain r3 b3 where w3: "sessionWrite q' buf now b2 = (r3, b3)" by fastforce
        have inv2: "bind_inv b2" using s12 by (simp add: sends_def)
        have s3: "sends dst b2 b3 (case r3 of Inl _ \<Rightarrow> [] | Inr _ \<Rightarrow> [buf])" by (rule sessionWrite_sends [OF inv2 w3 q [OF Inr]])
        then have inv3: "bind_inv b3" and q3: "to_addr b3 dst q'" using q [OF Inr] by (auto simp: sends_def)
        show ?thesis
        proof (cases r3)
          case (Inl e3)
          then have "r = Inl e3" "b' = dropSession q' b3"
            using 2(5) False w \<open>r1 = Inl e\<close> g w3 \<open>r2 = Inr q'\<close> by simp_all
          then show ?thesis
            using sends_trans [OF sends_trans [OF s12 s3] dropSession_sends [OF inv3, of q']] q3 Inl
            by (intro exI [of _ "[]"] exI [of _ "buf # bufs"]) (simp add: to_addr_def)
        next
          case (Inr u3)
          then have "send_bufs bufs q' dst now b3 = (r, b')"
            using 2(5) False w \<open>r1 = Inl e\<close> g w3 \<open>r2 = Inr q'\<close> by simp
          from 2(1) [OF _ w [symmetric] \<open>r1 = Inl e\<close> g [symmetric] \<open>r2 = Inr q'\<close> w3 [symmetric] Inr inv3 q3 this] False
          obtain out rest where "sends dst b3 b' out" "bufs = out @ rest" "(r = Inr ()) = (rest = [])" by auto
          with sends_trans [OF sends_trans [OF s12 s3]] Inr show ?thesis
            by (intro exI [of _ "buf # out"] exI [of _ rest]) auto
        qed
      qed
    qed
  qed
qed


lemma Send_sends:
  assumes inv: "bind_inv b" and run: "Send bufs dst now b = (r, b')"
  shows "\<exists>out rest. sends dst b b' out \<and> bufs = out @ rest \<and> (r = Inr () \<longrightarrow> rest = [])"
proof -
  let ?b = "b\<lparr>tb_lastSend := AList.update dst now (tb_lastSend b)\<rparr>"
  have inv0: "bind_inv ?b" using inv bind_inv_cong [of ?b b] by simp
  have s0: "sends dst b ?b []" using inv0 by (simp add: sends_def to_addr_def)
  obtain r1 b1 where g: "getOrDialSession dst now ?b = (r1, b1)" by fastforce
  from getOrDialSession_sends [OF inv0 g] have s1: "sends dst ?b b1 []"
    and p: "\<And>p. r1 = Inr p \<Longrightarrow> to_addr b1 dst p" by auto
  have s01: "sends dst b b1 []" using sends_trans [OF s0 s1] by simp
  show ?thesis
  proof (cases r1)
    case (Inl e)
    then show ?thesis using run g s01
      by (intro exI [of _ "[]"] exI [of _ bufs]) (auto simp: Send_def Let_def)
  next
    case (Inr q)
    then have "send_bufs bufs q dst now b1 = (r, b')" using run g by (simp add: Send_def Let_def)
    moreover have "bind_inv b1" using s01 by (simp add: sends_def)
    ultimately obtain out rest where "sends dst b1 b' out" "bufs = out @ rest" "(r = Inr ()) = (rest = [])"
      using send_bufs_sends [OF _ p [OF Inr]] by blast
    then show ?thesis using sends_trans [OF s01] by (intro exI [of _ out] exI [of _ rest]) auto
  qed
qed

section \<open>Every reachable state\<close>

lemma bind_Close_inv:
  assumes inv: "bind_inv b"
  shows "bind_inv (bind_Close b)"
proof (cases "tb_sessions b")
  case None
  then show ?thesis using inv by (simp add: bind_inv_def bind_Close_def)
next
  case (Some ss)
  let ?cl = "fold (\<lambda>kp. upd_session (snd kp) (\<lambda>s. s\<lparr>ts_connOpen := False\<rparr>))"
  have frame: "tb_sessions (?cl xs c) = tb_sessions c \<and> tb_isOpen (?cl xs c) = tb_isOpen c \<and>
      length (tb_heap (?cl xs c)) = length (tb_heap c)" for xs c
    by (induction xs arbitrary: c) simp_all
  have shut: "live (tb_heap (?cl xs c) ! q) \<Longrightarrow> live (tb_heap c ! q) \<and> q \<notin> snd ` set xs"
    if "q < length (tb_heap c)" for xs c q
    using that
  proof (induction xs arbitrary: c)
    case (Cons kp xs)
    from Cons(1) [of "upd_session (snd kp) (\<lambda>s. s\<lparr>ts_connOpen := False\<rparr>) c"] Cons(2,3) show ?case
      by (auto simp: heap_upd_session live_def split: if_splits)
  qed simp
  let ?c = "b\<lparr>tb_isOpen := False, tb_sessions := None, tb_inboundIPs := None\<rparr>"
  have "\<not> live (tb_heap (?cl ss ?c) ! q)" if q: "q < length (tb_heap b)" for q
    using shut [of q ?c ss] inv Some q by (force simp: bind_inv_def)
  moreover have "tb_isOpen b" using inv Some by (simp add: bind_inv_def)
  ultimately show ?thesis using Some frame [of ss ?c] by (simp add: bind_inv_def bind_Close_def Let_def)
qed

lemma idleWatch_tick_inv:
  assumes inv: "bind_inv b" and p: "p < length (tb_heap b)"
  shows "bind_inv (snd (idleWatch_tick p idle now b))"
proof -
  have cl: "bind_inv (upd_session p (\<lambda>s. s\<lparr>ts_connOpen := False\<rparr>) c)" if "bind_inv c" for c
    by (rule bind_inv_upd [OF that]) (simp_all add: live_def)
  have wr: "bind_inv b'" if "sessionWrite p [] now b = (r, b')" for r b'
    using sessionWrite_sends [OF inv that, of "ts_dst (tb_heap b ! p)"] p by (simp add: sends_def to_addr_def)
  show ?thesis
    using inv by (auto simp: idleWatch_tick_def Let_def cl wr split: prod.split sum.split)
qed

lemma session_rx_inv: "bind_inv b \<Longrightarrow> bind_inv (session_rx p now b)"
  unfolding session_rx_def by (erule bind_inv_upd) (simp_all add: live_def)

lemma bind_Open_inv: "bind_inv b \<Longrightarrow> bind_inv (snd (bind_Open rc b))"
  by (auto simp: bind_inv_def bind_Open_def split: option.splits)

text \<open>
  The operations a bind goes through, in any order: opening and closing,
  accepted connections, sends, and for any session made so far frames received,
  idle ticks and the end of its reader.
\<close>

inductive bind_step :: "TCPBind \<Rightarrow> TCPBind \<Rightarrow> bool" where
  step_Open: "bind_step b (snd (bind_Open rc b))"
| step_Close: "bind_step b (bind_Close b)"
| step_accept: "bind_step b (acceptLoop_step outcome remote now b)"
| step_Send: "bind_step b (snd (Send bufs dst now b))"
| step_idle: "p < length (tb_heap b) \<Longrightarrow> bind_step b (snd (idleWatch_tick p idle now b))"
| step_rx: "p < length (tb_heap b) \<Longrightarrow> bind_step b (session_rx p now b)"
| step_end: "p < length (tb_heap b) \<Longrightarrow> bind_step b (snd (readLoop_end p now b))"

definition NewTCPBind :: "dial_result list \<Rightarrow> bool list \<Rightarrow> TCPBind" where
  "NewTCPBind dials writes = \<lparr>tb_isOpen = False, tb_sessions = None, tb_heap = [], tb_inboundIPs = None,
     tb_reconnect = \<lparr>rc_initial = 0, rc_max = 0, rc_dialTimeout = 0, rc_rxIdleTimeout = 0, rc_allowOutbound = False\<rparr>,
     tb_lastSend = [], tb_dialq = dials, tb_writeq = writes, tb_trace = []\<rparr>"

lemma bind_step_inv: "\<lbrakk>bind_step b b'; bind_inv b\<rbrakk> \<Longrightarrow> bind_inv b'"
proof (induction rule: bind_step.induct)
  case (step_accept b outcome remote now)
  then show ?case
    using installSession_inv [of b remote True _ now]
    by (cases outcome) (auto simp: acceptLoop_step_def, metis prod.collapse)
next
  case (step_Send b bufs dst now)
  then show ?case using Send_sends [of b bufs dst now] by (metis prod.collapse sends_def)
next
  case (step_end p b now)
  then show ?case by (simp add: readLoop_end_def Let_def dropSession_inv)
qed (simp_all add: bind_Open_inv bind_Close_inv idleWatch_tick_inv session_rx_inv)

lemma bind_reachable_inv:
  assumes "bind_step\<^sup>*\<^sup>* (NewTCPBind dials writes) b"
  shows "bind_inv b"
  using assms
proof (induction rule: rtranclp_induct)
  case base
  show ?case by (simp add: bind_inv_def NewTCPBind_def)
next
  case (step b b')
  then show ?case using bind_step_inv by blast
qed


section \<open>Delivery\<close>

lemma dial_attempts_delivers:
  assumes "tb_isOpen b" "tb_dialq b = ds" "ds = DialOK # rest \<or> ds = DialErr # DialOK # rest"
  shows "\<exists>tr. dial_attempts 2 backoff dst b = (Inr (), b\<lparr>tb_dialq := rest, tb_trace := tb_trace b @ tr\<rparr>)
     \<and> written tr = []"
  using assms(3)
proof
  assume "ds = DialOK # rest"
  then show ?thesis using assms(1,2)
    by (intro exI [of _ "[EvDial dst]"]) (simp add: numeral_2_eq_2 dialOnce_def)
next
  assume "ds = DialErr # DialOK # rest"
  then show ?thesis using assms(1,2)
    by (intro exI [of _ "[EvDial dst, EvSleep backoff, EvDial dst]"]) (simp add: numeral_2_eq_2 dialOnce_def)
qed

lemma send_bufs_delivers:
  "\<lbrakk>p < length (tb_heap b); live (tb_heap b ! p); list_all (\<lambda>x. length x \<le> 65535) bufs;
    tb_writeq b = replicate (length bufs) True @ ws\<rbrakk> \<Longrightarrow>
   \<exists>b'. send_bufs bufs p dst now b = (Inr (), b') \<and> tb_trace b' = tb_trace b @ map (EvWrite p) bufs"
proof (induction bufs arbitrary: b)
  case (Cons x bufs)
  let ?b = "upd_session p (\<lambda>s. s\<lparr>ts_lastTX := now\<rparr>) b"
  let ?c = "?b\<lparr>tb_writeq := tl (tb_writeq b), tb_trace := tb_trace b @ [EvWrite p x]\<rparr>"
  have "sessionWrite p x now b = (Inr (), ?c)"
    using Cons.prems by (simp add: sessionWrite_def Let_def live_def)
  moreover have "\<exists>b'. send_bufs bufs p dst now ?c = (Inr (), b') \<and> tb_trace b' = tb_trace ?c @ map (EvWrite p) bufs"
    by (rule Cons.IH) (use Cons.prems in \<open>simp_all add: heap_upd_session live_def\<close>)
  ultimately show ?case using Cons.prems by auto
qed simp


section \<open>Properties of the bind\<close>

definition demo_ap :: "nat \<Rightarrow> AddrPort" where
  "demo_ap n = \<lparr>ap_Addr = AddrFrom4 [10, 0, 0, of_nat n], ap_Port = 25565\<rparr>"

definition demo_rc :: reconnectConfig where
  "demo_rc = \<lparr>rc_initial = seconds 1, rc_max = seconds 30, rc_dialTimeout = seconds 3,
     rc_rxIdleTimeout = seconds 5, rc_allowOutbound = True\<rparr>"

definition demo_open :: "dial_result list \<Rightarrow> bool list \<Rightarrow> TCPBind" where
  "demo_open dials writes = snd (bind_Open demo_rc (NewTCPBind dials writes))"

definition demo_accepted :: "dial_result list \<Rightarrow> bool list \<Rightarrow> TCPBind" where
  "demo_accepted dials writes = acceptLoop_step (AcceptSession False) (demo_ap 7) 1 (demo_open dials writes)"

lemma demo_open_reachable: "bind_step\<^sup>*\<^sup>* (NewTCPBind dials writes) (demo_open dials writes)"
  unfolding demo_open_def by (intro r_into_rtranclp step_Open)

lemma demo_accepted_reachable: "bind_step\<^sup>*\<^sup>* (NewTCPBind dials writes) (demo_accepted dials writes)"
  unfolding demo_accepted_def
  by (rule rtranclp.rtrancl_into_rtrancl [OF demo_open_reachable step_accept])

lemmas demo_simps = demo_accepted_def demo_open_def acceptLoop_step_def bind_Open_def NewTCPBind_def
  installSessionToNAT_def Let_def Send_def getOrDialSession_def lookupSession_def sessionWrite_def
  upd_session_def dropSession_def mustWaitInbound_def same_ip_step_def demo_rc_def

text \<open>
  C31. In every state the bind can reach the session table is consistent: keys
  are distinct, every entry is a live session for its key whose inbound address
  is remembered, no open session is orphaned, and a closed bind has no open
  session.  A lookup returns the session of the destination when there is one
  and otherwise the session of the same address when that is the only one; what
  it returns is alive and has the address asked for.
\<close>

theorem tcp_session_table_invariant:
  assumes "bind_step\<^sup>*\<^sup>* (NewTCPBind dials writes) b"
  shows "bind_inv b \<and>
    (\<forall>dst p. lookupSession b dst = Some p \<longrightarrow> to_addr b dst p \<and> ts_alive (tb_heap b ! p)) \<and>
    (\<forall>ss dst. tb_sessions b = Some ss \<longrightarrow> lookupSession b dst = (case map_of ss dst of
       Some p \<Rightarrow> Some p
     | None \<Rightarrow> (case filter (same_ip b (ap_Addr dst)) ss of [kp] \<Rightarrow> Some (snd kp) | _ \<Rightarrow> None)))"
  using bind_reachable_inv [OF assms] lookupSession_valid lookupSession_fallback by (simp add: to_addr_def)

theorem tcp_session_table_invariant_witness:
  "bind_inv (demo_accepted [] []) \<and> lookupSession (demo_accepted [] []) (demo_ap 7) = Some 0"
  using tcp_session_table_invariant [OF demo_accepted_reachable [of "[]" "[]"]]
  by (simp add: demo_simps)

text \<open>
  C32. A send writes a prefix of its payloads, in order and each once, and all
  of them when it succeeds, only to sessions of the destination's address; it
  dials no other destination, and none at all when outbound dialing is off or
  the address has connected inbound.
\<close>

theorem tcp_send_in_order:
  assumes "bind_step\<^sup>*\<^sup>* (NewTCPBind dials writes) b" "Send bufs dst now b = (r, b')"
  shows "\<exists>tr rest. tb_trace b' = tb_trace b @ tr \<and> bufs = written tr @ rest \<and> (r = Inr () \<longrightarrow> rest = []) \<and>
    (\<forall>p buf. EvWrite p buf \<in> set tr \<longrightarrow> to_addr b' dst p) \<and> set (dialed tr) \<subseteq> {dst} \<and>
    (mustWaitInbound b dst \<longrightarrow> dialed tr = [])"
proof -
  obtain out rest where "sends dst b b' out" "bufs = out @ rest" "r = Inr () \<longrightarrow> rest = []"
    using Send_sends [OF bind_reachable_inv [OF assms(1)] assms(2)] by blast
  then show ?thesis unfolding sends_def by blast
qed

theorem tcp_send_in_order_witness:
  "\<exists>b'. Send [[1], [2]] (demo_ap 7) 9 (demo_accepted [] [True, False]) = (Inl WaitingInboundReconnect, b') \<and>
    (\<exists>tr rest. tb_trace b' = tr \<and> [[1], [2]] = written tr @ rest \<and> dialed tr = [])"
proof -
  let ?b = "demo_accepted [] [True, False]"
  have r: "fst (Send [[1], [2]] (demo_ap 7) 9 ?b) = Inl WaitingInboundReconnect"
    and w: "mustWaitInbound ?b (demo_ap 7)" "tb_trace ?b = []"
    by (simp_all add: demo_simps)
  obtain b' where s: "Send [[1], [2]] (demo_ap 7) 9 ?b = (Inl WaitingInboundReconnect, b')"
    using r by (cases "Send [[1], [2]] (demo_ap 7) 9 ?b") simp
  from tcp_send_in_order [OF demo_accepted_reachable s] w s show ?thesis by auto
qed

text \<open>
  C33. A send to a destination without a session, which may be dialed, reaches
  it when one of its two dial attempts and then the writes succeed: the send
  returns no error and has written every payload to the new session.
\<close>

theorem tcp_send_reconnects:
  assumes reach: "bind_step\<^sup>*\<^sup>* (NewTCPBind dials writes) b" and "tb_isOpen b" "lookupSession b dst = None"
    and wait: "\<not> mustWaitInbound b dst"
    and dq: "tb_dialq b = DialOK # rest \<or> tb_dialq b = DialErr # DialOK # rest"
    and small: "list_all (\<lambda>x. length x \<le> 65535) bufs"
    and wq: "tb_writeq b = replicate (length bufs) True @ ws"
  shows "\<exists>b' tr. Send bufs dst now b = (Inr (), b') \<and> tb_trace b' = tb_trace b @ tr \<and> written tr = bufs"
proof -
  let ?b = "b\<lparr>tb_lastSend := AList.update dst now (tb_lastSend b)\<rparr>"
  obtain tr where d: "dialWithRetries dst maxSendDialAttempts ?b =
      (Inr (), ?b\<lparr>tb_dialq := rest, tb_trace := tb_trace b @ tr\<rparr>)" and tr: "written tr = []"
    using dial_attempts_delivers [of ?b "tb_dialq b" rest] assms(2) dq
    by (fastforce simp: dialWithRetries_def maxSendDialAttempts_def)
  let ?c = "?b\<lparr>tb_dialq := rest, tb_trace := tb_trace b @ tr\<rparr>"
  have inv: "bind_inv ?c" using bind_reachable_inv [OF reach] bind_inv_cong [of ?c b] by simp
  obtain i e where ins: "installSession ?c dst False now = (i, e)" by fastforce
  have "tb_sessions b \<noteq> None" using bind_reachable_inv [OF reach] assms(2) by (auto simp: bind_inv_def split: option.splits)
  then obtain p where p: "i = Some p" "tb_writeq e = tb_writeq b" "tb_trace e = tb_trace b @ tr"
    using ins assms(2)
    by (auto simp: installSession_def installSessionToNAT_def Let_def split: option.splits)
  from installSession_inv [OF inv ins [unfolded installSession_def]] p(1)
  have "p < length (tb_heap e)" "live (tb_heap e ! p)" by (auto simp: live_def)
  from send_bufs_delivers [OF this small, of ws dst now] p wq obtain b' where
    b': "send_bufs bufs p dst now e = (Inr (), b')" "tb_trace b' = (tb_trace b @ tr) @ map (EvWrite p) bufs" by auto
  have "lookupSession ?b dst = lookupSession b dst" "mustWaitInbound ?b dst = mustWaitInbound b dst"
    by (simp_all add: lookupSession_def mustWaitInbound_def split: option.split)
  then have "lookupSession ?b dst = None" "\<not> mustWaitInbound ?b dst" "tb_isOpen ?b"
    using assms(2-4) by simp_all
  then have "Send bufs dst now b = (Inr (), b')"
    using d ins p(1) b'(1) by (simp add: Send_def Let_def getOrDialSession_def)
  moreover have "written (map (EvWrite p) bufs) = bufs" by (induction bufs) simp_all
  ultimately show ?thesis using b'(2) tr by (intro exI [of _ b'] exI [of _ "tr @ map (EvWrite p) bufs"]) simp
qed

theorem tcp_send_reconnects_witness:
  "\<exists>b' tr. Send [[1], [2]] (demo_ap 9) 5 (demo_open [DialErr, DialOK] [True, True]) = (Inr (), b') \<and>
     tb_trace b' = tr \<and> written tr = [[1], [2]]"
  using tcp_send_reconnects [OF demo_open_reachable [of "[DialErr, DialOK]" "[True, True]"], of "demo_ap 9" "[]" "[[1], [2]]" "[]" 5]
  by (simp add: demo_open_def bind_Open_def NewTCPBind_def lookupSession_def mustWaitInbound_def demo_rc_def)

end
