(* ===== verification/Json_Comments.thy ===== *)
theory Json_Comments
  imports Prelude "HOL-Library.Sublist"
begin

text \<open>
  Comments in the transport configuration (wireguard/conn/tcp_bind.go,
  stripJSONComments): the scanner, a reference for texts with comments, and the
  proof that exactly the comments are removed.
\<close>

section \<open>Comments\<close>

text \<open>
  stripJSONComments as a recursion over the rest of the text; the flags are
  inString and escaped.
\<close>

fun skip_block :: "byte list \<Rightarrow> byte list" where
  "skip_block (a # b # rest) = (if a = 42 \<and> b = 47 then rest else skip_block (b # rest))"
| "skip_block _ = []"

lemma length_skip_block: "length (skip_block xs) \<le> length xs"
  by (induction xs rule: skip_block.induct) auto

function strip_from :: "bool \<Rightarrow> bool \<Rightarrow> byte list \<Rightarrow> byte list" where
  "strip_from inString escaped [] = []"
| "strip_from inString escaped (c # rest) =
     (if inString then
        c # (if escaped then strip_from True False rest
             else if c = 92 then strip_from True True rest
             else strip_from (c \<noteq> 34) False rest)
      else if c = 34 then c # strip_from True escaped rest
      else if c = 47 \<and> rest \<noteq> [] \<and> hd rest = 47 then
        (case dropWhile (\<lambda>x. x \<noteq> 10) (tl rest) of [] \<Rightarrow> [] | _ # rest \<Rightarrow> 10 # strip_from False escaped rest)
      else if c = 47 \<and> rest \<noteq> [] \<and> hd rest = 42 then strip_from False escaped (skip_block (tl rest))
      else c # strip_from False escaped rest)"
  by pat_completeness auto
termination
proof (relation "measure (\<lambda>(_, _, xs). length xs)", goal_cases)
  case (6 inString escaped c rest x xs)
  then have "length (dropWhile (\<lambda>x. x \<noteq> 10) (tl rest)) \<le> length rest"
    by (metis length_dropWhile_le length_tl diff_le_self le_trans)
  with 6 show ?case by simp
next
  case (7 inString escaped c rest)
  then show ?case using length_skip_block [of "tl rest"] by simp
qed auto

definition stripJSONComments :: "byte list \<Rightarrow> byte list" where
  "stripJSONComments data = strip_from False False data"


text \<open>
  The reference: where the text is inside a JSON string, texts without a
  comment, and texts written as pieces of plain text and comments.
\<close>

definition quote_step :: "bool \<times> bool \<Rightarrow> byte \<Rightarrow> bool \<times> bool" where
  "quote_step st c =
     (if fst st then (if snd st then (True, False) else if c = 92 then (True, True) else (c \<noteq> 34, False))
      else (c = 34, snd st))"

fun comment_free :: "bool \<times> bool \<Rightarrow> byte list \<Rightarrow> bool" where
  "comment_free st [] \<longleftrightarrow> True"
| "comment_free st (c # rest) \<longleftrightarrow>
     (\<not> fst st \<and> c = 47 \<and> rest \<noteq> [] \<longrightarrow> hd rest \<noteq> 47 \<and> hd rest \<noteq> 42) \<and> comment_free (quote_step st c) rest"

datatype json_piece = Plain "byte list" | LineComment "byte list" | BlockComment "byte list"

fun piece_ok :: "json_piece \<Rightarrow> bool" where
  "piece_ok (Plain t) \<longleftrightarrow> comment_free (False, False) t \<and> foldl quote_step (False, False) t = (False, False) \<and>
     (t \<noteq> [] \<longrightarrow> last t \<noteq> 47)"
| "piece_ok (LineComment t) \<longleftrightarrow> 10 \<notin> set t"
| "piece_ok (BlockComment t) \<longleftrightarrow> \<not> sublist [42, 47] (t @ [42])"

fun piece_text :: "json_piece \<Rightarrow> byte list" where
  "piece_text (Plain t) = t"
| "piece_text (LineComment t) = [47, 47] @ t @ [10]"
| "piece_text (BlockComment t) = [47, 42] @ t @ [42, 47]"

fun piece_kept :: "json_piece \<Rightarrow> byte list" where
  "piece_kept (Plain t) = t"
| "piece_kept (LineComment t) = [10]"
| "piece_kept (BlockComment t) = []"

lemma strip_from_keep:
  assumes "s \<or> c \<noteq> 47 \<or> rest = [] \<or> hd rest \<noteq> 47 \<and> hd rest \<noteq> 42"
  shows "strip_from s e (c # rest) = c # strip_from (fst (quote_step (s, e) c)) (snd (quote_step (s, e) c)) rest"
proof (cases s)
  case True
  then show ?thesis by (simp add: quote_step_def)
next
  case False
  then have "\<not> (c = 47 \<and> rest \<noteq> [] \<and> hd rest = 47)" "\<not> (c = 47 \<and> rest \<noteq> [] \<and> hd rest = 42)"
    using assms by blast+
  then show ?thesis using False
    by (simp only: strip_from.simps if_False quote_step_def fst_conv snd_conv split: if_split) simp
qed

lemma strip_from_append:
  "\<lbrakk>comment_free (s, e) t; t \<noteq> [] \<longrightarrow> last t \<noteq> 47\<rbrakk> \<Longrightarrow>
     strip_from s e (t @ v) = t @ strip_from (fst (foldl quote_step (s, e) t)) (snd (foldl quote_step (s, e) t)) v"
proof (induction t arbitrary: s e)
  case (Cons c t)
  let ?st = "quote_step (s, e) c"
  have "strip_from (fst ?st) (snd ?st) (t @ v) =
      t @ strip_from (fst (foldl quote_step ?st t)) (snd (foldl quote_step ?st t)) v"
    using Cons.IH [of "fst ?st" "snd ?st"] Cons.prems by (simp split: if_splits)
  moreover have "s \<or> c \<noteq> 47 \<or> t @ v = [] \<or> hd (t @ v) \<noteq> 47 \<and> hd (t @ v) \<noteq> 42"
    using Cons.prems by (cases t) auto
  ultimately show ?case using strip_from_keep [of s c "t @ v" e] by simp
qed simp

lemma strip_from_id: "comment_free (s, e) t \<Longrightarrow> strip_from s e t = t"
proof (induction t arbitrary: s e)
  case (Cons c t)
  have "s \<or> c \<noteq> 47 \<or> t = [] \<or> hd t \<noteq> 47 \<and> hd t \<noteq> 42" using Cons.prems by auto
  moreover have "strip_from (fst (quote_step (s, e) c)) (snd (quote_step (s, e) c)) t = t"
    using Cons.prems by (intro Cons.IH) simp
  ultimately show ?case using strip_from_keep [of s c t e] by simp
qed simp

lemma strip_from_head:
  "\<lbrakk>xs \<noteq> []; \<not> s; hd xs \<noteq> 47\<rbrakk> \<Longrightarrow> strip_from s e xs \<noteq> [] \<and> hd (strip_from s e xs) = hd xs"
  by (cases xs) auto

lemma comment_free_strip: "(\<not> s \<longrightarrow> \<not> e) \<Longrightarrow> comment_free (s, e) (strip_from s e xs)"
proof (induction s e xs rule: strip_from.induct)
  case (2 s e c rest)
  consider (str) s | (quote) "\<not> s" "c = 34" | (line) "\<not> s" "c = 47" "rest \<noteq> []" "hd rest = 47"
    | (block) "\<not> s" "c = 47" "rest \<noteq> []" "hd rest = 42"
    | (other) "\<not> s" "c \<noteq> 34" "c = 47 \<longrightarrow> rest \<noteq> [] \<longrightarrow> hd rest \<noteq> 47 \<and> hd rest \<noteq> 42"
    by (cases s; cases "c = 34"; cases "c = 47"; cases "rest = []"; cases "hd rest = 47"; cases "hd rest = 42") simp_all
  then show ?case
  proof cases
    case str
    have "comment_free (True, False) (strip_from True False rest)" if e using 2(1) str that by blast
    moreover have "comment_free (True, True) (strip_from True True rest)" if "\<not> e" "c = 92" using 2(2) str that by blast
    moreover have "comment_free (c \<noteq> 34, False) (strip_from (c \<noteq> 34) False rest)" if "\<not> e" "c \<noteq> 92"
      using 2(3) str that by blast
    ultimately show ?thesis using str by (simp add: quote_step_def)
  next
    case quote
    then show ?thesis using 2(4) 2(8) by (simp add: quote_step_def)
  next
    case line
    show ?thesis
    proof (cases "dropWhile (\<lambda>x. x \<noteq> 10) (tl rest)")
      case Nil
      then show ?thesis using line by (simp del: dropWhile_eq_Nil_conv)
    next
      case (Cons x xs)
      then show ?thesis using line 2(5) [of x xs] 2(8) by (simp add: quote_step_def)
    qed
  next
    case block
    then show ?thesis using 2(6) 2(8) by simp
  next
    case other
    then have "strip_from s e (c # rest) = c # strip_from False e rest" by auto
    moreover have "c = 47 \<and> strip_from False e rest \<noteq> [] \<longrightarrow>
        hd (strip_from False e rest) \<noteq> 47 \<and> hd (strip_from False e rest) \<noteq> 42"
      using other(3) strip_from_head [of rest False e] by (cases "rest = []") auto
    moreover have "comment_free (False, e) (strip_from False e rest)"
      using 2(7) 2(8) other by blast
    ultimately show ?thesis using other(1,2) 2(8) by (simp add: quote_step_def)
  qed
qed simp


lemma skip_block_text: "\<not> sublist [42, 47] (t @ [42]) \<Longrightarrow> skip_block (t @ [42, 47] @ v) = v"
proof (induction t)
  case (Cons a t)
  then have IH: "skip_block (t @ [42, 47] @ v) = v"
    using sublist_Cons_right by fastforce
  show ?case
  proof (cases t)
    case Nil
    then show ?thesis by simp
  next
    case (Cons b t')
    then have "\<not> (a = 42 \<and> b = 47)"
      using Cons.prems prefix_imp_sublist by (fastforce simp: sublist_Cons_right)
    then show ?thesis using IH Cons by auto
  qed
qed simp

lemma strip_pieces:
  "list_all piece_ok ps \<Longrightarrow>
     strip_from False False (concat (map piece_text ps)) = concat (map piece_kept ps)"
proof (induction ps)
  case (Cons p ps)
  let ?v = "concat (map piece_text ps)"
  have "strip_from False False (piece_text p @ ?v) = piece_kept p @ strip_from False False ?v"
  proof (cases p)
    case (Plain t)
    then show ?thesis using Cons.prems strip_from_append [of False False t ?v] by simp
  next
    case (LineComment t)
    then have "dropWhile (\<lambda>x. x \<noteq> 10) (t @ 10 # ?v) = 10 # ?v"
      using Cons.prems by (intro dropWhile_append2 [THEN trans]) auto
    then show ?thesis using LineComment by simp
  next
    case (BlockComment t)
    then show ?thesis using Cons.prems skip_block_text [of t ?v] by simp
  qed
  then show ?case using Cons by simp
qed simp

text \<open>
  C34. Stripping removes exactly the comments: a text written as pieces of plain
  JSON with line and block comments between them becomes its plain pieces with a
  newline for each line comment, quotes and escapes included; the result never
  contains a comment outside a string, a text without comments is returned as it
  is, and so stripping twice is stripping once.
\<close>

theorem strip_comments_exact:
  "(list_all piece_ok ps \<longrightarrow>
      stripJSONComments (concat (map piece_text ps)) = concat (map piece_kept ps)) \<and>
   comment_free (False, False) (stripJSONComments xs) \<and>
   (comment_free (False, False) xs \<longrightarrow> stripJSONComments xs = xs) \<and>
   stripJSONComments (stripJSONComments xs) = stripJSONComments xs"
  using strip_pieces [of ps] comment_free_strip [of False False xs] strip_from_id [of False False]
  by (simp add: stripJSONComments_def)

theorem strip_comments_exact_witness:
  "stripJSONComments (go_str ''{/* a */1//b'' @ [10] @ go_str ''\"//\"}'') = go_str ''{1'' @ [10] @ go_str ''\"//\"}'' \<and>
   stripJSONComments (go_str ''a/b'') = go_str ''a/b''"
  using strip_comments_exact [of "[Plain (go_str ''{''), BlockComment (go_str '' a ''), Plain (go_str ''1''),
     LineComment (go_str ''b''), Plain (go_str ''\"//\"}'')]" "go_str ''a/b''"]
  by (simp add: go_str_def quote_step_def sublist_Cons_right)

end
