(* ===== verification/Transport_Config.thy ===== *)
theory Transport_Config
  imports Tcp_Bind Json_Comments Go_Text
begin

text \<open>
  The transport configuration (wireguard/conn/tcp_bind.go and camouflage.go):
  the file sections turned into the camouflage, Minecraft and reconnect
  settings with their defaults, and a configuration pushed by the Master
  applied to the open binds.

  Decoding JSON, parsing a duration and lower-casing text that is not ASCII are
  functions of the environment record; strings.TrimSpace and the ASCII part of
  strings.ToLower are those of Go_Text.
\<close>

section \<open>Configuration records\<close>

record tcpConfigFile =
  tf_DialTimeout :: "byte list"
  tf_ReconnectInitialBackoff :: "byte list"
  tf_ReconnectMaxBackoff :: "byte list"
  tf_RXIdleTimeout :: "byte list"
  tf_AllowOutboundDial :: "bool option"

record mcConfigFile =
  mf_Enabled :: "bool option"
  mf_HandshakeTimeout :: "byte list"
  mf_DeepCamouflage :: "bool option"
  mf_LoginUsername :: "byte list"
  mf_LoginPluginChannel :: "byte list"
  mf_LoginPluginSecret :: "byte list"
  mf_RejectMessage :: "byte list"

record camoConfigFile =
  cf_Profile :: "byte list"
  cf_Deep :: "bool option"
  cf_Secure :: "bool option"
  cf_HandshakeTimeout :: "byte list"
  cf_LoginUsername :: "byte list"
  cf_LoginPluginChannel :: "byte list"
  cf_LoginPluginSecret :: "byte list"
  cf_RejectMessage :: "byte list"
  cf_ServerName :: "byte list"

record transportConfigFile =
  tc_TCP :: tcpConfigFile
  tc_MC :: mcConfigFile
  tc_Camouflage :: camoConfigFile

definition empty_config :: transportConfigFile where
  "empty_config = \<lparr>tc_TCP = \<lparr>tf_DialTimeout = [], tf_ReconnectInitialBackoff = [], tf_ReconnectMaxBackoff = [],
       tf_RXIdleTimeout = [], tf_AllowOutboundDial = None\<rparr>,
     tc_MC = \<lparr>mf_Enabled = None, mf_HandshakeTimeout = [], mf_DeepCamouflage = None, mf_LoginUsername = [],
       mf_LoginPluginChannel = [], mf_LoginPluginSecret = [], mf_RejectMessage = []\<rparr>,
     tc_Camouflage = \<lparr>cf_Profile = [], cf_Deep = None, cf_Secure = None, cf_HandshakeTimeout = [],
       cf_LoginUsername = [], cf_LoginPluginChannel = [], cf_LoginPluginSecret = [], cf_RejectMessage = [],
       cf_ServerName = []\<rparr>\<rparr>"

record text_env =
  ParseDuration :: "byte list \<Rightarrow> int option"
  lower_text :: "byte list \<Rightarrow> byte list"
  json_config :: "byte list \<Rightarrow> transportConfigFile option"
  json_text :: "byte list \<Rightarrow> byte list option"

definition ToLower :: "text_env \<Rightarrow> byte list \<Rightarrow> byte list" where
  "ToLower E s = (if list_all (\<lambda>b. b < 128) s then map lower_byte s else lower_text E s)"

section \<open>Loading\<close>

definition parseDurationWithDefault :: "text_env \<Rightarrow> byte list \<Rightarrow> int \<Rightarrow> int" where
  "parseDurationWithDefault E v defaultVal =
     (let v = TrimSpace v in
      if v = [] then defaultVal
      else case ParseDuration E v of None \<Rightarrow> defaultVal | Some d \<Rightarrow> d)"

definition defaultLoginUsername :: "byte list" where "defaultLoginUsername = go_str ''Steve''"
definition defaultLoginPluginChannel :: "byte list" where "defaultLoginPluginChannel = go_str ''minecraft:register''"
definition defaultLoginPluginSecret :: "byte list" where "defaultLoginPluginSecret = go_str ''lasitan-cluster-internal''"
definition defaultRejectDisconnectMsg :: "byte list" where
  "defaultRejectDisconnectMsg = go_str ''You are not whitelisted on this server!''"

definition non_empty_or :: "byte list \<Rightarrow> byte list \<Rightarrow> byte list" where
  "non_empty_or s d = (let s = TrimSpace s in if s = [] then d else s)"

definition loadMCCamouflageConfig :: "text_env \<Rightarrow> mcConfigFile \<Rightarrow> mcCamouflageConfig" where
  "loadMCCamouflageConfig E f =
     (let cfg = \<lparr>mc_enabled = (case mf_Enabled f of None \<Rightarrow> True | Some e \<Rightarrow> e),
                 mc_deep = (case mf_DeepCamouflage f of None \<Rightarrow> True | Some d \<Rightarrow> d),
                 mc_timeout = parseDurationWithDefault E (mf_HandshakeTimeout f) defaultMCHandshakeTime,
                 mc_loginUsername = non_empty_or (mf_LoginUsername f) defaultLoginUsername,
                 mc_pluginChannel = non_empty_or (mf_LoginPluginChannel f) defaultLoginPluginChannel,
                 mc_pluginSecret = non_empty_or (mf_LoginPluginSecret f) defaultLoginPluginSecret,
                 mc_rejectMessage = non_empty_or (mf_RejectMessage f) defaultRejectDisconnectMsg\<rparr>
      in if mc_timeout cfg \<le> 0 then cfg\<lparr>mc_timeout := defaultMCHandshakeTime\<rparr> else cfg)"

definition loadReconnectConfig :: "text_env \<Rightarrow> tcpConfigFile \<Rightarrow> reconnectConfig" where
  "loadReconnectConfig E f =
     (let cfg = \<lparr>rc_initial = parseDurationWithDefault E (tf_ReconnectInitialBackoff f) defaultReconnectInitial,
                 rc_max = parseDurationWithDefault E (tf_ReconnectMaxBackoff f) defaultReconnectMax,
                 rc_dialTimeout = parseDurationWithDefault E (tf_DialTimeout f) defaultDialTimeout,
                 rc_rxIdleTimeout = parseDurationWithDefault E (tf_RXIdleTimeout f) defaultRXIdleTimeout,
                 rc_allowOutbound = (case tf_AllowOutboundDial f of None \<Rightarrow> True | Some a \<Rightarrow> a)\<rparr>;
          cfg = (if rc_initial cfg \<le> 0 then cfg\<lparr>rc_initial := defaultReconnectInitial\<rparr> else cfg);
          cfg = (if rc_max cfg < rc_initial cfg then cfg\<lparr>rc_max := rc_initial cfg\<rparr> else cfg);
          cfg = (if rc_dialTimeout cfg \<le> 0 then cfg\<lparr>rc_dialTimeout := defaultDialTimeout\<rparr> else cfg);
          cfg = (if rc_rxIdleTimeout cfg \<le> 0 then cfg\<lparr>rc_rxIdleTimeout := defaultRXIdleTimeout\<rparr> else cfg)
      in cfg)"

definition normalizeCamoProfile :: "text_env \<Rightarrow> byte list \<Rightarrow> byte list" where
  "normalizeCamoProfile E p =
     (let p = TrimSpace (ToLower E p) in
      if p \<in> set ([] # map go_str [''off'', ''disabled''] @ [camoProfileNone]) then camoProfileNone
      else if p \<in> set (map go_str [''mc'', ''minecraft'', ''minecraft-java'']) then camoProfileMinecraft
      else if p \<in> set (map go_str [''source'', ''cs2'', ''csgo'', ''goldsrc'']) then camoProfileSource
      else if p = go_str ''terraria'' then camoProfileTerraria
      else if p \<in> set (map go_str [''steam'', ''valheim'', ''rust'', ''ark'']) then camoProfileSteam
      else if p \<in> set (map go_str [''bedrock'', ''minecraft-bedrock'']) then camoProfileBedrock
      else if p \<in> set (map go_str [''fivem'', ''gta'']) then camoProfileFiveM
      else p)"

definition loadCamouflageConfig :: "text_env \<Rightarrow> transportConfigFile \<Rightarrow> camoSharedConfig \<times> mcCamouflageConfig" where
  "loadCamouflageConfig E f =
     (let mc = loadMCCamouflageConfig E (tc_MC f);
          cf = tc_Camouflage f;
          profile = (if cf_Profile cf = []
                     then (if mc_enabled mc then camoProfileMinecraft else camoProfileNone)
                     else normalizeCamoProfile E (cf_Profile cf));
          deep = (case cf_Deep cf of None \<Rightarrow> mc_deep mc | Some d \<Rightarrow> d);
          timeout = (if TrimSpace (cf_HandshakeTimeout cf) \<noteq> []
                     then parseDurationWithDefault E (cf_HandshakeTimeout cf) defaultMCHandshakeTime
                     else mc_timeout mc);
          secret = non_empty_or (cf_LoginPluginSecret cf) (mc_pluginSecret mc);
          channel = non_empty_or (cf_LoginPluginChannel cf) (mc_pluginChannel mc);
          user = non_empty_or (cf_LoginUsername cf) (mc_loginUsername mc);
          reject = non_empty_or (cf_RejectMessage cf) (mc_rejectMessage mc);
          name = non_empty_or (cf_ServerName cf) (go_str ''Dedicated Server'');
          shared = \<lparr>camo_profile = profile, camo_deep = deep, camo_timeout = timeout, camo_loginUsername = user,
                    camo_pluginChannel = channel, camo_pluginSecret = secret, camo_rejectMessage = reject,
                    camo_serverName = name, camo_secure = (cf_Secure cf = Some True)\<rparr>
      in (shared,
          if profile = camoProfileMinecraft
          then mc\<lparr>mc_enabled := True, mc_deep := deep, mc_timeout := timeout, mc_pluginSecret := secret,
                  mc_pluginChannel := channel, mc_loginUsername := user, mc_rejectMessage := reject\<rparr>
          else if profile \<noteq> camoProfileNone then mc\<lparr>mc_enabled := False\<rparr>
          else mc))"

section \<open>The pushed and the local configuration\<close>

datatype file_read = FileMissing | FileError | FileData "byte list"

datatype config_err = ParseRemote | ReadConfig | ParseLocal

definition loadTransportConfigFile :: "text_env \<Rightarrow> byte list \<Rightarrow> file_read \<Rightarrow> config_err + transportConfigFile" where
  "loadTransportConfigFile E override file =
     (if override \<noteq> [] then
        (let data = TrimSpace (stripJSONComments override);
             data = (if data \<noteq> [] \<and> hd data = 34
                     then (case json_text E data of None \<Rightarrow> data | Some inner \<Rightarrow> inner) else data)
         in case json_config E data of None \<Rightarrow> Inl ParseRemote | Some cfg \<Rightarrow> Inr cfg)
      else case file of
        FileMissing \<Rightarrow> Inr empty_config
      | FileError \<Rightarrow> Inl ReadConfig
      | FileData data \<Rightarrow>
          (case json_config E (stripJSONComments data) of None \<Rightarrow> Inl ParseLocal | Some cfg \<Rightarrow> Inr cfg))"

text \<open>A bind with its camouflage settings, and the process with the pushed override and its binds.\<close>

record transport_bind =
  tp_camo :: camo_bind
  tp_bind :: TCPBind

record transport_state =
  ts_override :: "byte list"
  ts_file :: file_read
  ts_binds :: "transport_bind list"

definition install_config :: "text_env \<Rightarrow> transportConfigFile \<Rightarrow> transport_bind \<Rightarrow> transport_bind" where
  "install_config E f b =
     b\<lparr>tp_camo := (tp_camo b)\<lparr>b_camoShared := fst (loadCamouflageConfig E f),
                             b_mcConfig := snd (loadCamouflageConfig E f)\<rparr>,
       tp_bind := (tp_bind b)\<lparr>tb_reconnect := loadReconnectConfig E (tc_TCP f)\<rparr>\<rparr>"

definition reloadOpenBinds :: "text_env \<Rightarrow> transport_state \<Rightarrow> transport_state" where
  "reloadOpenBinds E s =
     (case loadTransportConfigFile E (ts_override s) (ts_file s) of
        Inl _ \<Rightarrow> s
      | Inr f \<Rightarrow> s\<lparr>ts_binds := map (\<lambda>b. if tb_isOpen (tp_bind b) then install_config E f b else b) (ts_binds s)\<rparr>)"

definition SetTransportConfigJSON :: "text_env \<Rightarrow> byte list \<Rightarrow> transport_state \<Rightarrow> transport_state" where
  "SetTransportConfigJSON E data s =
     (let changed = (ts_override s \<noteq> data); s = s\<lparr>ts_override := data\<rparr>
      in if changed then reloadOpenBinds E s else s)"

text \<open>Open of bind i: refuse an open bind, load the configuration, start empty.\<close>

definition transport_Open :: "text_env \<Rightarrow> nat \<Rightarrow> transport_state \<Rightarrow> (config_err option + unit) \<times> transport_state" where
  "transport_Open E i s =
     (let b = ts_binds s ! i in
      if tb_isOpen (tp_bind b) then (Inl None, s)
      else case loadTransportConfigFile E (ts_override s) (ts_file s) of
        Inl e \<Rightarrow> (Inl (Some e), s)
      | Inr f \<Rightarrow>
          (let b = install_config E f b
           in (Inr (), s\<lparr>ts_binds := (ts_binds s)[i := b\<lparr>tp_bind := snd (bind_Open (loadReconnectConfig E (tc_TCP f)) (tp_bind b))\<rparr>]\<rparr>)))"

section \<open>What is loaded\<close>

lemma non_empty_or_ne: "d \<noteq> [] \<Longrightarrow> non_empty_or s d \<noteq> []"
  by (simp add: non_empty_or_def Let_def)

lemma default_texts: "defaultLoginUsername \<noteq> []" "defaultLoginPluginChannel \<noteq> []"
  "defaultLoginPluginSecret \<noteq> []" "defaultRejectDisconnectMsg \<noteq> []"
  by (simp_all add: defaultLoginUsername_def defaultLoginPluginChannel_def defaultLoginPluginSecret_def
      defaultRejectDisconnectMsg_def go_str_def)

lemma profiles_differ: "camoProfileMinecraft \<noteq> camoProfileNone"
  by (simp add: camoProfileMinecraft_def camoProfileNone_def go_str_def)

lemma default_times: "defaultMCHandshakeTime > 0" "defaultReconnectInitial > 0" "defaultDialTimeout > 0"
  "defaultRXIdleTimeout > 0" "defaultReconnectMax > 0"
  by (simp_all add: defaultMCHandshakeTime_def defaultReconnectInitial_def defaultDialTimeout_def
      defaultRXIdleTimeout_def defaultReconnectMax_def seconds_def)

lemma loadMC_timeout: "mc_timeout (loadMCCamouflageConfig E f) > 0"
  using default_times by (simp add: loadMCCamouflageConfig_def Let_def)

lemma loadMC_texts:
  "mc_pluginSecret (loadMCCamouflageConfig E f) \<noteq> []" "mc_pluginChannel (loadMCCamouflageConfig E f) \<noteq> []"
  "mc_loginUsername (loadMCCamouflageConfig E f) \<noteq> []" "mc_rejectMessage (loadMCCamouflageConfig E f) \<noteq> []"
  by (simp_all add: loadMCCamouflageConfig_def Let_def non_empty_or_ne default_texts)

lemma loadReconnect_bounds:
  "rc_initial (loadReconnectConfig E f) > 0" "rc_max (loadReconnectConfig E f) \<ge> rc_initial (loadReconnectConfig E f)"
  "rc_dialTimeout (loadReconnectConfig E f) > 0" "rc_rxIdleTimeout (loadReconnectConfig E f) > 0"
  using default_times by (auto simp: loadReconnectConfig_def Let_def)

text \<open>The settings as the rest of the transport relies on them.\<close>

definition settings_ok :: "camoSharedConfig \<Rightarrow> mcCamouflageConfig \<Rightarrow> reconnectConfig \<Rightarrow> bool" where
  "settings_ok shared mc rc \<longleftrightarrow>
     0 < rc_initial rc \<and> rc_initial rc \<le> rc_max rc \<and> 0 < rc_dialTimeout rc \<and> 0 < rc_rxIdleTimeout rc \<and>
     camo_pluginSecret shared \<noteq> [] \<and> camo_pluginChannel shared \<noteq> [] \<and> camo_serverName shared \<noteq> [] \<and>
     mc_pluginSecret mc \<noteq> [] \<and>
     (camo_profile shared = camoProfileMinecraft \<longrightarrow>
        mc_enabled mc \<and> mc_deep mc = camo_deep shared \<and> mc_timeout mc = camo_timeout shared \<and>
        mc_pluginSecret mc = camo_pluginSecret shared \<and> mc_pluginChannel mc = camo_pluginChannel shared) \<and>
     (mc_enabled mc \<longrightarrow> camo_profile shared \<in> {camoProfileMinecraft, camoProfileNone})"

lemma loaded_settings_ok:
  "settings_ok (fst (loadCamouflageConfig E f)) (snd (loadCamouflageConfig E f)) (loadReconnectConfig E (tc_TCP f))"
  unfolding settings_ok_def
  by (auto simp: loadCamouflageConfig_def Let_def loadReconnect_bounds loadMC_texts non_empty_or_ne
      profiles_differ go_str_def)

definition bind_settings_ok :: "transport_bind \<Rightarrow> bool" where
  "bind_settings_ok b \<longleftrightarrow> tb_isOpen (tp_bind b) \<longrightarrow>
     settings_ok (b_camoShared (tp_camo b)) (b_mcConfig (tp_camo b)) (tb_reconnect (tp_bind b))"

lemma install_config_ok: "bind_settings_ok (install_config E f b)"
  by (simp add: bind_settings_ok_def install_config_def loaded_settings_ok)



definition demo_text :: text_env where
  "demo_text = \<lparr>ParseDuration = (\<lambda>s. if s = go_str ''0s'' then Some 0 else None), lower_text = id,
     json_config = (\<lambda>s. if s = go_str ''{}'' then Some empty_config else None), json_text = (\<lambda>_. None)\<rparr>"

definition demo_zero_timeout :: transportConfigFile where
  "demo_zero_timeout = empty_config\<lparr>tc_Camouflage := (tc_Camouflage empty_config)\<lparr>cf_HandshakeTimeout := go_str ''0s''\<rparr>\<rparr>"



end
