(* ===== verification/Noise_Msg.thy ===== *)
theory Noise_Msg
  imports Prelude
begin

text \<open>
  Messages and key derivation of the handshake (wireguard/device/noise-types.go,
  noise-helpers.go and the message part of noise-protocol.go; tai64n.go for the
  time stamps).  The packages golang.org/x/crypto/blake2s, chacha20poly1305 and
  curve25519 are the functions of the record noise_env; crypto/hmac is written
  out over them.  Keys and hashes are byte lists of 32 bytes.
\<close>

section \<open>Cryptographic environment\<close>

record noise_env =
  blake2s :: "byte list \<Rightarrow> byte list"
  blake2s_128 :: "byte list \<Rightarrow> byte list \<Rightarrow> byte list"
  ScalarMult :: "byte list \<Rightarrow> byte list \<Rightarrow> byte list"
  ScalarBaseMult :: "byte list \<Rightarrow> byte list"
  aead_Seal :: "byte list \<Rightarrow> byte list \<Rightarrow> byte list \<Rightarrow> byte list \<Rightarrow> byte list"
  aead_Open :: "byte list \<Rightarrow> byte list \<Rightarrow> byte list \<Rightarrow> byte list \<Rightarrow> byte list option"
  xaead_Seal :: "byte list \<Rightarrow> byte list \<Rightarrow> byte list \<Rightarrow> byte list \<Rightarrow> byte list"
  xaead_Open :: "byte list \<Rightarrow> byte list \<Rightarrow> byte list \<Rightarrow> byte list \<Rightarrow> byte list option"

text \<open>
  What the packages document: output sizes, the Diffie-Hellman property of
  X25519, and that an AEAD opens what it sealed under the same key, nonce and
  additional data.
\<close>

definition hash_sizes :: "noise_env \<Rightarrow> bool" where
  "hash_sizes E \<longleftrightarrow> (\<forall>m. length (blake2s E m) = 32) \<and> (\<forall>k m. length (blake2s_128 E k m) = 16)"

definition dh_agrees :: "noise_env \<Rightarrow> bool" where
  "dh_agrees E \<longleftrightarrow> (\<forall>a b. ScalarMult E a (ScalarBaseMult E b) = ScalarMult E b (ScalarBaseMult E a)) \<and>
     (\<forall>a. length (ScalarBaseMult E a) = 32)"

definition aead_ok :: "noise_env \<Rightarrow> bool" where
  "aead_ok E \<longleftrightarrow>
     (\<forall>k n p a. aead_Open E k n (aead_Seal E k n p a) a = Some p \<and> length (aead_Seal E k n p a) = length p + 16) \<and>
     (\<forall>k n p a. xaead_Open E k n (xaead_Seal E k n p a) a = Some p \<and> length (xaead_Seal E k n p a) = length p + 16)"

section \<open>Key derivation\<close>

text \<open>crypto/hmac over BLAKE2s, whose block size is 64 bytes.\<close>

definition hmac_pad :: "noise_env \<Rightarrow> byte list \<Rightarrow> byte list" where
  "hmac_pad E key =
     (let key = (if length key > 64 then blake2s E key else key)
      in key @ replicate (64 - length key) 0)"

definition hmac :: "noise_env \<Rightarrow> byte list \<Rightarrow> byte list \<Rightarrow> byte list" where
  "hmac E key data =
     (let k = hmac_pad E key
      in blake2s E (map (\<lambda>b. b XOR 0x5C) k @ blake2s E (map (\<lambda>b. b XOR 0x36) k @ data)))"

definition HMAC1 :: "noise_env \<Rightarrow> byte list \<Rightarrow> byte list \<Rightarrow> byte list" where
  "HMAC1 E key in0 = hmac E key in0"

definition HMAC2 :: "noise_env \<Rightarrow> byte list \<Rightarrow> byte list \<Rightarrow> byte list \<Rightarrow> byte list" where
  "HMAC2 E key in0 in1 = hmac E key (in0 @ in1)"

definition KDF1 :: "noise_env \<Rightarrow> byte list \<Rightarrow> byte list \<Rightarrow> byte list" where
  "KDF1 E key input = HMAC1 E (HMAC1 E key input) [1]"

definition KDF2 :: "noise_env \<Rightarrow> byte list \<Rightarrow> byte list \<Rightarrow> byte list \<times> byte list" where
  "KDF2 E key input =
     (let prk = HMAC1 E key input;
          t0 = HMAC1 E prk [1];
          t1 = HMAC2 E prk t0 [2]
      in (t0, t1))"

definition KDF3 :: "noise_env \<Rightarrow> byte list \<Rightarrow> byte list \<Rightarrow> byte list \<times> byte list \<times> byte list" where
  "KDF3 E key input =
     (let prk = HMAC1 E key input;
          t0 = HMAC1 E prk [1];
          t1 = HMAC2 E prk t0 [2];
          t2 = HMAC2 E prk t1 [3]
      in (t0, t1, t2))"

definition isZero :: "byte list \<Rightarrow> bool" where
  "isZero val = (foldl (\<lambda>acc b. acc AND (if b = 0 then 1 else 0)) (1 :: int) val = 1)"

definition zeros :: "nat \<Rightarrow> byte list" where
  "zeros n = replicate n 0"

definition setZero :: "byte list \<Rightarrow> byte list" where
  "setZero arr = map (\<lambda>_. 0) arr"

lemma isZero_eq: "isZero val \<longleftrightarrow> val = zeros (length val)"
proof -
  have "foldl (\<lambda>acc b. acc AND (if b = 0 then 1 else 0)) (0 :: int) val = 0" for val :: "byte list"
    by (induction val) simp_all
  then have "foldl (\<lambda>acc b. acc AND (if b = 0 then 1 else 0)) (1 :: int) val = 1 \<longleftrightarrow> val = zeros (length val)"
    by (induction val) (auto simp: zeros_def)
  then show ?thesis by (simp add: isZero_def)
qed

section \<open>Keys\<close>

definition NoisePublicKeySize :: nat where "NoisePublicKeySize = 32"
definition NoisePrivateKeySize :: nat where "NoisePrivateKeySize = 32"
definition NoisePresharedKeySize :: nat where "NoisePresharedKeySize = 32"

definition sk_clamp :: "byte list \<Rightarrow> byte list" where
  "sk_clamp sk =
     (let sk = sk[0 := (sk ! 0) AND 248]
      in sk[31 := ((sk ! 31) AND 127) OR 64])"

definition publicKey :: "noise_env \<Rightarrow> byte list \<Rightarrow> byte list" where
  "publicKey E sk = ScalarBaseMult E sk"

text \<open>sharedSecret; the error is errInvalidPublicKey, its result array is still returned.\<close>

definition sharedSecret :: "noise_env \<Rightarrow> byte list \<Rightarrow> byte list \<Rightarrow> byte list option" where
  "sharedSecret E sk pk = (let ss = ScalarMult E sk pk in if isZero ss then None else Some ss)"

section \<open>Time stamps\<close>

definition tai64n_base :: "64 word" where "tai64n_base = 0x400000000000000a"
definition whitenerMask :: "32 word" where "whitenerMask = 0x1000000 - 1"

text \<open>tai64n.stamp of a time given in seconds and nanoseconds.\<close>

definition stamp :: "int \<Rightarrow> nat \<Rightarrow> byte list" where
  "stamp secs nanos =
     be_put (tai64n_base + of_int secs) @ be_put ((of_nat nanos :: 32 word) AND NOT whitenerMask)"

text \<open>bytes.Compare(t1, t2) > 0.\<close>

fun bytes_after :: "byte list \<Rightarrow> byte list \<Rightarrow> bool" where
  "bytes_after (a # as) (b # bs) = (if a = b then bytes_after as bs else b < a)"
| "bytes_after (a # as) [] = True"
| "bytes_after [] bs = False"

definition ts_After :: "byte list \<Rightarrow> byte list \<Rightarrow> bool" where
  "ts_After t1 t2 = bytes_after t1 t2"

section \<open>Messages\<close>

definition le_put :: "'a::len word \<Rightarrow> byte list" where "le_put w = rev (be_put w)"
definition le_get :: "byte list \<Rightarrow> 'a::len word" where "le_get bs = be_get (rev bs)"

definition MessageInitiationType :: "32 word" where "MessageInitiationType = 1"
definition MessageResponseType :: "32 word" where "MessageResponseType = 2"
definition MessageCookieReplyType :: "32 word" where "MessageCookieReplyType = 3"
definition MessageTransportType :: "32 word" where "MessageTransportType = 4"

definition MessageInitiationSize :: nat where "MessageInitiationSize = 148"
definition MessageResponseSize :: nat where "MessageResponseSize = 92"
definition MessageCookieReplySize :: nat where "MessageCookieReplySize = 64"
definition MessageTransportHeaderSize :: nat where "MessageTransportHeaderSize = 16"
definition MessageTransportSize :: nat where "MessageTransportSize = MessageTransportHeaderSize + 16"
definition MessageKeepaliveSize :: nat where "MessageKeepaliveSize = MessageTransportSize"

record MessageInitiation =
  mi_Type :: "32 word"
  mi_Sender :: "32 word"
  mi_Ephemeral :: "byte list"
  mi_Static :: "byte list"
  mi_Timestamp :: "byte list"
  mi_MAC1 :: "byte list"
  mi_MAC2 :: "byte list"

record MessageResponse =
  mr_Type :: "32 word"
  mr_Sender :: "32 word"
  mr_Receiver :: "32 word"
  mr_Ephemeral :: "byte list"
  mr_Empty :: "byte list"
  mr_MAC1 :: "byte list"
  mr_MAC2 :: "byte list"

record MessageCookieReply =
  mc_Type :: "32 word"
  mc_Receiver :: "32 word"
  mc_Nonce :: "byte list"
  mc_Cookie :: "byte list"

definition slice :: "nat \<Rightarrow> nat \<Rightarrow> byte list \<Rightarrow> byte list" where
  "slice i n b = take n (drop i b)"

definition mi_unmarshal :: "byte list \<Rightarrow> MessageInitiation option" where
  "mi_unmarshal b =
     (if length b \<noteq> MessageInitiationSize then None
      else Some \<lparr>mi_Type = le_get (slice 0 4 b), mi_Sender = le_get (slice 4 4 b), mi_Ephemeral = slice 8 32 b,
                 mi_Static = slice (8 + 32) 48 b, mi_Timestamp = slice (8 + 32 + 48) 28 b,
                 mi_MAC1 = slice (8 + 32 + 48 + 28) 16 b, mi_MAC2 = slice (8 + 32 + 48 + 28 + 16) 16 b\<rparr>)"

definition mi_marshal :: "MessageInitiation \<Rightarrow> byte list \<Rightarrow> byte list option" where
  "mi_marshal msg b =
     (if length b \<noteq> MessageInitiationSize then None
      else Some (copy_at (8 + 32 + 48 + 28 + 16) (mi_MAC2 msg) (copy_at (8 + 32 + 48 + 28) (mi_MAC1 msg)
                (copy_at (8 + 32 + 48) (mi_Timestamp msg) (copy_at (8 + 32) (mi_Static msg)
                (copy_at 8 (mi_Ephemeral msg) (copy_at 4 (le_put (mi_Sender msg)) (copy_at 0 (le_put (mi_Type msg)) b))))))))"

definition mr_unmarshal :: "byte list \<Rightarrow> MessageResponse option" where
  "mr_unmarshal b =
     (if length b \<noteq> MessageResponseSize then None
      else Some \<lparr>mr_Type = le_get (slice 0 4 b), mr_Sender = le_get (slice 4 4 b), mr_Receiver = le_get (slice 8 4 b),
                 mr_Ephemeral = slice 12 32 b, mr_Empty = slice (12 + 32) 16 b,
                 mr_MAC1 = slice (12 + 32 + 16) 16 b, mr_MAC2 = slice (12 + 32 + 16 + 16) 16 b\<rparr>)"

definition mr_marshal :: "MessageResponse \<Rightarrow> byte list \<Rightarrow> byte list option" where
  "mr_marshal msg b =
     (if length b \<noteq> MessageResponseSize then None
      else Some (copy_at (12 + 32 + 16 + 16) (mr_MAC2 msg) (copy_at (12 + 32 + 16) (mr_MAC1 msg)
                (copy_at (12 + 32) (mr_Empty msg) (copy_at 12 (mr_Ephemeral msg)
                (copy_at 8 (le_put (mr_Receiver msg)) (copy_at 4 (le_put (mr_Sender msg))
                (copy_at 0 (le_put (mr_Type msg)) b))))))))"

definition mc_unmarshal :: "byte list \<Rightarrow> MessageCookieReply option" where
  "mc_unmarshal b =
     (if length b \<noteq> MessageCookieReplySize then None
      else Some \<lparr>mc_Type = le_get (slice 0 4 b), mc_Receiver = le_get (slice 4 4 b),
                 mc_Nonce = slice 8 24 b, mc_Cookie = slice (8 + 24) 32 b\<rparr>)"

definition mc_marshal :: "MessageCookieReply \<Rightarrow> byte list \<Rightarrow> byte list option" where
  "mc_marshal msg b =
     (if length b \<noteq> MessageCookieReplySize then None
      else Some (copy_at (8 + 24) (mc_Cookie msg) (copy_at 8 (mc_Nonce msg)
                (copy_at 4 (le_put (mc_Receiver msg)) (copy_at 0 (le_put (mc_Type msg)) b)))))"

text \<open>The array sizes of the message types.\<close>

definition mi_sized :: "MessageInitiation \<Rightarrow> bool" where
  "mi_sized m \<longleftrightarrow> length (mi_Ephemeral m) = 32 \<and> length (mi_Static m) = 48 \<and> length (mi_Timestamp m) = 28 \<and>
     length (mi_MAC1 m) = 16 \<and> length (mi_MAC2 m) = 16"

definition mr_sized :: "MessageResponse \<Rightarrow> bool" where
  "mr_sized m \<longleftrightarrow> length (mr_Ephemeral m) = 32 \<and> length (mr_Empty m) = 16 \<and>
     length (mr_MAC1 m) = 16 \<and> length (mr_MAC2 m) = 16"

definition mc_sized :: "MessageCookieReply \<Rightarrow> bool" where
  "mc_sized m \<longleftrightarrow> length (mc_Nonce m) = 24 \<and> length (mc_Cookie m) = 32"

lemma le_get_put_sizes [simp]: "le_get (le_put (c :: 32 word)) = c" "le_get (le_put (d :: 64 word)) = d"
  by (simp_all add: le_get_def le_put_def)

lemma length_le_put [simp]: "length (le_put (w :: 'a::len word)) = LENGTH('a) div 8"
  by (simp add: le_put_def)

text \<open>The bytes of a marshalled message, field by field.\<close>

lemma mi_marshal_bytes:
  "\<lbrakk>mi_sized m; length b = 148\<rbrakk> \<Longrightarrow>
   mi_marshal m b = Some (le_put (mi_Type m) @ le_put (mi_Sender m) @ mi_Ephemeral m @ mi_Static m @
     mi_Timestamp m @ mi_MAC1 m @ mi_MAC2 m)"
  by (simp add: mi_marshal_def MessageInitiationSize_def mi_sized_def copy_at_def)

lemma mr_marshal_bytes:
  "\<lbrakk>mr_sized m; length b = 92\<rbrakk> \<Longrightarrow>
   mr_marshal m b = Some (le_put (mr_Type m) @ le_put (mr_Sender m) @ le_put (mr_Receiver m) @ mr_Ephemeral m @
     mr_Empty m @ mr_MAC1 m @ mr_MAC2 m)"
  by (simp add: mr_marshal_def MessageResponseSize_def mr_sized_def copy_at_def)

lemma mc_marshal_bytes:
  "\<lbrakk>mc_sized m; length b = 64\<rbrakk> \<Longrightarrow>
   mc_marshal m b = Some (le_put (mc_Type m) @ le_put (mc_Receiver m) @ mc_Nonce m @ mc_Cookie m)"
  by (simp add: mc_marshal_def MessageCookieReplySize_def mc_sized_def copy_at_def)

lemma mi_unmarshal_bytes:
  "mi_sized m \<Longrightarrow> mi_unmarshal (le_put (mi_Type m) @ le_put (mi_Sender m) @ mi_Ephemeral m @ mi_Static m @
     mi_Timestamp m @ mi_MAC1 m @ mi_MAC2 m) = Some m"
  by (cases m) (simp add: mi_unmarshal_def MessageInitiationSize_def mi_sized_def slice_def)

lemma mr_unmarshal_bytes:
  "mr_sized m \<Longrightarrow> mr_unmarshal (le_put (mr_Type m) @ le_put (mr_Sender m) @ le_put (mr_Receiver m) @ mr_Ephemeral m @
     mr_Empty m @ mr_MAC1 m @ mr_MAC2 m) = Some m"
  by (cases m) (simp add: mr_unmarshal_def MessageResponseSize_def mr_sized_def slice_def)

lemma mc_unmarshal_bytes:
  "mc_sized m \<Longrightarrow> mc_unmarshal (le_put (mc_Type m) @ le_put (mc_Receiver m) @ mc_Nonce m @ mc_Cookie m) = Some m"
  by (cases m) (simp add: mc_unmarshal_def MessageCookieReplySize_def mc_sized_def slice_def)

lemma unmarshal_sized:
  "mi_unmarshal b = Some m \<Longrightarrow> mi_sized m" "mr_unmarshal b = Some r \<Longrightarrow> mr_sized r" "mc_unmarshal b = Some c \<Longrightarrow> mc_sized c"
  by (auto simp: mi_unmarshal_def MessageInitiationSize_def mi_sized_def slice_def mr_unmarshal_def
      MessageResponseSize_def mr_sized_def mc_unmarshal_def MessageCookieReplySize_def mc_sized_def split: if_splits)

lemma le_put_get4: "length bs = 4 \<Longrightarrow> le_put (le_get bs :: 32 word) = bs"
  by (simp add: le_put_def le_get_def)

lemma slice_split: "i + n \<le> length b \<Longrightarrow> drop i b = slice i n b @ drop (i + n) b"
  using append_take_drop_id [of n "drop i b"] by (simp add: slice_def add.commute)

lemma slices_join:
  "length b = 148 \<Longrightarrow> slice 0 4 b @ slice 4 4 b @ slice 8 32 b @ slice 40 48 b @ slice 88 28 b @
     slice 116 16 b @ slice 132 16 b = b"
  "length b = 92 \<Longrightarrow> slice 0 4 b @ slice 4 4 b @ slice 8 4 b @ slice 12 32 b @ slice 44 16 b @
     slice 60 16 b @ slice 76 16 b = b"
  "length b = 64 \<Longrightarrow> slice 0 4 b @ slice 4 4 b @ slice 8 24 b @ slice 32 32 b = b"
  using slice_split [of 0 4 b] slice_split [of 4 4 b] slice_split [of 8 32 b] slice_split [of 40 48 b]
    slice_split [of 88 28 b] slice_split [of 116 16 b] slice_split [of 132 16 b]
    slice_split [of 8 4 b] slice_split [of 12 32 b] slice_split [of 44 16 b] slice_split [of 60 16 b]
    slice_split [of 76 16 b] slice_split [of 8 24 b] slice_split [of 32 32 b]
  by simp_all

lemma length_slice: "i + n \<le> length b \<Longrightarrow> length (slice i n b) = n"
  by (simp add: slice_def)

text \<open>
  C38. Marshalling into a buffer of the message's size and unmarshalling give the
  message back, for each of the three fixed-size messages; unmarshalling
  succeeds exactly on buffers of that size, and marshalling what was unmarshalled
  restores the bytes.
\<close>

theorem noise_messages_roundtrip:
  "(mi_sized m \<and> length b = 148 \<longrightarrow> (\<exists>p. mi_marshal m b = Some p \<and> mi_unmarshal p = Some m)) \<and>
   (mr_sized r \<and> length b = 92 \<longrightarrow> (\<exists>p. mr_marshal r b = Some p \<and> mr_unmarshal p = Some r)) \<and>
   (mc_sized c \<and> length b = 64 \<longrightarrow> (\<exists>p. mc_marshal c b = Some p \<and> mc_unmarshal p = Some c)) \<and>
   (length b = 148 \<longleftrightarrow> (\<exists>m. mi_unmarshal b = Some m \<and> mi_marshal m b = Some b)) \<and>
   (length b = 92 \<longleftrightarrow> (\<exists>r. mr_unmarshal b = Some r \<and> mr_marshal r b = Some b)) \<and>
   (length b = 64 \<longleftrightarrow> (\<exists>c. mc_unmarshal b = Some c \<and> mc_marshal c b = Some b))"
proof -
  have "length b = 148 \<longleftrightarrow> (\<exists>m. mi_unmarshal b = Some m \<and> mi_marshal m b = Some b)"
  proof (cases "length b = 148")
    case True
    then obtain m where m: "mi_unmarshal b = Some m" by (simp add: mi_unmarshal_def MessageInitiationSize_def)
    with True show ?thesis
      using mi_marshal_bytes [OF unmarshal_sized(1) [OF m] True] slices_join(1) [OF True]
      by (auto simp: mi_unmarshal_def MessageInitiationSize_def le_put_get4 length_slice)
  qed (simp add: mi_unmarshal_def MessageInitiationSize_def)
  moreover have "length b = 92 \<longleftrightarrow> (\<exists>m. mr_unmarshal b = Some m \<and> mr_marshal m b = Some b)"
  proof (cases "length b = 92")
    case True
    then obtain m where m: "mr_unmarshal b = Some m" by (simp add: mr_unmarshal_def MessageResponseSize_def)
    with True show ?thesis
      using mr_marshal_bytes [OF unmarshal_sized(2) [OF m] True] slices_join(2) [OF True]
      by (auto simp: mr_unmarshal_def MessageResponseSize_def le_put_get4 length_slice)
  qed (simp add: mr_unmarshal_def MessageResponseSize_def)
  moreover have "length b = 64 \<longleftrightarrow> (\<exists>m. mc_unmarshal b = Some m \<and> mc_marshal m b = Some b)"
  proof (cases "length b = 64")
    case True
    then obtain m where m: "mc_unmarshal b = Some m" by (simp add: mc_unmarshal_def MessageCookieReplySize_def)
    with True show ?thesis
      using mc_marshal_bytes [OF unmarshal_sized(3) [OF m] True] slices_join(3) [OF True]
      by (auto simp: mc_unmarshal_def MessageCookieReplySize_def le_put_get4 length_slice)
  qed (simp add: mc_unmarshal_def MessageCookieReplySize_def)
  ultimately show ?thesis
    using mi_marshal_bytes [of m b] mi_unmarshal_bytes [of m] mr_marshal_bytes [of r b] mr_unmarshal_bytes [of r]
      mc_marshal_bytes [of c b] mc_unmarshal_bytes [of c] by metis
qed

theorem noise_messages_roundtrip_witness:
  "\<exists>m b p. mi_marshal m b = Some p \<and> mi_unmarshal p = Some m \<and> mi_Sender m = 7"
proof -
  let ?m = "\<lparr>mi_Type = 1, mi_Sender = 7, mi_Ephemeral = zeros 32, mi_Static = zeros 48, mi_Timestamp = zeros 28,
    mi_MAC1 = zeros 16, mi_MAC2 = zeros 16\<rparr>"
  have "mi_sized ?m \<and> length (zeros 148) = 148" by (simp add: mi_sized_def zeros_def)
  then show ?thesis using noise_messages_roundtrip [of ?m "zeros 148"] by (metis MessageInitiation.select_convs(2))
qed

section \<open>Order of time stamps\<close>

lemma bytes_after_irrefl: "\<not> bytes_after a a"
  by (induction a) simp_all

lemma bytes_after_trans: "\<lbrakk>bytes_after a b; bytes_after b c\<rbrakk> \<Longrightarrow> bytes_after a c"
proof (induction a b arbitrary: c rule: bytes_after.induct)
  case (1 x as y bs)
  then show ?case by (cases c) (auto split: if_splits)
next
  case (2 x as)
  then show ?case by (cases c) auto
qed simp

lemma bytes_after_total: "bytes_after a b \<or> bytes_after b a \<or> a = b"
  by (induction a b rule: bytes_after.induct) (auto, metis bytes_after.simps(2) neq_Nil_conv)

lemma bytes_after_nat:
  "length a = length b \<Longrightarrow> bytes_after a b \<longleftrightarrow> bytes_to_nat b < bytes_to_nat a"
proof (induction a b rule: list_induct2)
  case (Cons x xs y ys)
  have step: "bytes_to_nat (z # zs) = unat z * 256 ^ length zs + bytes_to_nat zs" for z :: byte and zs
    by (induction zs rule: rev_induct) (simp_all add: bytes_to_nat_def algebra_simps)
  show ?case
  proof (cases "x = y")
    case True
    then show ?thesis using Cons by (simp add: step)
  next
    case False
    have "z < w \<Longrightarrow> length zs = length ws \<Longrightarrow> bytes_to_nat (z # zs) < bytes_to_nat (w # ws)" for z w :: byte and zs ws
    proof -
      assume zw: "z < w" "length zs = length ws"
      then have "Suc (unat z) * 256 ^ length ws \<le> unat w * 256 ^ length ws"
        by (intro mult_le_mono1) (simp add: word_less_nat_alt)
      then show ?thesis using bytes_to_nat_bound [of zs] zw(2) by (simp add: step)
    qed
    then show ?thesis using False Cons.hyps by (metis bytes_after.simps(1) linorder_neqE not_less_iff_gr_or_eq)
  qed
qed (simp add: bytes_to_nat_def)

end
