(* ===== verification/Cookie.thy ===== *)
theory Cookie
  imports Noise_Msg
begin

text \<open>
  Cookies (wireguard/device/cookie.go): the two MAC fields of handshake messages,
  the encrypted cookie replies of a loaded responder, and the generator that
  remembers a cookie.  A time.Time that may be the zero time is an option of
  nanoseconds; the message buffers have the fixed sizes of handshake messages.
\<close>

section \<open>Randomness and times\<close>

text \<open>crypto/rand.Read from a tape of bytes; an exhausted tape is its error.\<close>

definition rand_bytes :: "nat \<Rightarrow> byte list \<Rightarrow> (byte list \<times> byte list) option" where
  "rand_bytes n tape = (if length tape < n then None else Some (take n tape, drop n tape))"

text \<open>time.Since of a time that may be zero exceeds every protocol interval.\<close>

definition since_exceeds :: "int option \<Rightarrow> int \<Rightarrow> int \<Rightarrow> bool" where
  "since_exceeds t now d = (case t of None \<Rightarrow> True | Some t \<Rightarrow> now - t > d)"

definition CookieRefreshTime :: int where "CookieRefreshTime = 120 * 1000000000"

definition WGLabelMAC1 :: "byte list" where "WGLabelMAC1 = go_str ''mac1----''"
definition WGLabelCookie :: "byte list" where "WGLabelCookie = go_str ''cookie--''"

section \<open>The checker\<close>

record CookieChecker =
  cc_mac1_key :: "byte list"
  cc_secret :: "byte list"
  cc_secretSet :: "int option"
  cc_encryptionKey :: "byte list"

record CookieGenerator =
  cg_mac1_key :: "byte list"
  cg_cookie :: "byte list"
  cg_cookieSet :: "int option"
  cg_hasLastMAC1 :: bool
  cg_lastMAC1 :: "byte list"
  cg_encryptionKey :: "byte list"

definition CookieChecker_Init :: "noise_env \<Rightarrow> byte list \<Rightarrow> CookieChecker \<Rightarrow> CookieChecker" where
  "CookieChecker_Init E pk st =
     st\<lparr>cc_mac1_key := blake2s E (WGLabelMAC1 @ pk), cc_encryptionKey := blake2s E (WGLabelCookie @ pk),
        cc_secretSet := None\<rparr>"

definition smac2 :: "byte list \<Rightarrow> nat" where "smac2 msg = length msg - 16"
definition smac1 :: "byte list \<Rightarrow> nat" where "smac1 msg = smac2 msg - 16"

definition CheckMAC1 :: "noise_env \<Rightarrow> byte list \<Rightarrow> CookieChecker \<Rightarrow> bool" where
  "CheckMAC1 E msg st =
     (blake2s_128 E (cc_mac1_key st) (take (smac1 msg) msg) = slice (smac1 msg) 16 msg)"

definition CheckMAC2 :: "noise_env \<Rightarrow> byte list \<Rightarrow> byte list \<Rightarrow> int \<Rightarrow> CookieChecker \<Rightarrow> bool" where
  "CheckMAC2 E msg src now st =
     (if since_exceeds (cc_secretSet st) now CookieRefreshTime then False
      else let cookie = blake2s_128 E (cc_secret st) src
           in blake2s_128 E cookie (take (smac2 msg) msg) = drop (smac2 msg) msg)"

definition CreateReply :: "noise_env \<Rightarrow> byte list \<Rightarrow> 32 word \<Rightarrow> byte list \<Rightarrow> int \<Rightarrow> byte list \<Rightarrow> CookieChecker \<Rightarrow>
    MessageCookieReply option \<times> byte list \<times> CookieChecker" where
  "CreateReply E msg recv src now tape st =
     (case (if since_exceeds (cc_secretSet st) now CookieRefreshTime
            then map_option (\<lambda>(secret, tape). (tape, st\<lparr>cc_secret := secret, cc_secretSet := Some now\<rparr>)) (rand_bytes 32 tape)
            else Some (tape, st)) of
        None \<Rightarrow> (None, tape, st)
      | Some (tape, st) \<Rightarrow>
          (let cookie = blake2s_128 E (cc_secret st) src in
           case rand_bytes 24 tape of
             None \<Rightarrow> (None, tape, st)
           | Some (nonce, tape) \<Rightarrow>
               (Some \<lparr>mc_Type = MessageCookieReplyType, mc_Receiver = recv, mc_Nonce = nonce,
                      mc_Cookie = xaead_Seal E (cc_encryptionKey st) nonce cookie (slice (smac1 msg) 16 msg)\<rparr>,
                tape, st)))"

section \<open>The generator\<close>

definition CookieGenerator_Init :: "noise_env \<Rightarrow> byte list \<Rightarrow> CookieGenerator \<Rightarrow> CookieGenerator" where
  "CookieGenerator_Init E pk st =
     st\<lparr>cg_mac1_key := blake2s E (WGLabelMAC1 @ pk), cg_encryptionKey := blake2s E (WGLabelCookie @ pk),
        cg_cookieSet := None\<rparr>"

definition ConsumeReply :: "noise_env \<Rightarrow> MessageCookieReply \<Rightarrow> int \<Rightarrow> CookieGenerator \<Rightarrow> bool \<times> CookieGenerator" where
  "ConsumeReply E msg now st =
     (if \<not> cg_hasLastMAC1 st then (False, st)
      else case xaead_Open E (cg_encryptionKey st) (mc_Nonce msg) (mc_Cookie msg) (cg_lastMAC1 st) of
        None \<Rightarrow> (False, st)
      | Some cookie \<Rightarrow> (True, st\<lparr>cg_cookieSet := Some now, cg_cookie := cookie\<rparr>))"

definition AddMacs :: "noise_env \<Rightarrow> byte list \<Rightarrow> int \<Rightarrow> CookieGenerator \<Rightarrow> byte list \<times> CookieGenerator" where
  "AddMacs E msg now st =
     (let mac1 = blake2s_128 E (cg_mac1_key st) (take (smac1 msg) msg);
          msg = copy_at (smac1 msg) mac1 msg;
          st = st\<lparr>cg_lastMAC1 := mac1, cg_hasLastMAC1 := True\<rparr>
      in if since_exceeds (cg_cookieSet st) now CookieRefreshTime then (msg, st)
         else (copy_at (smac2 msg) (blake2s_128 E (cg_cookie st) (take (smac2 msg) msg)) msg, st))"

definition CookieChecker0 :: CookieChecker where
  "CookieChecker0 = \<lparr>cc_mac1_key = zeros 32, cc_secret = zeros 32, cc_secretSet = None, cc_encryptionKey = zeros 32\<rparr>"

definition CookieGenerator0 :: CookieGenerator where
  "CookieGenerator0 = \<lparr>cg_mac1_key = zeros 32, cg_cookie = zeros 16, cg_cookieSet = None, cg_hasLastMAC1 = False,
     cg_lastMAC1 = zeros 16, cg_encryptionKey = zeros 32\<rparr>"

section \<open>Correctness\<close>

text \<open>A generator made for the key of a checker.\<close>

definition paired :: "CookieGenerator \<Rightarrow> CookieChecker \<Rightarrow> bool" where
  "paired g c \<longleftrightarrow> cg_mac1_key g = cc_mac1_key c \<and> cg_encryptionKey g = cc_encryptionKey c"

lemma paired_Init: "paired (CookieGenerator_Init E pk g) (CookieChecker_Init E pk c)"
  by (simp add: paired_def CookieGenerator_Init_def CookieChecker_Init_def)

lemma AddMacs_shape:
  assumes "hash_sizes E" "32 \<le> length msg" "AddMacs E msg now g = (msg', g')"
  defines "body \<equiv> take (smac1 msg) msg"
  defines "mac1 \<equiv> blake2s_128 E (cg_mac1_key g) body"
  shows "msg' = body @ mac1 @ (if since_exceeds (cg_cookieSet g) now CookieRefreshTime then drop (smac2 msg) msg
      else blake2s_128 E (cg_cookie g) (body @ mac1)) \<and>
    g' = g\<lparr>cg_lastMAC1 := mac1, cg_hasLastMAC1 := True\<rparr> \<and> length msg' = length msg"
proof -
  have len: "length mac1 = 16" "length body = length msg - 32" "length (blake2s_128 E (cg_cookie g) (body @ mac1)) = 16"
    using assms(1,2) by (simp_all add: mac1_def body_def hash_sizes_def smac1_def smac2_def)
  have c: "copy_at (smac1 msg) mac1 msg = body @ mac1 @ drop (smac2 msg) msg"
    using assms(2) len by (simp add: copy_at_def body_def smac1_def smac2_def)
  have s2: "smac2 (body @ mac1 @ drop (smac2 msg) msg) = length msg - 16"
    using assms(2) len by (simp add: smac2_def)
  have t: "take (length msg - 16) (body @ mac1 @ drop (smac2 msg) msg) = body @ mac1"
    using assms(2) len by simp
  have c2: "copy_at (length msg - 16) x (body @ mac1 @ drop (smac2 msg) msg) = body @ mac1 @ x" if "length x = 16" for x
    using assms(2) len that by (simp add: copy_at_def smac2_def)
  show ?thesis
  proof (cases "since_exceeds (cg_cookieSet g) now CookieRefreshTime")
    case True
    then have "msg' = body @ mac1 @ drop (smac2 msg) msg" "g' = g\<lparr>cg_lastMAC1 := mac1, cg_hasLastMAC1 := True\<rparr>"
      using assms(3) c by (simp_all add: AddMacs_def Let_def mac1_def [symmetric] body_def [symmetric])
    then show ?thesis using True assms(2) len by (simp add: smac2_def)
  next
    case False
    then have "msg' = body @ mac1 @ blake2s_128 E (cg_cookie g) (body @ mac1)"
      "g' = g\<lparr>cg_lastMAC1 := mac1, cg_hasLastMAC1 := True\<rparr>"
      using assms(3) c s2 t c2 [OF len(3)]
      by (simp_all add: AddMacs_def Let_def mac1_def [symmetric] body_def [symmetric])
    then show ?thesis using False assms(2) len by simp
  qed
qed

lemma AddMacs_CheckMAC1:
  assumes "hash_sizes E" "32 \<le> length msg" "AddMacs E msg now g = (msg', g')" "paired g c"
  shows "CheckMAC1 E msg' c \<and> slice (smac1 msg') 16 msg' = cg_lastMAC1 g' \<and> cg_hasLastMAC1 g'"
proof -
  let ?body = "take (smac1 msg) msg"
  let ?mac1 = "blake2s_128 E (cg_mac1_key g) ?body"
  note s = AddMacs_shape [OF assms(1-3)]
  then obtain rest where m: "msg' = ?body @ ?mac1 @ rest" by auto
  have l: "length ?body = length msg - 32" "length ?mac1 = 16" "smac1 msg' = length msg - 32"
    using assms(1,2) s by (auto simp: hash_sizes_def smac1_def smac2_def)
  have "take (length msg - 32) msg' = ?body" "slice (length msg - 32) 16 msg' = ?mac1"
    using l(1,2) unfolding m slice_def by (simp_all add: smac1_def smac2_def)
  then have "take (smac1 msg') msg' = ?body" "slice (smac1 msg') 16 msg' = ?mac1" unfolding l(3) by simp_all
  then show ?thesis using assms(4) s by (simp add: CheckMAC1_def paired_def)
qed

lemma AddMacs_CheckMAC2:
  assumes "hash_sizes E" "32 \<le> length msg" "AddMacs E msg now g = (msg', g')"
    "\<not> since_exceeds (cg_cookieSet g) now CookieRefreshTime" "\<not> since_exceeds (cc_secretSet c) t CookieRefreshTime"
    "cg_cookie g = blake2s_128 E (cc_secret c) src"
  shows "CheckMAC2 E msg' src t c"
proof -
  let ?body = "take (smac1 msg) msg"
  let ?mac1 = "blake2s_128 E (cg_mac1_key g) ?body"
  have m: "msg' = ?body @ ?mac1 @ blake2s_128 E (cg_cookie g) (?body @ ?mac1)" "length msg' = length msg"
    using AddMacs_shape [OF assms(1-3)] assms(4) by auto
  have "length ?body = length msg - 32" "length ?mac1 = 16"
    using assms(1,2) by (simp_all add: hash_sizes_def smac1_def smac2_def)
  then have "take (smac2 msg') msg' = ?body @ ?mac1" "drop (smac2 msg') msg' = blake2s_128 E (cg_cookie g) (?body @ ?mac1)"
    using m(2) assms(2) by (simp_all add: smac2_def m(1))
  then show ?thesis using assms(5,6) by (simp add: CheckMAC2_def Let_def)
qed

lemma CreateReply_cases:
  assumes "CreateReply E msg recv src now tape c = (Some reply, tape', c')"
  shows "\<not> since_exceeds (cc_secretSet c') now CookieRefreshTime \<and>
    mc_Cookie reply = xaead_Seal E (cc_encryptionKey c) (mc_Nonce reply) (blake2s_128 E (cc_secret c') src) (slice (smac1 msg) 16 msg) \<and>
    cc_encryptionKey c' = cc_encryptionKey c \<and> cc_mac1_key c' = cc_mac1_key c \<and> mc_Receiver reply = recv"
  using assms
  by (auto simp: CreateReply_def Let_def since_exceeds_def CookieRefreshTime_def
      split: if_splits option.splits prod.splits)

text \<open>
  C39. The cookie exchange works between a checker and a generator for its key:
  every message the generator stamps passes the first check; a reply to that
  message is accepted, and from then on, while the cookie and the secret are
  fresh, whatever the generator stamps passes the second check for the same
  source.  A checker whose secret is stale accepts no second MAC, and a generator
  that has stamped nothing accepts no reply.
\<close>

theorem cookie_exchange:
  assumes E: "hash_sizes E" "aead_ok E" and g: "paired g c" "32 \<le> length msg" "AddMacs E msg t0 g = (msg1, g1)"
    and r: "CreateReply E msg1 recv src t1 tape c = (Some reply, tape', c1)"
    and msg2: "32 \<le> length msg2" and t: "t2 - t1' \<le> CookieRefreshTime" "t3 - ts \<le> CookieRefreshTime"
    and s: "cc_secretSet c1 = Some ts"
  shows "CheckMAC1 E msg1 c \<and>
    (\<exists>g2. ConsumeReply E reply t1' g1 = (True, g2) \<and>
       (\<forall>m g3. AddMacs E msg2 t2 g2 = (m, g3) \<longrightarrow> CheckMAC1 E m c1 \<and> CheckMAC2 E m src t3 c1)) \<and>
    \<not> CheckMAC2 E m' src' (ts + CookieRefreshTime + 1) c1 \<and>
    fst (ConsumeReply E reply t1' CookieGenerator0) = False"
proof -
  note m1 = AddMacs_CheckMAC1 [OF E(1) g(2,3,1)]
  note c1 = CreateReply_cases [OF r]
  have g1: "paired g1 c" using g(1) AddMacs_shape [OF E(1) g(2,3)] by (simp add: paired_def)
  let ?g2 = "g1\<lparr>cg_cookieSet := Some t1', cg_cookie := blake2s_128 E (cc_secret c1) src\<rparr>"
  have "ConsumeReply E reply t1' g1 = (True, ?g2)"
    using m1 c1 g1 E(2) by (simp add: ConsumeReply_def aead_ok_def paired_def)
  moreover have "CheckMAC1 E m c1 \<and> CheckMAC2 E m src t3 c1" if m: "AddMacs E msg2 t2 ?g2 = (m, g3)" for m g3
  proof
    show "CheckMAC1 E m c1"
      by (rule AddMacs_CheckMAC1 [OF E(1) msg2 m, THEN conjunct1]) (use g1 c1 in \<open>simp add: paired_def\<close>)
    show "CheckMAC2 E m src t3 c1"
      by (rule AddMacs_CheckMAC2 [OF E(1) msg2 m]) (use s t in \<open>simp_all add: since_exceeds_def\<close>)
  qed
  moreover have "\<not> CheckMAC2 E m' src' (ts + CookieRefreshTime + 1) c1"
    using s by (simp add: CheckMAC2_def since_exceeds_def)
  ultimately show ?thesis using m1 by (auto simp: ConsumeReply_def CookieGenerator0_def)
qed

text \<open>A toy environment in which the documented properties hold.\<close>

definition fit :: "nat \<Rightarrow> byte list \<Rightarrow> byte list" where
  "fit n xs = take n (xs @ zeros n)"

definition demo_noise :: noise_env where
  "demo_noise = \<lparr>blake2s = fit 32, blake2s_128 = (\<lambda>k m. fit 16 (k @ m)),
     ScalarMult = (\<lambda>a p. map2 (+) (fit 32 a) (fit 32 p)), ScalarBaseMult = fit 32,
     aead_Seal = (\<lambda>k n p a. fit 16 k @ p),
     aead_Open = (\<lambda>k n c a. if take 16 c = fit 16 k then Some (drop 16 c) else None),
     xaead_Seal = (\<lambda>k n p a. fit 16 a @ p),
     xaead_Open = (\<lambda>k n c a. if take 16 c = fit 16 a then Some (drop 16 c) else None)\<rparr>"

lemma length_fit [simp]: "length (fit n xs) = n"
  by (simp add: fit_def zeros_def)

lemma fit_fit [simp]: "fit n (fit n xs) = fit n xs"
  using length_fit [of n xs] by (simp add: fit_def [of n "fit n xs"])

lemma demo_noise_ok: "hash_sizes demo_noise" "aead_ok demo_noise" "dh_agrees demo_noise"
proof -
  have "map2 (+) x y = map2 (+) y x" for x y :: "byte list"
    by (induction x y rule: list_induct2') (simp_all add: add.commute)
  then show "dh_agrees demo_noise" by (simp add: dh_agrees_def demo_noise_def)
qed (simp_all add: hash_sizes_def aead_ok_def demo_noise_def)

theorem cookie_exchange_witness:
  "\<exists>g c msg1 g1 reply g2. AddMacs demo_noise (zeros 148) 0 g = (msg1, g1) \<and> CheckMAC1 demo_noise msg1 c \<and>
     ConsumeReply demo_noise reply 2 g1 = (True, g2)"
proof -
  let ?g = "CookieGenerator_Init demo_noise (zeros 32) CookieGenerator0"
  let ?c = "CookieChecker_Init demo_noise (zeros 32) CookieChecker0"
  obtain msg1 g1 where a: "AddMacs demo_noise (zeros 148) 0 ?g = (msg1, g1)" by fastforce
  have "\<exists>reply tape' c1. CreateReply demo_noise msg1 5 [1] 1 (zeros 56) ?c = (Some reply, tape', c1) \<and> cc_secretSet c1 = Some 1"
    by (simp add: CreateReply_def CookieChecker_Init_def since_exceeds_def rand_bytes_def zeros_def Let_def)
  then obtain reply tape' c1 where r: "CreateReply demo_noise msg1 5 [1] 1 (zeros 56) ?c = (Some reply, tape', c1)"
    "cc_secretSet c1 = Some 1" by blast
  have "32 \<le> length (zeros 148)" by (simp add: zeros_def)
  then have "CheckMAC1 demo_noise msg1 ?c" "\<exists>g2. ConsumeReply demo_noise reply 2 g1 = (True, g2)"
    using cookie_exchange [OF demo_noise_ok(1,2) paired_Init _ a r(1) _ _ _ r(2), of "zeros 148" 2 2 2 "[]" "[]"]
    by (auto simp: CookieRefreshTime_def)
  with a show ?thesis by blast
qed

end
