(* ===== verification/Ratelimiter.thy ===== *)
theory Ratelimiter
  imports Netip "HOL-Library.AList"
begin

text \<open>
  The handshake rate limiter (wireguard/utils/ratelimiter/ratelimiter.go): a
  token bucket per address with a collector that forgets idle addresses.  Times
  are nanoseconds of the monotonic clock; the goroutine that ticks is the event
  that calls cleanup.
\<close>

section \<open>The limiter\<close>

definition packetsPerSecond :: int where "packetsPerSecond = 20"
definition packetsBurstable :: int where "packetsBurstable = 5"
definition garbageCollectTime :: int where "garbageCollectTime = 1000000000"
definition packetCost :: int where "packetCost = 1000000000 div packetsPerSecond"
definition maxTokens :: int where "maxTokens = packetCost * packetsBurstable"

record RatelimiterEntry =
  rl_lastTime :: int
  rl_tokens :: int

type_synonym rl_table = "(Addr \<times> RatelimiterEntry) list"

definition Ratelimiter_Init :: rl_table where
  "Ratelimiter_Init = []"

definition rl_cleanup :: "int \<Rightarrow> rl_table \<Rightarrow> bool \<times> rl_table" where
  "rl_cleanup now table =
     (let table = filter (\<lambda>(key, entry). \<not> now - rl_lastTime entry > garbageCollectTime) table
      in (table = [], table))"

definition Allow :: "Addr \<Rightarrow> int \<Rightarrow> rl_table \<Rightarrow> bool \<times> rl_table" where
  "Allow ip now table =
     (case map_of table ip of
        None \<Rightarrow> (True, AList.update ip \<lparr>rl_lastTime = now, rl_tokens = maxTokens - packetCost\<rparr> table)
      | Some entry \<Rightarrow>
          (let tokens = rl_tokens entry + (now - rl_lastTime entry);
               tokens = (if tokens > maxTokens then maxTokens else tokens)
           in if tokens > packetCost
              then (True, AList.update ip \<lparr>rl_lastTime = now, rl_tokens = tokens - packetCost\<rparr> table)
              else (False, AList.update ip \<lparr>rl_lastTime = now, rl_tokens = tokens\<rparr> table)))"

datatype rl_event = RlAllow Addr int | RlCleanup int

fun rl_time :: "rl_event \<Rightarrow> int" where
  "rl_time (RlAllow ip t) = t"
| "rl_time (RlCleanup t) = t"

text \<open>A run of the limiter gives the decisions of its Allow calls.\<close>

fun rl_run :: "rl_event list \<Rightarrow> rl_table \<Rightarrow> (Addr \<times> bool) list" where
  "rl_run [] table = []"
| "rl_run (RlCleanup t # es) table = rl_run es (snd (rl_cleanup t table))"
| "rl_run (RlAllow ip t # es) table =
     (case Allow ip t table of (ok, table) \<Rightarrow> (ip, ok) # rl_run es table)"

section \<open>The bucket it implements\<close>

text \<open>
  The abstract bucket: a level per address that refills by one token per
  nanosecond up to the limit, and a request that passes while the level exceeds
  its cost.
\<close>

definition level :: "rl_table \<Rightarrow> int \<Rightarrow> Addr \<Rightarrow> int" where
  "level table now ip =
     (case map_of table ip of
        None \<Rightarrow> maxTokens
      | Some e \<Rightarrow> min maxTokens (rl_tokens e + (now - rl_lastTime e)))"

definition refill :: "int \<Rightarrow> (Addr \<Rightarrow> int) \<Rightarrow> Addr \<Rightarrow> int" where
  "refill d lv ip = min maxTokens (lv ip + d)"

definition bucket_allow :: "Addr \<Rightarrow> (Addr \<Rightarrow> int) \<Rightarrow> bool \<times> (Addr \<Rightarrow> int)" where
  "bucket_allow ip lv = (if lv ip > packetCost then (True, lv(ip := lv ip - packetCost)) else (False, lv))"

fun bucket_run :: "rl_event list \<Rightarrow> int \<Rightarrow> (Addr \<Rightarrow> int) \<Rightarrow> (Addr \<times> bool) list" where
  "bucket_run [] now lv = []"
| "bucket_run (RlCleanup t # es) now lv = bucket_run es now lv"
| "bucket_run (RlAllow ip t # es) now lv =
     (case bucket_allow ip (refill (t - now) lv) of (ok, lv) \<Rightarrow> (ip, ok) # bucket_run es t lv)"

definition rl_inv :: "int \<Rightarrow> rl_table \<Rightarrow> bool" where
  "rl_inv now table \<longleftrightarrow> distinct (map fst table) \<and>
     list_all (\<lambda>(k, e). 0 \<le> rl_tokens e \<and> rl_tokens e \<le> maxTokens \<and> rl_lastTime e \<le> now) table"

lemma rl_consts: "packetCost = 50000000" "maxTokens = 250000000" "garbageCollectTime = 1000000000"
  by (simp_all add: packetCost_def maxTokens_def packetsPerSecond_def packetsBurstable_def garbageCollectTime_def)

lemma rl_inv_entry:
  "\<lbrakk>rl_inv now table; map_of table ip = Some e\<rbrakk> \<Longrightarrow> 0 \<le> rl_tokens e \<and> rl_tokens e \<le> maxTokens \<and> rl_lastTime e \<le> now"
  by (auto simp: rl_inv_def list_all_iff dest!: map_of_SomeD)

lemma rl_inv_mono: "\<lbrakk>rl_inv now table; now \<le> t\<rbrakk> \<Longrightarrow> rl_inv t table"
  by (auto simp: rl_inv_def list_all_iff)

lemma level_refill:
  "\<lbrakk>rl_inv now table; now \<le> t\<rbrakk> \<Longrightarrow> level table t = refill (t - now) (level table now)"
  using rl_inv_entry [of now table] by (fastforce simp: level_def refill_def split: option.split)

lemma rl_inv_update:
  "\<lbrakk>rl_inv now table; 0 \<le> tk; tk \<le> maxTokens\<rbrakk> \<Longrightarrow>
     rl_inv now (AList.update ip \<lparr>rl_lastTime = now, rl_tokens = tk\<rparr> table)"
proof -
  have "\<lbrakk>list_all P table; P (ip, v)\<rbrakk> \<Longrightarrow> list_all P (AList.update ip v table)" for P v
    by (induction table) auto
  then show "\<lbrakk>rl_inv now table; 0 \<le> tk; tk \<le> maxTokens\<rbrakk> \<Longrightarrow> ?thesis"
    by (simp add: rl_inv_def distinct_update)
qed

lemma Allow_refines:
  assumes inv: "rl_inv now table" and run: "Allow ip now table = (ok, table')"
  shows "rl_inv now table' \<and> bucket_allow ip (level table now) = (ok, level table' now)"
proof (cases "map_of table ip")
  case None
  then show ?thesis
    using assms rl_inv_update [OF inv, of "maxTokens - packetCost" ip]
    by (auto simp: Allow_def bucket_allow_def level_def rl_consts update_conv' fun_eq_iff)
next
  case (Some e)
  let ?t = "min maxTokens (rl_tokens e + (now - rl_lastTime e))"
  have e: "0 \<le> rl_tokens e" "rl_tokens e \<le> maxTokens" "rl_lastTime e \<le> now" using rl_inv_entry [OF inv Some] by auto
  then have "0 \<le> ?t" "?t \<le> maxTokens" by (auto simp: rl_consts)
  moreover have "Allow ip now table = (if ?t > packetCost
      then (True, AList.update ip \<lparr>rl_lastTime = now, rl_tokens = ?t - packetCost\<rparr> table)
      else (False, AList.update ip \<lparr>rl_lastTime = now, rl_tokens = ?t\<rparr> table))"
    using Some by (simp add: Allow_def Let_def min_def)
  moreover have "level table now ip = ?t" using Some by (simp add: level_def)
  ultimately show ?thesis
    using run rl_inv_update [OF inv, of "?t - packetCost" ip] rl_inv_update [OF inv, of ?t ip]
    by (auto simp: bucket_allow_def level_def rl_consts update_conv' fun_eq_iff split: if_splits)
qed

lemma cleanup_refines:
  assumes inv: "rl_inv now table"
  shows "rl_inv now (snd (rl_cleanup now table)) \<and> level (snd (rl_cleanup now table)) now = level table now"
proof -
  let ?t = "filter (\<lambda>(key, entry). \<not> now - rl_lastTime entry > garbageCollectTime) table"
  have d: "distinct (map fst table)" using inv by (simp add: rl_inv_def)
  have "rl_inv now ?t" using inv by (auto simp: rl_inv_def list_all_iff distinct_map_filter)
  moreover have "level ?t now ip = level table now ip" for ip
  proof (cases "map_of table ip")
    case None
    then have "map_of ?t ip = None" by (auto simp: map_of_eq_None_iff)
    then show ?thesis using None by (simp add: level_def)
  next
    case (Some e)
    note e = rl_inv_entry [OF inv Some]
    show ?thesis
    proof (cases "now - rl_lastTime e > garbageCollectTime")
      case True
      then have "map_of ?t ip = None"
        using Some d by (auto simp: map_of_eq_None_iff dest: eq_key_imp_eq_value)
      then show ?thesis using Some True e by (simp add: level_def rl_consts)
    next
      case False
      then have "(ip, e) \<in> set ?t" using map_of_SomeD [OF Some] by simp
      then have "map_of ?t ip = Some e" using d by (intro map_of_is_SomeI) (auto simp: distinct_map_filter)
      then show ?thesis using Some by (simp add: level_def)
    qed
  qed
  ultimately show ?thesis by (simp add: rl_cleanup_def Let_def fun_eq_iff)
qed


lemma rl_run_refines:
  "\<lbrakk>rl_inv now table; sorted (now # map rl_time es)\<rbrakk> \<Longrightarrow> rl_run es table = bucket_run es now (level table now)"
proof (induction es table arbitrary: now rule: rl_run.induct)
  case (1 table)
  then show ?case by simp
next
  case (2 t es table)
  have inv: "rl_inv t table" using rl_inv_mono 2(2,3) by simp
  note c = cleanup_refines [OF inv]
  have "rl_run es (snd (rl_cleanup t table)) = bucket_run es t (level (snd (rl_cleanup t table)) t)"
    using 2(1) [OF conjunct1 [OF c]] 2(3) by simp
  also have "\<dots> = bucket_run es t (refill (t - now) (level table now))"
    using c level_refill [OF 2(2), of t] 2(3) by simp
  also have "\<dots> = bucket_run es now (level table now)"
  proof -
    have "bucket_run es t (refill (t - now) lv) = bucket_run es now lv"
      if "sorted (t # map rl_time es)" "now \<le> t" for lv
      using that
    proof (induction es)
      case (Cons e es)
      show ?case
      proof (cases e)
        case (RlAllow ip t')
        then have "refill (t' - t) (refill (t - now) lv) = refill (t' - now) lv"
          using Cons.prems by (auto simp: refill_def fun_eq_iff)
        then show ?thesis using RlAllow by simp
      next
        case (RlCleanup t')
        then show ?thesis using Cons by auto
      qed
    qed simp
    then show ?thesis using 2(3) by simp
  qed
  finally show ?case by simp
next
  case (3 ip t es table)
  have inv: "rl_inv t table" using rl_inv_mono 3(2,3) by simp
  obtain ok table' where a: "Allow ip t table = (ok, table')" by fastforce
  from Allow_refines [OF inv a] have r: "rl_inv t table'" "bucket_allow ip (level table t) = (ok, level table' t)" by auto
  have "rl_run es table' = bucket_run es t (level table' t)" using 3(1) [OF a [symmetric] r(1)] 3(3) by simp
  then show ?case using a r(2) level_refill [OF 3(2), of t] 3(3) by simp
qed

lemma bucket_rate:
  assumes "sorted (now # map rl_time es)" "0 \<le> lv ip" "lv ip \<le> maxTokens"
  shows "packetCost * int (length (filter (\<lambda>d. d = (ip, True)) (bucket_run es now lv))) \<le>
     lv ip + (last (now # map rl_time es) - now)"
  using assms
proof (induction es now lv rule: bucket_run.induct)
  case (2 t es now lv)
  have "sorted (now # map rl_time es)" "last (now # map rl_time es) \<le> last (now # t # map rl_time es)"
    using 2(2) by (cases es; simp)+
  then show ?case using 2(1,3,4) by simp
next
  case (3 ip' t es now lv)
  let ?lv = "refill (t - now) lv"
  obtain ok lv' where a: "bucket_allow ip' ?lv = (ok, lv')" by fastforce
  have "now \<le> t" using 3 by simp
  then have lv: "0 \<le> ?lv ip" "?lv ip \<le> maxTokens" "?lv ip \<le> lv ip + (t - now)"
    using 3 by (auto simp: refill_def rl_consts)
  have lv': "lv' ip = (if ip = ip' \<and> ok then ?lv ip - packetCost else ?lv ip)" "ip = ip' \<and> ok \<longrightarrow> packetCost < ?lv ip"
    using a by (auto simp: bucket_allow_def split: if_splits)
  have "packetCost * int (length (filter (\<lambda>d. d = (ip, True)) (bucket_run es t lv'))) \<le>
      lv' ip + (last (t # map rl_time es) - t)"
  proof (rule 3(1) [OF a [symmetric]])
    show "sorted (t # map rl_time es)" using 3(2) by simp
    show "0 \<le> lv' ip" using lv(1) lv' by auto
    show "lv' ip \<le> maxTokens" using lv(2) lv' by (auto simp: rl_consts split: if_splits)
  qed
  moreover have "filter (\<lambda>d. d = (ip, True)) (bucket_run (RlAllow ip' t # es) now lv) =
      (if ip = ip' \<and> ok then [(ip, True)] else []) @ filter (\<lambda>d. d = (ip, True)) (bucket_run es t lv')"
    using a by simp
  moreover have "last (now # map rl_time (RlAllow ip' t # es)) = last (t # map rl_time es)" by simp
  ultimately have "packetCost * int (length (filter (\<lambda>d. d = (ip, True)) (bucket_run (RlAllow ip' t # es) now lv))) \<le>
      lv' ip + (if ip = ip' \<and> ok then packetCost else 0) + (last (now # map rl_time (RlAllow ip' t # es)) - t)"
    by (cases "ip = ip' \<and> ok") (simp_all only: if_True if_False length_append list.size of_nat_add of_nat_Suc, simp_all add: distrib_left)
  moreover have "lv' ip + (if ip = ip' \<and> ok then packetCost else 0) = ?lv ip" using lv'(1) by simp
  ultimately show ?case using lv(3) by linarith
qed simp

text \<open>
  C37. The rate limiter is a token bucket per address: on any sequence of
  requests and collections in time order the decisions are those of the abstract
  bucket, so that collecting idle addresses changes no decision; the requests
  passed for an address cost no more than the burst and the time that has gone
  by, that is at most five at once and twenty per second.
\<close>

theorem ratelimiter_is_token_bucket:
  assumes "sorted (start # map rl_time es)"
  shows "rl_run es Ratelimiter_Init = bucket_run es start (\<lambda>_. maxTokens) \<and>
    rl_run es Ratelimiter_Init = rl_run (filter (\<lambda>e. \<exists>ip t. e = RlAllow ip t) es) Ratelimiter_Init \<and>
    packetCost * int (length (filter (\<lambda>d. d = (ip, True)) (rl_run es Ratelimiter_Init))) \<le>
      maxTokens + (last (start # map rl_time es) - start)"
proof -
  have i: "rl_inv start Ratelimiter_Init" "level Ratelimiter_Init start = (\<lambda>_. maxTokens)"
    by (simp_all add: rl_inv_def Ratelimiter_Init_def level_def fun_eq_iff)
  let ?es = "filter (\<lambda>e. \<exists>ip t. e = RlAllow ip t) es"
  have s: "sorted (start # map rl_time ?es)" using assms by (simp add: sorted_filter)
  have b: "bucket_run ?es now lv = bucket_run es now lv" for now lv
    by (induction es now lv rule: bucket_run.induct) (simp_all split: prod.split)
  have r: "rl_run es Ratelimiter_Init = bucket_run es start (\<lambda>_. maxTokens)"
    "rl_run ?es Ratelimiter_Init = bucket_run es start (\<lambda>_. maxTokens)"
    using rl_run_refines [OF i(1) assms] rl_run_refines [OF i(1) s] by (simp_all only: i(2) b)
  show ?thesis unfolding r using bucket_rate [OF assms, of "\<lambda>_. maxTokens" ip] by (simp add: rl_consts)
qed

theorem ratelimiter_is_token_bucket_witness:
  "rl_run [RlAllow (AddrFrom4 [10, 0, 0, 1]) 1, RlCleanup 2000000000, RlAllow (AddrFrom4 [10, 0, 0, 1]) 2000000001]
      Ratelimiter_Init = [(AddrFrom4 [10, 0, 0, 1], True), (AddrFrom4 [10, 0, 0, 1], True)]"
  using ratelimiter_is_token_bucket [of 0 "[RlAllow (AddrFrom4 [10, 0, 0, 1]) 1, RlCleanup 2000000000,
     RlAllow (AddrFrom4 [10, 0, 0, 1]) 2000000001]"]
  by (simp add: bucket_allow_def refill_def rl_consts)

end
