(* ===== verification/Device_State.thy ===== *)
theory Device_State
  imports Cookie Replay AllowedIPs Ratelimiter
begin

text \<open>
  The state of the WireGuard device and its handshake (wireguard/device:
  device.go, peer.go, indextable.go, keypair.go, noise-protocol.go, timers.go).
  Pointers to peers and keypairs are indices into two heaps, so that a keypair
  that has left its slots is still there.  The clock is a field in nanoseconds,
  random bytes come from a tape, the outcomes of Bind.Send from a queue, and what
  the device sends and writes to the TUN device is recorded in traces.  An
  operation holds the locks the code takes while it runs, so operations are
  functions on the whole state.
\<close>

section \<open>Constants\<close>

definition second :: int where "second = 1000000000"
definition RekeyAfterMessages :: "64 word" where "RekeyAfterMessages = 2 ^ 60"
definition RejectAfterMessages :: "64 word" where "RejectAfterMessages = - (2 ^ 13) - 1"
definition RekeyAfterTime :: int where "RekeyAfterTime = second * 120"
definition RekeyTimeout :: int where "RekeyTimeout = second * 5"
definition MaxTimerHandshakes :: nat where "MaxTimerHandshakes = 90 div 5"
definition RekeyTimeoutJitterMaxMs :: nat where "RekeyTimeoutJitterMaxMs = 334"
definition RejectAfterTime :: int where "RejectAfterTime = second * 180"
definition KeepaliveTimeout :: int where "KeepaliveTimeout = second * 10"
definition HandshakeInitationRate :: int where "HandshakeInitationRate = second div 50"
definition PaddingMultiple :: nat where "PaddingMultiple = 16"
definition MaxPeers :: nat where "MaxPeers = 2 ^ 16"
definition UnderLoadAfterTime :: int where "UnderLoadAfterTime = second"
definition QueueStagedSize :: nat where "QueueStagedSize = 128"
definition QueueHandshakeSize :: nat where "QueueHandshakeSize = 1024"

section \<open>State\<close>

datatype handshakeState = handshakeZeroed | handshakeInitiationCreated | handshakeInitiationConsumed
  | handshakeResponseCreated | handshakeResponseConsumed

record Handshake =
  hs_state :: handshakeState
  hs_hash :: "byte list"
  hs_chainKey :: "byte list"
  hs_presharedKey :: "byte list"
  hs_localEphemeral :: "byte list"
  hs_localIndex :: "32 word"
  hs_remoteIndex :: "32 word"
  hs_remoteStatic :: "byte list"
  hs_remoteEphemeral :: "byte list"
  hs_precomputedStaticStatic :: "byte list"
  hs_lastTimestamp :: "byte list"
  hs_lastInitiationConsumption :: "int option"
  hs_lastSentHandshake :: int

record Keypair =
  kp_sendNonce :: "64 word"
  kp_send :: "byte list"
  kp_receive :: "byte list"
  kp_replayFilter :: Filter
  kp_isInitiator :: bool
  kp_created :: int
  kp_localIndex :: "32 word"
  kp_remoteIndex :: "32 word"

record Keypairs =
  ks_current :: "nat option"
  ks_previous :: "nat option"
  ks_next :: "nat option"

text \<open>An entry points to a peer and to its handshake or to a keypair.\<close>

datatype index_target = ToHandshake | ToKeypair nat

record IndexTableEntry =
  ie_peer :: nat
  ie_target :: index_target

record TCPEndpoint =
  ep_dst :: AddrPort
  ep_src :: AddrPort
  ep_toNAT :: bool

text \<open>A timer is pending with a deadline, or not pending.\<close>

record Timers =
  tm_retransmitHandshake :: "int option"
  tm_sendKeepalive :: "int option"
  tm_newHandshake :: "int option"
  tm_zeroKeyMaterial :: "int option"
  tm_persistentKeepalive :: "int option"
  tm_handshakeAttempts :: nat
  tm_needAnotherKeepalive :: bool
  tm_sentLastMinuteHandshake :: bool

record inbound_elem =
  in_packet :: "byte list option"
  in_counter :: "64 word"
  in_keypair :: nat
  in_endpoint :: TCPEndpoint

record peer_obj =
  pr_isRunning :: bool
  pr_keypairs :: Keypairs
  pr_handshake :: Handshake
  pr_txBytes :: "64 word"
  pr_rxBytes :: "64 word"
  pr_lastHandshakeNano :: int
  pr_handshakeRTTNano :: int
  pr_endpoint :: "TCPEndpoint option"
  pr_clearSrcOnTx :: bool
  pr_disableRoaming :: bool
  pr_timers :: Timers
  pr_staged :: "byte list list list"
  pr_outbound :: "byte list list list"
  pr_inbound :: "inbound_elem list list"
  pr_cookieGenerator :: CookieGenerator
  pr_persistentKeepaliveInterval :: nat

datatype deviceState = deviceStateDown | deviceStateUp | deviceStateClosed

datatype send_result = SendOK | SendError | SendWaitingInbound

text \<open>The answer of the bind to Open, Close, SetMark or UpdateListenPort, with the port it listens on.\<close>

datatype bind_reply = BindError | BindOK "16 word"

record Device =
  dv_state :: deviceState
  dv_privateKey :: "byte list"
  dv_publicKey :: "byte list"
  dv_peers :: "peer_obj list"
  dv_keyMap :: "(byte list \<times> nat) list"
  dv_underLoadUntil :: int
  dv_limiter :: rl_table
  dv_allowedips :: AllowedIPs
  dv_indexTable :: "(32 word \<times> IndexTableEntry) list"
  dv_cookieChecker :: CookieChecker
  dv_keypairs :: "Keypair list"
  dv_handshakeq :: "(32 word \<times> byte list \<times> TCPEndpoint) list"
  dv_mtu :: nat
  dv_inboundFilter :: "(byte list \<Rightarrow> byte list \<Rightarrow> bool) option"
  dv_now :: int
  dv_rand :: "byte list"
  dv_jitter :: "nat list"
  dv_sendq :: "send_result list"
  dv_bindq :: "bind_reply list"
  dv_bindOpen :: bool
  dv_port :: "16 word"
  dv_fwmark :: "32 word"
  dv_brokenRoaming :: bool
  dv_tonatHandler :: bool
  dv_net :: "(TCPEndpoint \<times> byte list list) list"
  dv_tunOut :: "(nat \<times> byte list) list"
  dv_natClients :: "byte list list"
  dv_sealed :: "(nat \<times> 64 word) list"
  dv_accepted :: "(nat \<times> 64 word) list"

definition upd_peer :: "nat \<Rightarrow> (peer_obj \<Rightarrow> peer_obj) \<Rightarrow> Device \<Rightarrow> Device" where
  "upd_peer p f d = d\<lparr>dv_peers := (dv_peers d)[p := f (dv_peers d ! p)]\<rparr>"

definition upd_hs :: "nat \<Rightarrow> (Handshake \<Rightarrow> Handshake) \<Rightarrow> Device \<Rightarrow> Device" where
  "upd_hs p f = upd_peer p (\<lambda>r. r\<lparr>pr_handshake := f (pr_handshake r)\<rparr>)"

definition upd_ks :: "nat \<Rightarrow> (Keypairs \<Rightarrow> Keypairs) \<Rightarrow> Device \<Rightarrow> Device" where
  "upd_ks p f = upd_peer p (\<lambda>r. r\<lparr>pr_keypairs := f (pr_keypairs r)\<rparr>)"

definition upd_tm :: "nat \<Rightarrow> (Timers \<Rightarrow> Timers) \<Rightarrow> Device \<Rightarrow> Device" where
  "upd_tm p f = upd_peer p (\<lambda>r. r\<lparr>pr_timers := f (pr_timers r)\<rparr>)"

definition upd_kp :: "nat \<Rightarrow> (Keypair \<Rightarrow> Keypair) \<Rightarrow> Device \<Rightarrow> Device" where
  "upd_kp k f d = d\<lparr>dv_keypairs := (dv_keypairs d)[k := f (dv_keypairs d ! k)]\<rparr>"

definition isClosed :: "Device \<Rightarrow> bool" where "isClosed d = (dv_state d = deviceStateClosed)"
definition isUp :: "Device \<Rightarrow> bool" where "isUp d = (dv_state d = deviceStateUp)"

section \<open>Index table\<close>

definition index_Delete :: "32 word \<Rightarrow> Device \<Rightarrow> Device" where
  "index_Delete i d = d\<lparr>dv_indexTable := AList.delete i (dv_indexTable d)\<rparr>"

definition SwapIndexForKeypair :: "32 word \<Rightarrow> nat \<Rightarrow> Device \<Rightarrow> Device" where
  "SwapIndexForKeypair i k d =
     (case map_of (dv_indexTable d) i of
        None \<Rightarrow> d
      | Some entry \<Rightarrow>
          d\<lparr>dv_indexTable := AList.update i \<lparr>ie_peer = ie_peer entry, ie_target = ToKeypair k\<rparr> (dv_indexTable d)\<rparr>)"

text \<open>The loop of NewIndexForHandshake: draw until the index is unused.\<close>

function new_index :: "(32 word \<times> IndexTableEntry) list \<Rightarrow> byte list \<Rightarrow> 32 word option \<times> byte list" where
  "new_index table tape =
     (case rand_bytes 4 tape of
        None \<Rightarrow> (None, tape)
      | Some (b, tape') \<Rightarrow>
          (let index = le_get b
           in if map_of table index \<noteq> None then new_index table tape' else (Some index, tape')))"
  by auto
termination
  by (relation "measure (length \<circ> snd)") (auto simp: rand_bytes_def split: if_splits)

declare new_index.simps [simp del]

definition NewIndexForHandshake :: "nat \<Rightarrow> Device \<Rightarrow> 32 word option \<times> Device" where
  "NewIndexForHandshake p d =
     (case new_index (dv_indexTable d) (dv_rand d) of
        (None, tape) \<Rightarrow> (None, d\<lparr>dv_rand := tape\<rparr>)
      | (Some index, tape) \<Rightarrow>
          (Some index, d\<lparr>dv_rand := tape,
             dv_indexTable := AList.update index \<lparr>ie_peer = p, ie_target = ToHandshake\<rparr> (dv_indexTable d)\<rparr>))"

definition index_Lookup :: "32 word \<Rightarrow> Device \<Rightarrow> IndexTableEntry option" where
  "index_Lookup i d = map_of (dv_indexTable d) i"

definition DeleteKeypair :: "nat option \<Rightarrow> Device \<Rightarrow> Device" where
  "DeleteKeypair key d =
     (case key of None \<Rightarrow> d | Some k \<Rightarrow> index_Delete (kp_localIndex (dv_keypairs d ! k)) d)"

section \<open>Handshake primitives\<close>

definition NoiseConstruction :: "byte list" where
  "NoiseConstruction = go_str ''Noise_IKpsk2_25519_ChaChaPoly_BLAKE2s''"

definition WGIdentifier :: "byte list" where
  "WGIdentifier = go_str ''WireGuard v1 zx2c4 Jason@zx2c4.com''"

definition mixKey :: "noise_env \<Rightarrow> byte list \<Rightarrow> byte list \<Rightarrow> byte list" where
  "mixKey E c data = KDF1 E c data"

definition mixHash :: "noise_env \<Rightarrow> byte list \<Rightarrow> byte list \<Rightarrow> byte list" where
  "mixHash E h data = blake2s E (h @ data)"

definition InitialChainKey :: "noise_env \<Rightarrow> byte list" where
  "InitialChainKey E = blake2s E NoiseConstruction"

definition InitialHash :: "noise_env \<Rightarrow> byte list" where
  "InitialHash E = mixHash E (InitialChainKey E) WGIdentifier"

definition ZeroNonce :: "byte list" where "ZeroNonce = zeros 12"

definition hs_mixHash :: "noise_env \<Rightarrow> byte list \<Rightarrow> Handshake \<Rightarrow> Handshake" where
  "hs_mixHash E data h = h\<lparr>hs_hash := mixHash E (hs_hash h) data\<rparr>"

definition hs_mixKey :: "noise_env \<Rightarrow> byte list \<Rightarrow> Handshake \<Rightarrow> Handshake" where
  "hs_mixKey E data h = h\<lparr>hs_chainKey := mixKey E (hs_chainKey h) data\<rparr>"

definition hs_Clear :: "Handshake \<Rightarrow> Handshake" where
  "hs_Clear h = h\<lparr>hs_localEphemeral := setZero (hs_localEphemeral h), hs_remoteEphemeral := setZero (hs_remoteEphemeral h),
     hs_chainKey := setZero (hs_chainKey h), hs_hash := setZero (hs_hash h), hs_localIndex := 0,
     hs_state := handshakeZeroed\<rparr>"

text \<open>newPrivateKey: on an error of the random source the zero key is clamped and returned with the error.\<close>

definition newPrivateKey :: "Device \<Rightarrow> (byte list \<times> bool) \<times> Device" where
  "newPrivateKey d =
     (case rand_bytes 32 (dv_rand d) of
        None \<Rightarrow> ((sk_clamp (zeros 32), False), d)
      | Some (sk, tape) \<Rightarrow> ((sk_clamp sk, True), d\<lparr>dv_rand := tape\<rparr>))"

definition tai64n_Now :: "Device \<Rightarrow> byte list" where
  "tai64n_Now d = stamp (dv_now d div second) (nat (dv_now d mod second))"

end
