(* ===== verification/Noise.thy ===== *)
theory Noise
  imports Device_State
begin

text \<open>
  The Noise handshake of the device (wireguard/device/noise-protocol.go): the two
  messages created and consumed by either side, the derivation of the transport
  keys and the rotation of keypairs.
\<close>

section \<open>Messages\<close>

definition peer_hs :: "nat \<Rightarrow> Device \<Rightarrow> Handshake" where
  "peer_hs p d = pr_handshake (dv_peers d ! p)"

definition set_hs :: "nat \<Rightarrow> Handshake \<Rightarrow> Device \<Rightarrow> Device" where
  "set_hs p h = upd_hs p (\<lambda>_. h)"

definition CreateMessageInitiation :: "noise_env \<Rightarrow> nat \<Rightarrow> Device \<Rightarrow> MessageInitiation option \<times> Device" where
  "CreateMessageInitiation E p d =
     (let h = (peer_hs p d)\<lparr>hs_hash := InitialHash E, hs_chainKey := InitialChainKey E\<rparr>;
          ((sk, ok), d) = newPrivateKey d;
          h = h\<lparr>hs_localEphemeral := sk\<rparr>
      in if \<not> ok then (None, set_hs p h d)
      else let h = hs_mixHash E (hs_remoteStatic h) h;
               ephemeral = publicKey E sk;
               h = hs_mixHash E ephemeral (hs_mixKey E ephemeral h)
           in case sharedSecret E sk (hs_remoteStatic h) of
                None \<Rightarrow> (None, set_hs p h d)
              | Some ss \<Rightarrow>
                  (let (ck, key) = KDF2 E (hs_chainKey h) ss;
                       h = h\<lparr>hs_chainKey := ck\<rparr>;
                       static = aead_Seal E key ZeroNonce (dv_publicKey d) (hs_hash h);
                       h = hs_mixHash E static h
                   in if isZero (hs_precomputedStaticStatic h) then (None, set_hs p h d)
                      else let (ck, key) = KDF2 E (hs_chainKey h) (hs_precomputedStaticStatic h);
                               h = h\<lparr>hs_chainKey := ck\<rparr>;
                               timestamp = aead_Seal E key ZeroNonce (tai64n_Now d) (hs_hash h);
                               d = index_Delete (hs_localIndex h) d
                           in case NewIndexForHandshake p d of
                                (None, d) \<Rightarrow> (None, set_hs p h d)
                              | (Some sender, d) \<Rightarrow>
                                  (let h = h\<lparr>hs_localIndex := sender\<rparr>;
                                       h = hs_mixHash E timestamp h;
                                       h = h\<lparr>hs_state := handshakeInitiationCreated\<rparr>
                                   in (Some \<lparr>mi_Type = MessageInitiationType, mi_Sender = sender,
                                             mi_Ephemeral = ephemeral, mi_Static = static, mi_Timestamp = timestamp,
                                             mi_MAC1 = zeros 16, mi_MAC2 = zeros 16\<rparr>,
                                       set_hs p h d))))"

definition LookupPeer :: "byte list \<Rightarrow> Device \<Rightarrow> nat option" where
  "LookupPeer pk d = map_of (dv_keyMap d) pk"

text \<open>
  The guards of ConsumeMessageInitiation against replayed and too frequent
  messages, for a decrypted time stamp.
\<close>

definition initiation_replay :: "byte list \<Rightarrow> Handshake \<Rightarrow> bool" where
  "initiation_replay timestamp h = (\<not> ts_After timestamp (hs_lastTimestamp h))"

definition initiation_flood :: "int \<Rightarrow> Handshake \<Rightarrow> bool" where
  "initiation_flood now h = (\<not> since_exceeds (hs_lastInitiationConsumption h) now HandshakeInitationRate)"

definition ConsumeMessageInitiation :: "noise_env \<Rightarrow> MessageInitiation \<Rightarrow> Device \<Rightarrow> nat option \<times> Device" where
  "ConsumeMessageInitiation E msg d =
     (if mi_Type msg \<noteq> MessageInitiationType then (None, d)
      else let hash = mixHash E (InitialHash E) (dv_publicKey d);
               hash = mixHash E hash (mi_Ephemeral msg);
               chainKey = mixKey E (InitialChainKey E) (mi_Ephemeral msg)
           in case sharedSecret E (dv_privateKey d) (mi_Ephemeral msg) of
                None \<Rightarrow> (None, d)
              | Some ss \<Rightarrow>
                  (let (chainKey, key) = KDF2 E chainKey ss
                   in case aead_Open E key ZeroNonce (mi_Static msg) hash of
                        None \<Rightarrow> (None, d)
                      | Some peerPK \<Rightarrow>
                          (let hash = mixHash E hash (mi_Static msg)
                           in case LookupPeer peerPK d of
                                None \<Rightarrow> (None, d)
                              | Some p \<Rightarrow>
                                  (if \<not> pr_isRunning (dv_peers d ! p) then (None, d)
                                   else let h = peer_hs p d
                                        in if isZero (hs_precomputedStaticStatic h) then (None, d)
                                           else let (chainKey, key) = KDF2 E chainKey (hs_precomputedStaticStatic h)
                                                in case aead_Open E key ZeroNonce (mi_Timestamp msg) hash of
                                                     None \<Rightarrow> (None, d)
                                                   | Some timestamp \<Rightarrow>
                                                       (let hash = mixHash E hash (mi_Timestamp msg)
                                                        in if initiation_replay timestamp h then (None, d)
                                                           else if initiation_flood (dv_now d) h then (None, d)
                                                           else (Some p, set_hs p
                                                                  (h\<lparr>hs_hash := hash, hs_chainKey := chainKey,
                                                                     hs_remoteIndex := mi_Sender msg,
                                                                     hs_remoteEphemeral := mi_Ephemeral msg,
                                                                     hs_lastTimestamp := timestamp,
                                                                     hs_lastInitiationConsumption := Some (dv_now d),
                                                                     hs_state := handshakeInitiationConsumed\<rparr>) d))))))"

definition CreateMessageResponse :: "noise_env \<Rightarrow> nat \<Rightarrow> Device \<Rightarrow> MessageResponse option \<times> Device" where
  "CreateMessageResponse E p d =
     (let h = peer_hs p d
      in if hs_state h \<noteq> handshakeInitiationConsumed then (None, d)
      else case NewIndexForHandshake p (index_Delete (hs_localIndex h) d) of
        (None, d) \<Rightarrow> (None, set_hs p (h\<lparr>hs_localIndex := 0\<rparr>) d)
      | (Some index, d) \<Rightarrow>
          (let h = h\<lparr>hs_localIndex := index\<rparr>;
               ((sk, ok), d) = newPrivateKey d;
               h = h\<lparr>hs_localEphemeral := sk\<rparr>
           in if \<not> ok then (None, set_hs p h d)
           else let ephemeral = publicKey E sk;
                    h = hs_mixKey E ephemeral (hs_mixHash E ephemeral h)
                in case sharedSecret E sk (hs_remoteEphemeral h) of
                     None \<Rightarrow> (None, set_hs p h d)
                   | Some ss \<Rightarrow>
                       (let h = hs_mixKey E ss h
                        in case sharedSecret E sk (hs_remoteStatic h) of
                             None \<Rightarrow> (None, set_hs p h d)
                           | Some ss \<Rightarrow>
                               (let h = hs_mixKey E ss h;
                                    (ck, tau, key) = KDF3 E (hs_chainKey h) (hs_presharedKey h);
                                    h = h\<lparr>hs_chainKey := ck\<rparr>;
                                    h = hs_mixHash E tau h;
                                    empty = aead_Seal E key ZeroNonce [] (hs_hash h);
                                    h = hs_mixHash E empty h;
                                    h = h\<lparr>hs_state := handshakeResponseCreated\<rparr>
                                in (Some \<lparr>mr_Type = MessageResponseType, mr_Sender = index,
                                          mr_Receiver = hs_remoteIndex h, mr_Ephemeral = ephemeral, mr_Empty = empty,
                                          mr_MAC1 = zeros 16, mr_MAC2 = zeros 16\<rparr>,
                                    set_hs p h d)))))"

definition ConsumeMessageResponse :: "noise_env \<Rightarrow> MessageResponse \<Rightarrow> Device \<Rightarrow> nat option \<times> Device" where
  "ConsumeMessageResponse E msg d =
     (if mr_Type msg \<noteq> MessageResponseType then (None, d)
      else case index_Lookup (mr_Receiver msg) d of
        None \<Rightarrow> (None, d)
      | Some lookup \<Rightarrow>
          (if ie_target lookup \<noteq> ToHandshake then (None, d)
           else let p = ie_peer lookup; h = peer_hs p d
                in if hs_state h \<noteq> handshakeInitiationCreated then (None, d)
                   else let hash = mixHash E (hs_hash h) (mr_Ephemeral msg);
                            chainKey = mixKey E (hs_chainKey h) (mr_Ephemeral msg)
                        in case sharedSecret E (hs_localEphemeral h) (mr_Ephemeral msg) of
                             None \<Rightarrow> (None, d)
                           | Some ss \<Rightarrow>
                               (let chainKey = mixKey E chainKey ss
                                in case sharedSecret E (dv_privateKey d) (mr_Ephemeral msg) of
                                     None \<Rightarrow> (None, d)
                                   | Some ss \<Rightarrow>
                                       (let chainKey = mixKey E chainKey ss;
                                            (chainKey, tau, key) = KDF3 E chainKey (hs_presharedKey h);
                                            hash = mixHash E hash tau
                                        in case aead_Open E key ZeroNonce (mr_Empty msg) hash of
                                             None \<Rightarrow> (None, d)
                                           | Some _ \<Rightarrow>
                                               (let hash = mixHash E hash (mr_Empty msg)
                                                in (Some p, set_hs p
                                                      (h\<lparr>hs_hash := hash, hs_chainKey := chainKey,
                                                         hs_remoteIndex := mr_Sender msg,
                                                         hs_state := handshakeResponseConsumed\<rparr>) d))))))"

section \<open>Transport keys\<close>

text \<open>The rotation of the keypair slots at the end of BeginSymmetricSession.\<close>

definition rotate_keypairs :: "nat \<Rightarrow> bool \<Rightarrow> nat \<Rightarrow> Device \<Rightarrow> Device" where
  "rotate_keypairs p isInitiator keypair d =
     (let ks = pr_keypairs (dv_peers d ! p);
          previous = ks_previous ks; next = ks_next ks; current = ks_current ks
      in if isInitiator then
           (let d = (if next \<noteq> None
                     then DeleteKeypair current (upd_ks p (\<lambda>ks. ks\<lparr>ks_next := None, ks_previous := next\<rparr>) d)
                     else upd_ks p (\<lambda>ks. ks\<lparr>ks_previous := current\<rparr>) d);
                d = DeleteKeypair previous d
            in upd_ks p (\<lambda>ks. ks\<lparr>ks_current := Some keypair\<rparr>) d)
         else
           (let d = upd_ks p (\<lambda>ks. ks\<lparr>ks_next := Some keypair\<rparr>) d;
                d = DeleteKeypair next d;
                d = upd_ks p (\<lambda>ks. ks\<lparr>ks_previous := None\<rparr>) d
            in DeleteKeypair previous d))"

definition BeginSymmetricSession :: "noise_env \<Rightarrow> nat \<Rightarrow> Device \<Rightarrow> bool \<times> Device" where
  "BeginSymmetricSession E p d =
     (let h = peer_hs p d
      in if hs_state h \<noteq> handshakeResponseConsumed \<and> hs_state h \<noteq> handshakeResponseCreated then (False, d)
      else let isInitiator = (hs_state h = handshakeResponseConsumed);
               (k1, k2) = KDF2 E (hs_chainKey h) [];
               (sendKey, recvKey) = (if isInitiator then (k1, k2) else (k2, k1));
               h' = h\<lparr>hs_chainKey := setZero (hs_chainKey h), hs_hash := setZero (hs_hash h),
                     hs_localEphemeral := setZero (hs_localEphemeral h), hs_state := handshakeZeroed\<rparr>;
               keypair = length (dv_keypairs d);
               d = d\<lparr>dv_keypairs := dv_keypairs d @
                       [\<lparr>kp_sendNonce = 0, kp_send = sendKey, kp_receive = recvKey, kp_replayFilter = Filter_Reset Filter0,
                         kp_isInitiator = isInitiator, kp_created = dv_now d, kp_localIndex = hs_localIndex h,
                         kp_remoteIndex = hs_remoteIndex h\<rparr>]\<rparr>;
               d = SwapIndexForKeypair (hs_localIndex h) keypair d;
               d = set_hs p (h'\<lparr>hs_localIndex := 0\<rparr>) d
           in (True, rotate_keypairs p isInitiator keypair d))"

definition ReceivedWithKeypair :: "nat \<Rightarrow> nat \<Rightarrow> Device \<Rightarrow> bool \<times> Device" where
  "ReceivedWithKeypair p receivedKeypair d =
     (let ks = pr_keypairs (dv_peers d ! p)
      in if ks_next ks \<noteq> Some receivedKeypair then (False, d)
         else let old = ks_previous ks;
                  d = upd_ks p (\<lambda>ks. ks\<lparr>ks_previous := ks_current ks\<rparr>) d;
                  d = DeleteKeypair old d
              in (True, upd_ks p (\<lambda>ks. ks\<lparr>ks_current := ks_next ks, ks_next := None\<rparr>) d))"

end
