(* ===== verification/Noise_Agree.thy ===== *)
theory Noise_Agree
  imports Noise
begin

text \<open>
  Agreement of the Noise handshake: what each message contains, that the peer
  accepts it, and that both ends derive mirrored keypairs.
\<close>

section \<open>Frames\<close>

lemma upd_peer_simps [simp]:
  "length (dv_peers (upd_peer p f d)) = length (dv_peers d)"
  "dv_keypairs (upd_peer p f d) = dv_keypairs d" "dv_indexTable (upd_peer p f d) = dv_indexTable d"
  "dv_publicKey (upd_peer p f d) = dv_publicKey d" "dv_privateKey (upd_peer p f d) = dv_privateKey d"
  "dv_keyMap (upd_peer p f d) = dv_keyMap d" "dv_now (upd_peer p f d) = dv_now d" "dv_state (upd_peer p f d) = dv_state d"
  "dv_sealed (upd_peer p f d) = dv_sealed d" "dv_accepted (upd_peer p f d) = dv_accepted d"
  "dv_allowedips (upd_peer p f d) = dv_allowedips d" "dv_rand (upd_peer p f d) = dv_rand d"
  "dv_tunOut (upd_peer p f d) = dv_tunOut d" "dv_net (upd_peer p f d) = dv_net d"
  by (simp_all add: upd_peer_def)

lemma nth_upd_peer:
  "q < length (dv_peers d) \<Longrightarrow> dv_peers (upd_peer p f d) ! q = (if p = q then f (dv_peers d ! q) else dv_peers d ! q)"
  by (simp add: upd_peer_def nth_list_update)

lemma set_hs_simps [simp]:
  "length (dv_peers (set_hs p h d)) = length (dv_peers d)"
  "dv_keypairs (set_hs p h d) = dv_keypairs d" "dv_indexTable (set_hs p h d) = dv_indexTable d"
  "dv_publicKey (set_hs p h d) = dv_publicKey d" "dv_privateKey (set_hs p h d) = dv_privateKey d"
  "dv_keyMap (set_hs p h d) = dv_keyMap d" "dv_now (set_hs p h d) = dv_now d" "dv_state (set_hs p h d) = dv_state d"
  "dv_sealed (set_hs p h d) = dv_sealed d" "dv_accepted (set_hs p h d) = dv_accepted d"
  "dv_allowedips (set_hs p h d) = dv_allowedips d" "dv_rand (set_hs p h d) = dv_rand d"
  by (simp_all add: set_hs_def upd_hs_def)

lemma peer_hs_set [simp]: "p < length (dv_peers d) \<Longrightarrow> peer_hs p (set_hs p h d) = h"
  by (simp add: peer_hs_def set_hs_def upd_hs_def nth_upd_peer)

lemma nth_set_hs:
  "q < length (dv_peers d) \<Longrightarrow>
     dv_peers (set_hs p h d) ! q = (if p = q then (dv_peers d ! q)\<lparr>pr_handshake := h\<rparr> else dv_peers d ! q)"
  by (simp add: set_hs_def upd_hs_def nth_upd_peer)

lemma newPrivateKey_frame:
  "newPrivateKey d = ((sk, ok), d') \<Longrightarrow> \<exists>tape. d' = d\<lparr>dv_rand := tape\<rparr>"
  by (auto simp: newPrivateKey_def split: option.splits intro: exI [of _ "dv_rand d"])

lemma new_index_fresh: "new_index table tape = (Some i, tape') \<Longrightarrow> map_of table i = None"
  by (induction table tape rule: new_index.induct)
    (subst (asm) (2) new_index.simps, auto simp: Let_def split: option.splits if_splits)

lemma NewIndexForHandshake_Some:
  "NewIndexForHandshake p d = (Some i, d') \<Longrightarrow>
     map_of (dv_indexTable d) i = None \<and>
     (\<exists>tape. d' = d\<lparr>dv_rand := tape, dv_indexTable := AList.update i \<lparr>ie_peer = p, ie_target = ToHandshake\<rparr> (dv_indexTable d)\<rparr>)"
  by (auto simp: NewIndexForHandshake_def split: prod.splits option.splits dest: new_index_fresh)

lemma NewIndexForHandshake_None:
  "NewIndexForHandshake p d = (None, d') \<Longrightarrow> \<exists>tape. d' = d\<lparr>dv_rand := tape\<rparr>"
  by (auto simp: NewIndexForHandshake_def split: prod.splits option.splits)

section \<open>What a created message contains\<close>

text \<open>The transcript hash and chaining key after each token of the first message.\<close>

definition i_hash :: "noise_env \<Rightarrow> byte list \<Rightarrow> byte list \<Rightarrow> byte list" where
  "i_hash E rs eph = mixHash E (mixHash E (InitialHash E) rs) eph"

definition i_keys :: "noise_env \<Rightarrow> byte list \<Rightarrow> byte list \<Rightarrow> byte list \<times> byte list" where
  "i_keys E eph ss = KDF2 E (mixKey E (InitialChainKey E) eph) ss"

lemma CreateMessageInitiation_SomeD:
  assumes run: "CreateMessageInitiation E p d = (Some m, d')" and p: "p < length (dv_peers d)"
  defines "h \<equiv> peer_hs p d"
  shows "\<exists>sk ss h1. sharedSecret E sk (hs_remoteStatic h) = Some ss \<and> \<not> isZero (hs_precomputedStaticStatic h) \<and>
    h1 = mixHash E (i_hash E (hs_remoteStatic h) (publicKey E sk)) (mi_Static m) \<and>
    mi_Type m = MessageInitiationType \<and> mi_Ephemeral m = publicKey E sk \<and>
    mi_Static m = aead_Seal E (snd (i_keys E (publicKey E sk) ss)) ZeroNonce (dv_publicKey d)
      (i_hash E (hs_remoteStatic h) (publicKey E sk)) \<and>
    mi_Timestamp m = aead_Seal E (snd (KDF2 E (fst (i_keys E (publicKey E sk) ss)) (hs_precomputedStaticStatic h)))
      ZeroNonce (tai64n_Now d) h1 \<and> mi_MAC1 m = zeros 16 \<and> mi_MAC2 m = zeros 16 \<and>
    peer_hs p d' = h\<lparr>hs_hash := mixHash E h1 (mi_Timestamp m),
       hs_chainKey := fst (KDF2 E (fst (i_keys E (publicKey E sk) ss)) (hs_precomputedStaticStatic h)),
       hs_localEphemeral := sk, hs_localIndex := mi_Sender m, hs_state := handshakeInitiationCreated\<rparr> \<and>
    map_of (dv_indexTable d') (mi_Sender m) = Some \<lparr>ie_peer = p, ie_target = ToHandshake\<rparr>"
proof -
  obtain sk ok d1 where k: "newPrivateKey d = ((sk, ok), d1)" by (metis prod.collapse)
  obtain tape where d1: "d1 = d\<lparr>dv_rand := tape\<rparr>" using newPrivateKey_frame [OF k] by blast
  have ok: "ok" using run k by (cases ok) (simp_all add: CreateMessageInitiation_def Let_def)
  show ?thesis
    by (rule exI [of _ sk], insert run k ok p) (auto simp: CreateMessageInitiation_def Let_def hs_mixHash_def hs_mixKey_def i_hash_def i_keys_def h_def [symmetric]
        d1 tai64n_Now_def update_conv' index_Delete_def
        split: option.splits if_splits prod.splits dest!: NewIndexForHandshake_Some)
qed


lemma ConsumeMessageInitiation_Some:
  assumes E: "aead_ok E" and ty: "mi_Type m = MessageInitiationType"
    and ss: "sharedSecret E (dv_privateKey d) (mi_Ephemeral m) = Some ss"
    and st: "mi_Static m = aead_Seal E (snd (i_keys E (mi_Ephemeral m) ss)) ZeroNonce pk (i_hash E (dv_publicKey d) (mi_Ephemeral m))"
    and pk: "LookupPeer pk d = Some p" "pr_isRunning (dv_peers d ! p)"
    and pre: "\<not> isZero (hs_precomputedStaticStatic (peer_hs p d))"
    and h1: "h1 = mixHash E (i_hash E (dv_publicKey d) (mi_Ephemeral m)) (mi_Static m)"
    and ts: "mi_Timestamp m = aead_Seal E (snd (KDF2 E (fst (i_keys E (mi_Ephemeral m) ss)) (hs_precomputedStaticStatic (peer_hs p d)))) ZeroNonce ts h1"
    and fresh: "\<not> initiation_replay ts (peer_hs p d)" "\<not> initiation_flood (dv_now d) (peer_hs p d)"
  shows "ConsumeMessageInitiation E m d = (Some p, set_hs p
    ((peer_hs p d)\<lparr>hs_hash := mixHash E h1 (mi_Timestamp m),
       hs_chainKey := fst (KDF2 E (fst (i_keys E (mi_Ephemeral m) ss)) (hs_precomputedStaticStatic (peer_hs p d))),
       hs_remoteIndex := mi_Sender m, hs_remoteEphemeral := mi_Ephemeral m, hs_lastTimestamp := ts,
       hs_lastInitiationConsumption := Some (dv_now d), hs_state := handshakeInitiationConsumed\<rparr>) d)"
proof -
  have open_ok: "aead_Open E k n (aead_Seal E k n x a) a = Some x" for k n x a using E by (simp add: aead_ok_def)
  show ?thesis
    using ty ss st pk pre ts fresh
    by (simp add: ConsumeMessageInitiation_def Let_def i_hash_def i_keys_def case_prod_beta h1 open_ok)
qed

text \<open>The keys after the second message, from the chaining key of the first.\<close>

definition r_keys :: "noise_env \<Rightarrow> byte list \<Rightarrow> byte list \<Rightarrow> byte list \<Rightarrow> byte list \<Rightarrow> byte list \<Rightarrow>
    byte list \<times> byte list \<times> byte list" where
  "r_keys E ck eph ss1 ss2 psk = KDF3 E (mixKey E (mixKey E (mixKey E ck eph) ss1) ss2) psk"

definition r_hash :: "noise_env \<Rightarrow> byte list \<Rightarrow> byte list \<Rightarrow> byte list \<Rightarrow> byte list" where
  "r_hash E hash eph tau = mixHash E (mixHash E hash eph) tau"

lemma CreateMessageResponse_SomeD:
  assumes run: "CreateMessageResponse E p d = (Some m, d')" and p: "p < length (dv_peers d)"
  defines "h \<equiv> peer_hs p d"
  shows "\<exists>sk ss1 ss2 ck tau key. hs_state h = handshakeInitiationConsumed \<and>
    sharedSecret E sk (hs_remoteEphemeral h) = Some ss1 \<and> sharedSecret E sk (hs_remoteStatic h) = Some ss2 \<and>
    r_keys E (hs_chainKey h) (publicKey E sk) ss1 ss2 (hs_presharedKey h) = (ck, tau, key) \<and>
    mr_Type m = MessageResponseType \<and> mr_Receiver m = hs_remoteIndex h \<and> mr_Ephemeral m = publicKey E sk \<and>
    mr_Empty m = aead_Seal E key ZeroNonce [] (r_hash E (hs_hash h) (publicKey E sk) tau) \<and>
    mr_MAC1 m = zeros 16 \<and> mr_MAC2 m = zeros 16 \<and>
    peer_hs p d' = h\<lparr>hs_hash := mixHash E (r_hash E (hs_hash h) (publicKey E sk) tau) (mr_Empty m),
       hs_chainKey := ck, hs_localEphemeral := sk, hs_localIndex := mr_Sender m,
       hs_state := handshakeResponseCreated\<rparr> \<and>
    map_of (dv_indexTable d') (mr_Sender m) = Some \<lparr>ie_peer = p, ie_target = ToHandshake\<rparr>"
proof -
  have st: "hs_state h = handshakeInitiationConsumed"
    using run by (auto simp: CreateMessageResponse_def Let_def h_def split: if_splits)
  obtain r d1 where n: "NewIndexForHandshake p (index_Delete (hs_localIndex h) d) = (r, d1)" by fastforce
  obtain i where r: "r = Some i"
    using run n st by (cases r) (auto simp: CreateMessageResponse_def Let_def h_def split: if_splits)
  note d1 = NewIndexForHandshake_Some [OF n [unfolded r]]
  obtain sk ok d2 where k: "newPrivateKey d1 = ((sk, ok), d2)" by (metis prod.collapse)
  obtain tape where d2: "d2 = d1\<lparr>dv_rand := tape\<rparr>" using newPrivateKey_frame [OF k] by blast
  have ok: "ok" using run k n r st by (cases ok) (simp_all add: CreateMessageResponse_def Let_def h_def)
  have l: "p < length (dv_peers d1)" using d1 p by (auto simp: index_Delete_def)
  have t: "map_of (dv_indexTable d1) i = Some \<lparr>ie_peer = p, ie_target = ToHandshake\<rparr>"
    using d1 by (auto simp: update_conv')
  show ?thesis
    by (rule exI [of _ sk], insert run k ok l n r st t)
      (auto simp: CreateMessageResponse_def Let_def hs_mixHash_def hs_mixKey_def r_hash_def r_keys_def h_def [symmetric] d2
        split: option.splits if_splits prod.splits)
qed

lemma ConsumeMessageResponse_Some:
  assumes E: "aead_ok E" and ty: "mr_Type m = MessageResponseType"
    and lk: "map_of (dv_indexTable d) (mr_Receiver m) = Some \<lparr>ie_peer = p, ie_target = ToHandshake\<rparr>"
    and st: "hs_state (peer_hs p d) = handshakeInitiationCreated"
    and ss: "sharedSecret E (hs_localEphemeral (peer_hs p d)) (mr_Ephemeral m) = Some ss1"
      "sharedSecret E (dv_privateKey d) (mr_Ephemeral m) = Some ss2"
    and k: "r_keys E (hs_chainKey (peer_hs p d)) (mr_Ephemeral m) ss1 ss2 (hs_presharedKey (peer_hs p d)) = (ck, tau, key)"
    and e: "mr_Empty m = aead_Seal E key ZeroNonce [] (r_hash E (hs_hash (peer_hs p d)) (mr_Ephemeral m) tau)"
  shows "ConsumeMessageResponse E m d = (Some p, set_hs p
    ((peer_hs p d)\<lparr>hs_hash := mixHash E (r_hash E (hs_hash (peer_hs p d)) (mr_Ephemeral m) tau) (mr_Empty m),
       hs_chainKey := ck, hs_remoteIndex := mr_Sender m, hs_state := handshakeResponseConsumed\<rparr>) d)"
proof -
  have open_ok: "aead_Open E k n (aead_Seal E k n x a) a = Some x" for k n x a using E by (simp add: aead_ok_def)
  show ?thesis
    using ty lk st ss k e
    by (simp add: ConsumeMessageResponse_def Let_def index_Lookup_def r_hash_def r_keys_def open_ok)
qed

lemma DeleteKeypair_simps [simp]:
  "dv_peers (DeleteKeypair k d) = dv_peers d" "dv_keypairs (DeleteKeypair k d) = dv_keypairs d"
  by (simp_all add: DeleteKeypair_def index_Delete_def split: option.split)

lemma upd_ks_simps [simp]:
  "length (dv_peers (upd_ks p f d)) = length (dv_peers d)" "dv_keypairs (upd_ks p f d) = dv_keypairs d"
  "dv_indexTable (upd_ks p f d) = dv_indexTable d"
  by (simp_all add: upd_ks_def)

lemma nth_upd_ks:
  "q < length (dv_peers d) \<Longrightarrow> dv_peers (upd_ks p f d) ! q =
     (if p = q then (dv_peers d ! q)\<lparr>pr_keypairs := f (pr_keypairs (dv_peers d ! q))\<rparr> else dv_peers d ! q)"
  by (simp add: upd_ks_def nth_upd_peer)

lemma SwapIndexForKeypair_simps [simp]:
  "dv_peers (SwapIndexForKeypair i k d) = dv_peers d" "dv_keypairs (SwapIndexForKeypair i k d) = dv_keypairs d"
  by (simp_all add: SwapIndexForKeypair_def split: option.split)

lemma rotate_slots:
  assumes "p < length (dv_peers d)"
  defines "ks \<equiv> pr_keypairs (dv_peers d ! p)"
  shows "dv_keypairs (rotate_keypairs p ini k d) = dv_keypairs d"
    "length (dv_peers (rotate_keypairs p ini k d)) = length (dv_peers d)"
    "dv_peers (rotate_keypairs p ini k d) ! p = (dv_peers d ! p)\<lparr>pr_keypairs :=
       (if ini then \<lparr>ks_current = Some k, ks_previous = (if ks_next ks \<noteq> None then ks_next ks else ks_current ks), ks_next = None\<rparr>
        else \<lparr>ks_current = ks_current ks, ks_previous = None, ks_next = Some k\<rparr>)\<rparr>"
    "\<And>q. q < length (dv_peers d) \<Longrightarrow> q \<noteq> p \<Longrightarrow> dv_peers (rotate_keypairs p ini k d) ! q = dv_peers d ! q"
  using assms(1) by (auto simp: rotate_keypairs_def Let_def nth_upd_ks ks_def)


text \<open>What creating a message may change: the random tape, the index table and the handshake of the peer.\<close>

definition tape_and_table :: "Device \<Rightarrow> Device \<Rightarrow> bool" where
  "tape_and_table d d' \<longleftrightarrow> (\<exists>tape table. d' = d\<lparr>dv_rand := tape, dv_indexTable := table\<rparr>)"

definition hs_frame :: "nat \<Rightarrow> Device \<Rightarrow> Device \<Rightarrow> bool" where
  "hs_frame p d d' \<longleftrightarrow> (\<exists>h d1. tape_and_table d d1 \<and> d' = set_hs p h d1)"

lemma tape_and_table_intros:
  "tape_and_table d d" "tape_and_table d (index_Delete i d)"
  "newPrivateKey d = (r, d1) \<Longrightarrow> tape_and_table d d1"
  "NewIndexForHandshake p d = (r', d1) \<Longrightarrow> tape_and_table d d1"
proof -
  have "d = d\<lparr>dv_rand := dv_rand d, dv_indexTable := dv_indexTable d\<rparr>" by simp
  then show "tape_and_table d d" unfolding tape_and_table_def by blast
  have "d\<lparr>dv_indexTable := x\<rparr> = d\<lparr>dv_rand := dv_rand d, dv_indexTable := x\<rparr>" for x by simp
  then show "tape_and_table d (index_Delete i d)" unfolding tape_and_table_def index_Delete_def by blast
  have r: "tape_and_table d (d\<lparr>dv_rand := x\<rparr>)" for x
  proof -
    have "d\<lparr>dv_rand := x\<rparr> = d\<lparr>dv_rand := x, dv_indexTable := dv_indexTable d\<rparr>" by simp
    then show ?thesis unfolding tape_and_table_def by blast
  qed
  show "newPrivateKey d = (r, d1) \<Longrightarrow> tape_and_table d d1"
    using newPrivateKey_frame r by (cases r) fastforce
  show "NewIndexForHandshake p d = (r', d1) \<Longrightarrow> tape_and_table d d1"
    using NewIndexForHandshake_Some [of p d _ d1] NewIndexForHandshake_None [of p d d1] r
    by (cases r') (auto simp: tape_and_table_def)
qed

lemma tape_and_table_trans: "\<lbrakk>tape_and_table a b; tape_and_table b c\<rbrakk> \<Longrightarrow> tape_and_table a c"
  by (clarsimp simp: tape_and_table_def) blast

lemma tape_and_table_simps:
  "tape_and_table d d' \<Longrightarrow> dv_peers d' = dv_peers d \<and> dv_keypairs d' = dv_keypairs d \<and> dv_privateKey d' = dv_privateKey d \<and>
     dv_publicKey d' = dv_publicKey d \<and> dv_keyMap d' = dv_keyMap d \<and> dv_now d' = dv_now d \<and> dv_state d' = dv_state d \<and>
     dv_sealed d' = dv_sealed d \<and> dv_accepted d' = dv_accepted d \<and> dv_allowedips d' = dv_allowedips d \<and>
     dv_tunOut d' = dv_tunOut d \<and> dv_net d' = dv_net d"
  by (auto simp: tape_and_table_def)

lemma hs_frameI: "tape_and_table d d1 \<Longrightarrow> hs_frame p d (set_hs p h d1)"
  by (auto simp: hs_frame_def)

lemma hs_frame_refl: "hs_frame p d d"
proof -
  have "set_hs p (peer_hs p d) d = d" by (simp add: set_hs_def upd_hs_def upd_peer_def peer_hs_def)
  then show ?thesis using hs_frameI [OF tape_and_table_intros(1) [of d], of p "peer_hs p d"] by simp
qed

lemma hs_frame_simps:
  "hs_frame p d d' \<Longrightarrow> length (dv_peers d') = length (dv_peers d) \<and> dv_keypairs d' = dv_keypairs d \<and>
     dv_privateKey d' = dv_privateKey d \<and> dv_publicKey d' = dv_publicKey d \<and> dv_keyMap d' = dv_keyMap d \<and>
     dv_now d' = dv_now d \<and> dv_state d' = dv_state d \<and> dv_sealed d' = dv_sealed d \<and> dv_accepted d' = dv_accepted d \<and>
     dv_allowedips d' = dv_allowedips d"
  by (auto simp: hs_frame_def dest!: tape_and_table_simps)

lemma CreateMessageInitiation_frame:
  assumes "CreateMessageInitiation E p d = (r, d')"
  shows "hs_frame p d d'"
proof -
  obtain sk ok d1 where k: "newPrivateKey d = ((sk, ok), d1)" by (metis prod.collapse)
  note d1 = tape_and_table_intros(3) [OF k]
  have d2: "tape_and_table d (snd (NewIndexForHandshake p (index_Delete i d1)))" for i
    using tape_and_table_trans [OF d1] tape_and_table_trans tape_and_table_intros(2,4) by (metis prod.collapse)
  show ?thesis
    using assms k
    by (auto simp: CreateMessageInitiation_def Let_def case_prod_beta intro!: hs_frameI d1 d2
        split: option.splits if_splits prod.splits)
qed

lemma CreateMessageResponse_frame:
  assumes "CreateMessageResponse E p d = (r, d')"
  shows "hs_frame p d d'"
proof -
  let ?i = "hs_localIndex (peer_hs p d)"
  obtain i d1 where n: "NewIndexForHandshake p (index_Delete ?i d) = (i, d1)" by fastforce
  have d1: "tape_and_table d d1" using tape_and_table_trans tape_and_table_intros(2) tape_and_table_intros(4) [OF n] by blast
  obtain sk ok d2 where k: "newPrivateKey d1 = ((sk, ok), d2)" by (metis prod.collapse)
  have d2: "tape_and_table d d2" using tape_and_table_trans d1 tape_and_table_intros(3) [OF k] by blast
  show ?thesis
    using assms n k
    by (cases i) (auto simp: CreateMessageResponse_def Let_def case_prod_beta intro!: hs_frameI hs_frame_refl d1 d2
        split: option.splits if_splits)
qed

section \<open>Agreement\<close>

text \<open>Device d knows device d' as its running peer p.\<close>

definition knows_peer :: "noise_env \<Rightarrow> Device \<Rightarrow> nat \<Rightarrow> Device \<Rightarrow> bool" where
  "knows_peer E d p d' \<longleftrightarrow>
     p < length (dv_peers d) \<and> dv_publicKey d = publicKey E (dv_privateKey d) \<and>
     hs_remoteStatic (peer_hs p d) = dv_publicKey d' \<and>
     hs_precomputedStaticStatic (peer_hs p d) = ScalarMult E (dv_privateKey d) (dv_publicKey d') \<and>
     LookupPeer (dv_publicKey d') d = Some p \<and> pr_isRunning (dv_peers d ! p)"

text \<open>Two keypairs that are the two ends of one session.\<close>

definition mirrored :: "Keypair \<Rightarrow> Keypair \<Rightarrow> bool" where
  "mirrored a b \<longleftrightarrow> kp_send a = kp_receive b \<and> kp_receive a = kp_send b \<and>
     kp_localIndex a = kp_remoteIndex b \<and> kp_remoteIndex a = kp_localIndex b \<and>
     kp_isInitiator a \<noteq> kp_isInitiator b \<and> kp_sendNonce a = 0 \<and> kp_sendNonce b = 0"

lemma BeginSymmetricSession_True:
  fixes E :: noise_env
  assumes "p < length (dv_peers d)" "hs_state (peer_hs p d) = (if ini then handshakeResponseConsumed else handshakeResponseCreated)"
  defines "k \<equiv> length (dv_keypairs d)"
    and "keys \<equiv> KDF2 E (hs_chainKey (peer_hs p d)) []"
  shows "\<exists>d'. BeginSymmetricSession E p d = (True, d') \<and> length (dv_keypairs d') = Suc k \<and>
    dv_keypairs d' ! k = \<lparr>kp_sendNonce = 0, kp_send = (if ini then fst keys else snd keys),
      kp_receive = (if ini then snd keys else fst keys), kp_replayFilter = Filter_Reset Filter0, kp_isInitiator = ini,
      kp_created = dv_now d, kp_localIndex = hs_localIndex (peer_hs p d), kp_remoteIndex = hs_remoteIndex (peer_hs p d)\<rparr> \<and>
    (if ini then ks_current else ks_next) (pr_keypairs (dv_peers d' ! p)) = Some k"
proof -
  have st: "hs_state (peer_hs p d) = handshakeResponseConsumed \<longleftrightarrow> ini"
    "hs_state (peer_hs p d) = handshakeResponseConsumed \<or> hs_state (peer_hs p d) = handshakeResponseCreated"
    using assms(2) by auto
  define d1 where "d1 = set_hs p ((peer_hs p d)\<lparr>hs_chainKey := setZero (hs_chainKey (peer_hs p d)),
      hs_hash := setZero (hs_hash (peer_hs p d)), hs_localEphemeral := setZero (hs_localEphemeral (peer_hs p d)),
      hs_state := handshakeZeroed, hs_localIndex := 0\<rparr>)
    (SwapIndexForKeypair (hs_localIndex (peer_hs p d)) k
      (d\<lparr>dv_keypairs := dv_keypairs d @ [\<lparr>kp_sendNonce = 0, kp_send = (if ini then fst keys else snd keys),
        kp_receive = (if ini then snd keys else fst keys), kp_replayFilter = Filter_Reset Filter0, kp_isInitiator = ini,
        kp_created = dv_now d, kp_localIndex = hs_localIndex (peer_hs p d), kp_remoteIndex = hs_remoteIndex (peer_hs p d)\<rparr>]\<rparr>))"
  have "BeginSymmetricSession E p d = (True, rotate_keypairs p ini k d1)"
    using st by (cases ini) (simp_all add: BeginSymmetricSession_def Let_def case_prod_beta d1_def keys_def k_def)
  moreover have "p < length (dv_peers d1)" using assms(1) by (simp add: d1_def)
  moreover have "dv_keypairs d1 = dv_keypairs d @ [\<lparr>kp_sendNonce = 0, kp_send = (if ini then fst keys else snd keys),
        kp_receive = (if ini then snd keys else fst keys), kp_replayFilter = Filter_Reset Filter0, kp_isInitiator = ini,
        kp_created = dv_now d, kp_localIndex = hs_localIndex (peer_hs p d), kp_remoteIndex = hs_remoteIndex (peer_hs p d)\<rparr>]"
    by (simp add: d1_def)
  ultimately show ?thesis by (simp add: rotate_slots k_def nth_append)
qed


text \<open>The responder's view of an initiation it has consumed.\<close>

definition responds_to :: "noise_env \<Rightarrow> Handshake \<Rightarrow> Handshake \<Rightarrow> bool" where
  "responds_to E hB hA \<longleftrightarrow> hs_hash hB = hs_hash hA \<and> hs_chainKey hB = hs_chainKey hA \<and>
     hs_remoteIndex hB = hs_localIndex hA \<and> hs_remoteEphemeral hB = publicKey E (hs_localEphemeral hA) \<and>
     hs_presharedKey hB = hs_presharedKey hA \<and> hs_state hA = handshakeInitiationCreated"

lemma dh_shared:
  assumes "dh_agrees E"
  shows "ScalarMult E a (publicKey E b) = ScalarMult E b (publicKey E a)"
    "sharedSecret E a (publicKey E b) = sharedSecret E b (publicKey E a)"
  using assms by (simp_all add: dh_agrees_def publicKey_def sharedSecret_def)

lemma initiation_consumed:
  assumes E: "aead_ok E" "dh_agrees E" and A: "knows_peer E A pa B" and B: "knows_peer E B pb A"
    and psk: "hs_presharedKey (peer_hs pa A) = hs_presharedKey (peer_hs pb B)"
    and fresh: "\<not> initiation_replay (tai64n_Now A) (peer_hs pb B)" "\<not> initiation_flood (dv_now B) (peer_hs pb B)"
    and m1: "CreateMessageInitiation E pa A = (Some m, A1)"
  shows "\<exists>h. ConsumeMessageInitiation E (m\<lparr>mi_MAC1 := x, mi_MAC2 := y\<rparr>) B = (Some pb, set_hs pb h B) \<and>
    responds_to E h (peer_hs pa A1) \<and> hs_remoteStatic h = dv_publicKey A \<and>
    map_of (dv_indexTable A1) (hs_localIndex (peer_hs pa A1)) = Some \<lparr>ie_peer = pa, ie_target = ToHandshake\<rparr>"
proof -
  let ?hA = "peer_hs pa A" and ?hB = "peer_hs pb B" and ?m = "m\<lparr>mi_MAC1 := x, mi_MAC2 := y\<rparr>"
  have a: "pa < length (dv_peers A)" "dv_publicKey A = publicKey E (dv_privateKey A)"
    "hs_remoteStatic ?hA = dv_publicKey B" "hs_precomputedStaticStatic ?hA = ScalarMult E (dv_privateKey A) (dv_publicKey B)"
    using A by (simp_all add: knows_peer_def)
  have b: "dv_publicKey B = publicKey E (dv_privateKey B)" "hs_remoteStatic ?hB = dv_publicKey A"
    "hs_precomputedStaticStatic ?hB = ScalarMult E (dv_privateKey B) (dv_publicKey A)"
    "LookupPeer (dv_publicKey A) B = Some pb" "pr_isRunning (dv_peers B ! pb)"
    using B by (simp_all add: knows_peer_def)
  have pre: "hs_precomputedStaticStatic ?hB = hs_precomputedStaticStatic ?hA"
    using a b dh_shared [OF E(2)] by simp
  obtain sk ss where i: "sharedSecret E sk (hs_remoteStatic ?hA) = Some ss" "\<not> isZero (hs_precomputedStaticStatic ?hA)"
    "mi_Type m = MessageInitiationType" "mi_Ephemeral m = publicKey E sk"
    "mi_Static m = aead_Seal E (snd (i_keys E (publicKey E sk) ss)) ZeroNonce (dv_publicKey A)
      (i_hash E (hs_remoteStatic ?hA) (publicKey E sk))"
    "mi_Timestamp m = aead_Seal E (snd (KDF2 E (fst (i_keys E (publicKey E sk) ss)) (hs_precomputedStaticStatic ?hA)))
      ZeroNonce (tai64n_Now A) (mixHash E (i_hash E (hs_remoteStatic ?hA) (publicKey E sk)) (mi_Static m))"
    "peer_hs pa A1 = ?hA\<lparr>hs_hash := mixHash E (mixHash E (i_hash E (hs_remoteStatic ?hA) (publicKey E sk)) (mi_Static m)) (mi_Timestamp m),
       hs_chainKey := fst (KDF2 E (fst (i_keys E (publicKey E sk) ss)) (hs_precomputedStaticStatic ?hA)),
       hs_localEphemeral := sk, hs_localIndex := mi_Sender m, hs_state := handshakeInitiationCreated\<rparr>"
    "map_of (dv_indexTable A1) (mi_Sender m) = Some \<lparr>ie_peer = pa, ie_target = ToHandshake\<rparr>"
    using CreateMessageInitiation_SomeD [OF m1 a(1)] by blast
  have "sharedSecret E (dv_privateKey B) (mi_Ephemeral ?m) = Some ss"
    using i(1,4) a(3) b(1) dh_shared(2) [OF E(2)] by simp
  note c = ConsumeMessageInitiation_Some [OF E(1) _ this _ b(4,5) _ refl _ fresh]
  show ?thesis
    by (rule exI, rule conjI, rule c) (use i pre psk b(2) a(3) in \<open>simp_all add: responds_to_def\<close>)
qed

lemma response_consumed:
  assumes E: "aead_ok E" "dh_agrees E" and pb: "pb < length (dv_peers B1)"
    and hB: "responds_to E (peer_hs pb B1) (peer_hs pa A1)" "hs_remoteStatic (peer_hs pb B1) = publicKey E (dv_privateKey A1)"
    and ix: "map_of (dv_indexTable A1) (hs_localIndex (peer_hs pa A1)) = Some \<lparr>ie_peer = pa, ie_target = ToHandshake\<rparr>"
    and m2: "CreateMessageResponse E pb B1 = (Some m, B2)"
  shows "\<exists>h. ConsumeMessageResponse E (m\<lparr>mr_MAC1 := x, mr_MAC2 := y\<rparr>) A1 = (Some pa, set_hs pa h A1) \<and>
    hs_state h = handshakeResponseConsumed \<and> hs_state (peer_hs pb B2) = handshakeResponseCreated \<and>
    hs_chainKey h = hs_chainKey (peer_hs pb B2) \<and> hs_localIndex h = hs_remoteIndex (peer_hs pb B2) \<and>
    hs_remoteIndex h = hs_localIndex (peer_hs pb B2)"
proof -
  let ?hA = "peer_hs pa A1" and ?hB = "peer_hs pb B1" and ?m = "m\<lparr>mr_MAC1 := x, mr_MAC2 := y\<rparr>"
  obtain sk ss1 ss2 ck tau key where q:
    "sharedSecret E sk (hs_remoteEphemeral ?hB) = Some ss1" "sharedSecret E sk (hs_remoteStatic ?hB) = Some ss2"
    "r_keys E (hs_chainKey ?hB) (publicKey E sk) ss1 ss2 (hs_presharedKey ?hB) = (ck, tau, key)"
    "mr_Type m = MessageResponseType" "mr_Receiver m = hs_remoteIndex ?hB" "mr_Ephemeral m = publicKey E sk"
    "mr_Empty m = aead_Seal E key ZeroNonce [] (r_hash E (hs_hash ?hB) (publicKey E sk) tau)"
    "peer_hs pb B2 = ?hB\<lparr>hs_hash := mixHash E (r_hash E (hs_hash ?hB) (publicKey E sk) tau) (mr_Empty m),
       hs_chainKey := ck, hs_localEphemeral := sk, hs_localIndex := mr_Sender m, hs_state := handshakeResponseCreated\<rparr>"
    using CreateMessageResponse_SomeD [OF m2 pb] by blast
  have "sharedSecret E (hs_localEphemeral ?hA) (mr_Ephemeral ?m) = Some ss1"
    "sharedSecret E (dv_privateKey A1) (mr_Ephemeral ?m) = Some ss2"
    using q(1,2,6) hB dh_shared(2) [OF E(2)] by (simp_all add: responds_to_def)
  note c = ConsumeMessageResponse_Some [OF E(1) _ _ _ this]
  have "ConsumeMessageResponse E ?m A1 = (Some pa, set_hs pa
    (?hA\<lparr>hs_hash := mixHash E (r_hash E (hs_hash ?hA) (mr_Ephemeral ?m) tau) (mr_Empty ?m),
       hs_chainKey := ck, hs_remoteIndex := mr_Sender ?m, hs_state := handshakeResponseConsumed\<rparr>) A1)"
    by (rule c [where key = key]) (use q hB ix in \<open>simp_all add: responds_to_def\<close>)
  note cm = this
  show ?thesis
    by (rule exI, rule conjI, rule cm) (use q(8) hB(1) in \<open>simp add: responds_to_def\<close>)
qed

lemma sessions_mirror:
  assumes "p < length (dv_peers A)" "hs_state (peer_hs p A) = handshakeResponseConsumed"
    "q < length (dv_peers B)" "hs_state (peer_hs q B) = handshakeResponseCreated"
    "hs_chainKey (peer_hs p A) = hs_chainKey (peer_hs q B)" "hs_localIndex (peer_hs p A) = hs_remoteIndex (peer_hs q B)"
    "hs_remoteIndex (peer_hs p A) = hs_localIndex (peer_hs q B)"
  shows "\<exists>A' B' ka kb. BeginSymmetricSession E p A = (True, A') \<and> BeginSymmetricSession E q B = (True, B') \<and>
       ks_current (pr_keypairs (dv_peers A' ! p)) = Some ka \<and> ks_next (pr_keypairs (dv_peers B' ! q)) = Some kb \<and>
       ka < length (dv_keypairs A') \<and> kb < length (dv_keypairs B') \<and>
       mirrored (dv_keypairs A' ! ka) (dv_keypairs B' ! kb) \<and> kp_isInitiator (dv_keypairs A' ! ka)"
  using BeginSymmetricSession_True [of p A True E] BeginSymmetricSession_True [of q B False E] assms
  by (auto simp: mirrored_def)

end
