(* ===== verification/Device_Send.thy ===== *)
theory Device_Send
  imports Noise_Agree
begin

text \<open>
  The sending side of the device (wireguard/device/send.go, peer.go, timers.go):
  timers, the endpoint of a peer, handshake messages, staging, nonces and
  encryption.  A container handed to the encryption queue is encrypted at once;
  its worker only makes it available to the sequential sender.
\<close>

section \<open>Timers\<close>

definition millisecond :: int where "millisecond = 1000000"

definition fastrandn :: "nat \<Rightarrow> Device \<Rightarrow> nat \<times> Device" where
  "fastrandn n d = (case dv_jitter d of [] \<Rightarrow> (0, d) | j # js \<Rightarrow> (j mod n, d\<lparr>dv_jitter := js\<rparr>))"

definition timersActive :: "nat \<Rightarrow> Device \<Rightarrow> bool" where
  "timersActive p d = (pr_isRunning (dv_peers d ! p) \<and> isUp d)"

definition timersDataSent :: "nat \<Rightarrow> Device \<Rightarrow> Device" where
  "timersDataSent p d =
     (if timersActive p d \<and> tm_newHandshake (pr_timers (dv_peers d ! p)) = None
      then let (j, d) = fastrandn RekeyTimeoutJitterMaxMs d
           in upd_tm p (\<lambda>t. t\<lparr>tm_newHandshake := Some (dv_now d + KeepaliveTimeout + RekeyTimeout + millisecond * int j)\<rparr>) d
      else d)"

definition timersDataReceived :: "nat \<Rightarrow> Device \<Rightarrow> Device" where
  "timersDataReceived p d =
     (if timersActive p d
      then if tm_sendKeepalive (pr_timers (dv_peers d ! p)) = None
           then upd_tm p (\<lambda>t. t\<lparr>tm_sendKeepalive := Some (dv_now d + KeepaliveTimeout)\<rparr>) d
           else upd_tm p (\<lambda>t. t\<lparr>tm_needAnotherKeepalive := True\<rparr>) d
      else d)"

definition timersAnyAuthenticatedPacketSent :: "nat \<Rightarrow> Device \<Rightarrow> Device" where
  "timersAnyAuthenticatedPacketSent p d =
     (if timersActive p d then upd_tm p (\<lambda>t. t\<lparr>tm_sendKeepalive := None\<rparr>) d else d)"

definition timersAnyAuthenticatedPacketReceived :: "nat \<Rightarrow> Device \<Rightarrow> Device" where
  "timersAnyAuthenticatedPacketReceived p d =
     (if timersActive p d then upd_tm p (\<lambda>t. t\<lparr>tm_newHandshake := None\<rparr>) d else d)"

definition timersHandshakeInitiated :: "nat \<Rightarrow> Device \<Rightarrow> Device" where
  "timersHandshakeInitiated p d =
     (if timersActive p d
      then let (j, d) = fastrandn RekeyTimeoutJitterMaxMs d
           in upd_tm p (\<lambda>t. t\<lparr>tm_retransmitHandshake := Some (dv_now d + RekeyTimeout + millisecond * int j)\<rparr>) d
      else d)"

definition timersHandshakeComplete :: "nat \<Rightarrow> Device \<Rightarrow> Device" where
  "timersHandshakeComplete p d =
     (let d = (if timersActive p d then upd_tm p (\<lambda>t. t\<lparr>tm_retransmitHandshake := None\<rparr>) d else d);
          d = upd_tm p (\<lambda>t. t\<lparr>tm_handshakeAttempts := 0, tm_sentLastMinuteHandshake := False\<rparr>) d
      in upd_peer p (\<lambda>r. r\<lparr>pr_lastHandshakeNano := dv_now d\<rparr>) d)"

definition timersSessionDerived :: "nat \<Rightarrow> Device \<Rightarrow> Device" where
  "timersSessionDerived p d =
     (if timersActive p d then upd_tm p (\<lambda>t. t\<lparr>tm_zeroKeyMaterial := Some (dv_now d + RejectAfterTime * 3)\<rparr>) d else d)"

definition timersAnyAuthenticatedPacketTraversal :: "nat \<Rightarrow> Device \<Rightarrow> Device" where
  "timersAnyAuthenticatedPacketTraversal p d =
     (let keepalive = pr_persistentKeepaliveInterval (dv_peers d ! p)
      in if keepalive > 0 \<and> timersActive p d
         then upd_tm p (\<lambda>t. t\<lparr>tm_persistentKeepalive := Some (dv_now d + int keepalive * second)\<rparr>) d
         else d)"

definition timersStart :: "nat \<Rightarrow> Device \<Rightarrow> Device" where
  "timersStart p = upd_tm p (\<lambda>t. t\<lparr>tm_handshakeAttempts := 0, tm_sentLastMinuteHandshake := False,
     tm_needAnotherKeepalive := False\<rparr>)"

definition timersStop :: "nat \<Rightarrow> Device \<Rightarrow> Device" where
  "timersStop p = upd_tm p (\<lambda>t. t\<lparr>tm_retransmitHandshake := None, tm_sendKeepalive := None, tm_newHandshake := None,
     tm_zeroKeyMaterial := None, tm_persistentKeepalive := None\<rparr>)"

section \<open>Endpoints\<close>

definition clearEndpoint :: "nat \<Rightarrow> Device \<Rightarrow> Device" where
  "clearEndpoint p = upd_peer p (\<lambda>r. r\<lparr>pr_endpoint := None, pr_clearSrcOnTx := False\<rparr>)"

definition SetEndpointFromPacket :: "TCPEndpoint \<Rightarrow> nat \<Rightarrow> Device \<Rightarrow> Device" where
  "SetEndpointFromPacket endpoint p d =
     (if pr_disableRoaming (dv_peers d ! p) then d
      else upd_peer p (\<lambda>r. r\<lparr>pr_clearSrcOnTx := False, pr_endpoint := Some endpoint\<rparr>) d)"

definition markEndpointSrcForClearing :: "nat \<Rightarrow> Device \<Rightarrow> Device" where
  "markEndpointSrcForClearing p d =
     (if pr_endpoint (dv_peers d ! p) = None then d else upd_peer p (\<lambda>r. r\<lparr>pr_clearSrcOnTx := True\<rparr>) d)"

definition ClearSrc :: "TCPEndpoint \<Rightarrow> TCPEndpoint" where
  "ClearSrc e = e\<lparr>ep_src := \<lparr>ap_Addr = AddrZero, ap_Port = 0\<rparr>\<rparr>"

text \<open>SendBuffers; the result says whether the error is nil.\<close>

definition SendBuffers :: "nat \<Rightarrow> byte list list \<Rightarrow> Device \<Rightarrow> bool \<times> Device" where
  "SendBuffers p buffers d =
     (if isClosed d \<or> \<not> pr_isRunning (dv_peers d ! p) then (True, d)
      else case pr_endpoint (dv_peers d ! p) of
        None \<Rightarrow> (False, d)
      | Some endpoint \<Rightarrow>
          (let endpoint = (if pr_clearSrcOnTx (dv_peers d ! p) then ClearSrc endpoint else endpoint);
               d = upd_peer p (\<lambda>r. r\<lparr>pr_endpoint := Some endpoint, pr_clearSrcOnTx := False\<rparr>) d;
               result = (case dv_sendq d of [] \<Rightarrow> SendError | x # _ \<Rightarrow> x);
               d = d\<lparr>dv_sendq := tl (dv_sendq d)\<rparr>
           in case result of
                SendOK \<Rightarrow> (True, upd_peer p (\<lambda>r. r\<lparr>pr_txBytes := pr_txBytes r + of_nat (sum_list (map length buffers))\<rparr>)
                                   (d\<lparr>dv_net := dv_net d @ [(endpoint, buffers)]\<rparr>))
              | SendError \<Rightarrow> (False, d)
              | SendWaitingInbound \<Rightarrow> (False, clearEndpoint p d)))"

section \<open>Handshake messages\<close>

definition stamp_packet :: "noise_env \<Rightarrow> nat \<Rightarrow> byte list \<Rightarrow> Device \<Rightarrow> byte list \<times> Device" where
  "stamp_packet E p packet d =
     (let (packet, g) = AddMacs E packet (dv_now d) (pr_cookieGenerator (dv_peers d ! p))
      in (packet, upd_peer p (\<lambda>r. r\<lparr>pr_cookieGenerator := g\<rparr>) d))"

definition SendHandshakeInitiation :: "noise_env \<Rightarrow> bool \<Rightarrow> nat \<Rightarrow> Device \<Rightarrow> Device" where
  "SendHandshakeInitiation E isRetry p d =
     (let d = (if \<not> isRetry then upd_tm p (\<lambda>t. t\<lparr>tm_handshakeAttempts := 0\<rparr>) d else d)
      in if dv_now d - hs_lastSentHandshake (peer_hs p d) < RekeyTimeout then d
      else let d = upd_hs p (\<lambda>h. h\<lparr>hs_lastSentHandshake := dv_now d\<rparr>) d
           in case CreateMessageInitiation E p d of
                (None, d) \<Rightarrow> d
              | (Some msg, d) \<Rightarrow>
                  (let packet = (case mi_marshal msg (zeros MessageInitiationSize) of None \<Rightarrow> zeros MessageInitiationSize | Some b \<Rightarrow> b);
                       (packet, d) = stamp_packet E p packet d;
                       d = timersAnyAuthenticatedPacketTraversal p d;
                       d = timersAnyAuthenticatedPacketSent p d;
                       (ok, d) = SendBuffers p [packet] d
                   in if \<not> ok
                      then upd_hs p (\<lambda>h. h\<lparr>hs_lastSentHandshake := dv_now d - (RekeyTimeout + second)\<rparr>) d
                      else timersHandshakeInitiated p d))"

definition SendHandshakeResponse :: "noise_env \<Rightarrow> nat \<Rightarrow> Device \<Rightarrow> Device" where
  "SendHandshakeResponse E p d =
     (let d = upd_hs p (\<lambda>h. h\<lparr>hs_lastSentHandshake := dv_now d\<rparr>) d
      in case CreateMessageResponse E p d of
           (None, d) \<Rightarrow> d
         | (Some response, d) \<Rightarrow>
             (let packet = (case mr_marshal response (zeros MessageResponseSize) of None \<Rightarrow> zeros MessageResponseSize | Some b \<Rightarrow> b);
                  (packet, d) = stamp_packet E p packet d;
                  (ok, d) = BeginSymmetricSession E p d
              in if \<not> ok then d
                 else let d = timersSessionDerived p d;
                          d = timersAnyAuthenticatedPacketTraversal p d;
                          d = timersAnyAuthenticatedPacketSent p d
                      in snd (SendBuffers p [packet] d)))"

section \<open>Transport packets\<close>

definition calculatePaddingSize :: "int \<Rightarrow> int \<Rightarrow> int" where
  "calculatePaddingSize packetSize mtu =
     (let lastUnit = packetSize
      in if mtu = 0 then ((lastUnit + int PaddingMultiple - 1) AND NOT (int PaddingMultiple - 1)) - lastUnit
      else let lastUnit = (if lastUnit > mtu then lastUnit mod mtu else lastUnit);
               paddedSize = (lastUnit + int PaddingMultiple - 1) AND NOT (int PaddingMultiple - 1);
               paddedSize = (if paddedSize > mtu then mtu else paddedSize)
           in paddedSize - lastUnit)"

definition transport_nonce :: "64 word \<Rightarrow> byte list" where
  "transport_nonce n = zeros 4 @ le_put n"

definition encrypt_packet :: "noise_env \<Rightarrow> nat \<Rightarrow> Keypair \<Rightarrow> 64 word \<Rightarrow> byte list \<Rightarrow> byte list" where
  "encrypt_packet E mtu keypair nonce packet =
     (let header = le_put MessageTransportType @ le_put (kp_remoteIndex keypair) @ le_put nonce;
          paddingSize = calculatePaddingSize (int (length packet)) (int mtu);
          packet = packet @ zeros (nat paddingSize)
      in header @ aead_Seal E (kp_send keypair) (transport_nonce nonce) packet [])"

text \<open>The nonces of a container: sendNonce.Add(1) - 1 for each element, the exhausted ones set aside.\<close>

fun assign_nonces :: "nat \<Rightarrow> byte list list \<Rightarrow> Device \<Rightarrow> ((byte list \<times> 64 word) list \<times> byte list list) \<times> Device" where
  "assign_nonces k [] d = (([], []), d)"
| "assign_nonces k (x # xs) d =
     (let n = kp_sendNonce (dv_keypairs d ! k)
      in if n + 1 - 1 \<ge> RejectAfterMessages
         then let ((kept, ooo), d) = assign_nonces k xs (upd_kp k (\<lambda>kp. kp\<lparr>kp_sendNonce := RejectAfterMessages\<rparr>) d)
              in ((kept, x # ooo), d)
         else let ((kept, ooo), d) = assign_nonces k xs (upd_kp k (\<lambda>kp. kp\<lparr>kp_sendNonce := n + 1\<rparr>) d)
              in (((x, n) # kept, ooo), d))"

definition StagePackets :: "nat \<Rightarrow> byte list list \<Rightarrow> Device \<Rightarrow> Device" where
  "StagePackets p elems =
     upd_peer p (\<lambda>r. r\<lparr>pr_staged := (if length (pr_staged r) < QueueStagedSize then pr_staged r else tl (pr_staged r)) @ [elems]\<rparr>)"

definition FlushStagedPackets :: "nat \<Rightarrow> Device \<Rightarrow> Device" where
  "FlushStagedPackets p = upd_peer p (\<lambda>r. r\<lparr>pr_staged := []\<rparr>)"

text \<open>A container of encrypted packets queued for the sequential sender.\<close>

definition queue_outbound :: "noise_env \<Rightarrow> nat \<Rightarrow> nat \<Rightarrow> (byte list \<times> 64 word) list \<Rightarrow> Device \<Rightarrow> Device" where
  "queue_outbound E p k elems d =
     (if pr_isRunning (dv_peers d ! p)
      then upd_peer p (\<lambda>r. r\<lparr>pr_outbound := pr_outbound r @
               [map (\<lambda>(x, n). encrypt_packet E (dv_mtu d) (dv_keypairs d ! k) n x) elems]\<rparr>)
             (d\<lparr>dv_sealed := dv_sealed d @ map (\<lambda>(x, n). (k, n)) elems\<rparr>)
      else d)"

text \<open>The keypairs that still have nonces: the loop exhausts at most each of them once.\<close>

definition live_keypairs :: "Device \<Rightarrow> nat" where
  "live_keypairs d = length (filter (\<lambda>kp. kp_sendNonce kp < RejectAfterMessages) (dv_keypairs d))"

lemma length_filter_nth:
  assumes "k < length xs"
  shows "length (filter P xs) =
    length (filter P (take k xs)) + (if P (xs ! k) then 1 else 0) + length (filter P (drop (Suc k) xs))"
proof -
  have "length (filter P xs) = length (filter P (take k xs @ xs ! k # drop (Suc k) xs))"
    by (simp only: id_take_nth_drop [OF assms, symmetric])
  then show ?thesis by simp
qed

lemma length_filter_update:
  assumes "k < length xs" and "\<not> P y"
  shows "length (filter P (xs[k := y])) \<le> length (filter P xs)"
    and "P (xs ! k) \<Longrightarrow> length (filter P (xs[k := y])) < length (filter P xs)"
  using assms by (simp_all add: upd_conv_take_nth_drop length_filter_nth [OF assms(1), of P])

lemma length_filter_update_same:
  assumes "k < length xs" and "P y" and "P (xs ! k)"
  shows "length (filter P (xs[k := y])) = length (filter P xs)"
  using assms by (simp add: upd_conv_take_nth_drop length_filter_nth [OF assms(1), of P])

lemma upd_kp_simps [simp]:
  "dv_peers (upd_kp k f d) = dv_peers d" "length (dv_keypairs (upd_kp k f d)) = length (dv_keypairs d)"
  "dv_state (upd_kp k f d) = dv_state d" "dv_now (upd_kp k f d) = dv_now d" "dv_mtu (upd_kp k f d) = dv_mtu d"
  "dv_sealed (upd_kp k f d) = dv_sealed d" "dv_indexTable (upd_kp k f d) = dv_indexTable d"
  "dv_keyMap (upd_kp k f d) = dv_keyMap d"
  by (simp_all add: upd_kp_def)

lemma upd_kp_out: "\<not> k < length (dv_keypairs d) \<Longrightarrow> upd_kp k f d = d"
  by (simp add: upd_kp_def list_update_beyond)

lemma live_exhaust:
  assumes "k < length (dv_keypairs d)"
  shows "live_keypairs (upd_kp k (\<lambda>kp. kp\<lparr>kp_sendNonce := RejectAfterMessages\<rparr>) d) \<le> live_keypairs d"
    and "kp_sendNonce (dv_keypairs d ! k) < RejectAfterMessages \<Longrightarrow>
       live_keypairs (upd_kp k (\<lambda>kp. kp\<lparr>kp_sendNonce := RejectAfterMessages\<rparr>) d) < live_keypairs d"
  using assms by (auto simp: live_keypairs_def upd_kp_def intro!: length_filter_update)

lemma live_step:
  assumes "kp_sendNonce (dv_keypairs d ! k) < RejectAfterMessages"
  shows "live_keypairs (upd_kp k (\<lambda>kp. kp\<lparr>kp_sendNonce := n\<rparr>) d) \<le> live_keypairs d"
proof (cases "k < length (dv_keypairs d)")
  case True
  then show ?thesis
    using assms length_filter_update(1) [of k "dv_keypairs d" "\<lambda>kp. kp_sendNonce kp < RejectAfterMessages"]
      length_filter_update_same [of k "dv_keypairs d" "\<lambda>kp. kp_sendNonce kp < RejectAfterMessages"]
    by (cases "n < RejectAfterMessages") (simp_all add: live_keypairs_def upd_kp_def)
qed (simp add: upd_kp_out)

lemma assign_nonces_frame [simp]:
  "dv_peers (snd (assign_nonces k xs d)) = dv_peers d"
  "length (dv_keypairs (snd (assign_nonces k xs d))) = length (dv_keypairs d)"
  by (induction k xs d rule: assign_nonces.induct) (simp_all add: Let_def case_prod_unfold)

lemma assign_nonces_exhausted:
  assumes "RejectAfterMessages \<le> kp_sendNonce (dv_keypairs d ! k)"
  shows "fst (assign_nonces k xs d) = ([], xs)" and "live_keypairs (snd (assign_nonces k xs d)) \<le> live_keypairs d"
proof -
  let ?u = "upd_kp k (\<lambda>kp. kp\<lparr>kp_sendNonce := RejectAfterMessages\<rparr>)"
  have "fst (assign_nonces k xs d) = ([], xs) \<and> live_keypairs (snd (assign_nonces k xs d)) \<le> live_keypairs d"
    using assms
  proof (induction xs arbitrary: d)
    case (Cons x xs)
    have "RejectAfterMessages \<le> kp_sendNonce (dv_keypairs (?u d) ! k)" and "live_keypairs (?u d) \<le> live_keypairs d"
      using Cons.prems live_exhaust(1) [of k d]
      by (cases "k < length (dv_keypairs d)"; simp add: upd_kp_def list_update_beyond)+
    then show ?case
      using Cons.prems Cons.IH [of "?u d"] by (simp add: Let_def case_prod_unfold)
  qed simp
  then show "fst (assign_nonces k xs d) = ([], xs)" and "live_keypairs (snd (assign_nonces k xs d)) \<le> live_keypairs d"
    by auto
qed

lemma assign_nonces_live:
  assumes "kp_sendNonce (dv_keypairs d ! k) < RejectAfterMessages"
  shows "live_keypairs (snd (assign_nonces k xs d)) \<le> live_keypairs d"
    and "snd (fst (assign_nonces k xs d)) \<noteq> [] \<Longrightarrow> live_keypairs (snd (assign_nonces k xs d)) < live_keypairs d"
proof -
  let ?r = "\<lambda>xs d. assign_nonces k xs d"
  have "live_keypairs (snd (?r xs d)) \<le> live_keypairs d \<and>
      (snd (fst (?r xs d)) \<noteq> [] \<longrightarrow> live_keypairs (snd (?r xs d)) < live_keypairs d)"
    using assms
  proof (induction xs arbitrary: d)
    case (Cons x xs)
    let ?n = "kp_sendNonce (dv_keypairs d ! k)"
    let ?d = "upd_kp k (\<lambda>kp. kp\<lparr>kp_sendNonce := ?n + 1\<rparr>) d"
    have step: "?r (x # xs) d = (((x, ?n) # fst (fst (?r xs ?d)), snd (fst (?r xs ?d))), snd (?r xs ?d))"
      using Cons.prems by (simp add: Let_def case_prod_unfold not_le [symmetric])
    have l: "live_keypairs ?d \<le> live_keypairs d"
      using Cons.prems by (rule live_step)
    show ?case
    proof (cases "kp_sendNonce (dv_keypairs ?d ! k) < RejectAfterMessages")
      case True
      from Cons.IH [OF this] l show ?thesis by (auto simp only: step fst_conv snd_conv)
    next
      case False
      then have k: "k < length (dv_keypairs d)"
        using Cons.prems by (auto intro: ccontr simp: upd_kp_out)
      have "live_keypairs ?d < live_keypairs d"
        using False k Cons.prems length_filter_update(2) [of k "dv_keypairs d" "\<lambda>kp. kp_sendNonce kp < RejectAfterMessages"]
        by (simp add: live_keypairs_def upd_kp_def)
      moreover have "live_keypairs (snd (?r xs ?d)) \<le> live_keypairs ?d"
        using False by (intro assign_nonces_exhausted(2)) simp
      ultimately show ?thesis
        by (simp only: step fst_conv snd_conv) simp
    qed
  qed simp
  then show "live_keypairs (snd (?r xs d)) \<le> live_keypairs d"
    and "snd (fst (?r xs d)) \<noteq> [] \<Longrightarrow> live_keypairs (snd (?r xs d)) < live_keypairs d"
    by auto
qed

definition staged_rank :: "nat option \<Rightarrow> Device \<Rightarrow> nat" where
  "staged_rank at d = (case at of None \<Rightarrow> 1
     | Some k \<Rightarrow> if kp_sendNonce (dv_keypairs d ! k) < RejectAfterMessages then 0 else 2)"

lemma peers_keypairs_simps [simp]:
  "live_keypairs (upd_peer p f d) = live_keypairs d"
  "live_keypairs (StagePackets p x d) = live_keypairs d" "live_keypairs (queue_outbound E p k xs d) = live_keypairs d"
  "length (pr_staged (dv_peers (queue_outbound E p k xs d) ! p)) = length (pr_staged (dv_peers d ! p))"
  by (simp_all add: live_keypairs_def upd_peer_def StagePackets_def queue_outbound_def nth_list_update)
    (cases "p < length (dv_peers d)"; simp add: list_update_beyond)

lemma StagePackets_length:
  "length (pr_staged (dv_peers (StagePackets p x d) ! p)) \<le> Suc (length (pr_staged (dv_peers d ! p)))"
  by (cases "p < length (dv_peers d)") (auto simp: StagePackets_def upd_peer_def list_update_beyond)

lemma StagePackets_after_pop:
  assumes "pr_staged (dv_peers d ! p) = c # rest" and "p < length (dv_peers d)"
    and "d2 = snd (assign_nonces k c (upd_peer p (\<lambda>r. r\<lparr>pr_staged := rest\<rparr>) d))"
  shows "length (pr_staged (dv_peers (StagePackets p x d2) ! p)) \<le> length (pr_staged (dv_peers d ! p))"
    and "length (pr_staged (dv_peers d2 ! p)) < length (pr_staged (dv_peers d ! p))"
  using assms(1,2) unfolding assms(3)
  by (auto simp: StagePackets_def upd_peer_def QueueStagedSize_def)

lemma assign_nonces_progress:
  assumes "res = assign_nonces k c (upd_peer p f d)"
  shows "live_keypairs (snd res) \<le> live_keypairs d"
    and "\<not> RejectAfterMessages \<le> kp_sendNonce (dv_keypairs d ! k) \<Longrightarrow> snd (fst res) \<noteq> [] \<Longrightarrow> live_keypairs (snd res) < live_keypairs d"
    and "RejectAfterMessages \<le> kp_sendNonce (dv_keypairs d ! k) \<Longrightarrow> fst (fst res) = []"
proof -
  let ?d = "upd_peer p f d"
  show "live_keypairs (snd res) \<le> live_keypairs d"
    using assign_nonces_live(1) [of ?d k c] assign_nonces_exhausted(2) [of ?d k c]
    by (cases "kp_sendNonce (dv_keypairs ?d ! k) < RejectAfterMessages") (simp_all add: assms not_less)
  show "live_keypairs (snd res) < live_keypairs d"
    if "\<not> RejectAfterMessages \<le> kp_sendNonce (dv_keypairs d ! k)" and "snd (fst res) \<noteq> []"
    using assign_nonces_live(2) [of ?d k c] that by (simp add: assms not_le)
  show "fst (fst res) = []" if "RejectAfterMessages \<le> kp_sendNonce (dv_keypairs d ! k)"
    using assign_nonces_exhausted(1) [of ?d k c] that by (simp add: assms)
qed

text \<open>
  SendStagedPackets: with no keypair the code is at its label top, with a
  keypair in the loop below it.  A peer outside the heap has nothing staged.
\<close>

function send_staged :: "noise_env \<Rightarrow> nat \<Rightarrow> nat option \<Rightarrow> Device \<Rightarrow> Device" where
  "send_staged E p None d =
     (if pr_staged (dv_peers d ! p) = [] \<or> \<not> isUp d then d
      else case ks_current (pr_keypairs (dv_peers d ! p)) of
        None \<Rightarrow> SendHandshakeInitiation E False p d
      | Some keypair \<Rightarrow>
          (if kp_sendNonce (dv_keypairs d ! keypair) \<ge> RejectAfterMessages \<or>
              dv_now d - kp_created (dv_keypairs d ! keypair) \<ge> RejectAfterTime
           then SendHandshakeInitiation E False p d
           else send_staged E p (Some keypair) d))"
| "send_staged E p (Some keypair) d =
     (case (if p < length (dv_peers d) then pr_staged (dv_peers d ! p) else []) of
        [] \<Rightarrow> d
      | elems # rest \<Rightarrow>
          (let d1 = upd_peer p (\<lambda>r. r\<lparr>pr_staged := rest\<rparr>) d;
               res = assign_nonces keypair elems d1;
               kept = fst (fst res); ooo = snd (fst res); d2 = snd res;
               d3 = (if ooo \<noteq> [] then StagePackets p ooo d2 else d2)
           in if kept = [] then send_staged E p None d3
              else let d4 = queue_outbound E p keypair kept d3
                   in if ooo \<noteq> [] then send_staged E p None d4 else send_staged E p (Some keypair) d4))"
  by pat_completeness auto

termination
proof (relation "measures [\<lambda>(E, p, at, d). live_keypairs d, \<lambda>(E, p, at, d). length (pr_staged (dv_peers d ! p)),
    \<lambda>(E, p, at, d). staged_rank at d]", goal_cases)
  case (2 E p d keypair)
  then show ?case by (auto simp: staged_rank_def not_le)
next
  case (3 E p k d c rest d1 res kept ooo d2 d3)
  from 3(1) have s: "pr_staged (dv_peers d ! p) = c # rest" "p < length (dv_peers d)"
    by (auto split: if_splits)
  note prog = assign_nonces_progress [OF 3(3) [unfolded 3(2)]]
  note len = StagePackets_after_pop(1) [OF s 3(6) [unfolded 3(3) 3(2)], where x = ooo]
    StagePackets_after_pop(2) [OF s 3(6) [unfolded 3(3) 3(2)]]
  show ?case
  proof (cases "ooo = []")
    case True
    with prog(1) len(2) show ?thesis by (auto simp: 3(6,7))
  next
    case False
    have "\<not> RejectAfterMessages \<le> kp_sendNonce (dv_keypairs d ! k) \<Longrightarrow> live_keypairs d2 < live_keypairs d"
      using prog(2) False by (simp add: 3(5,6))
    then show ?thesis
      using prog(1) len(1) False
      by (cases "RejectAfterMessages \<le> kp_sendNonce (dv_keypairs d ! k)") (auto simp: 3(6,7) staged_rank_def)
  qed
next
  case (4 E p k d c rest d1 res kept ooo d2 d3 d4)
  have "\<not> RejectAfterMessages \<le> kp_sendNonce (dv_keypairs d ! k)"
    using assign_nonces_progress(3) [OF 4(3) [unfolded 4(2)]] 4(8) by (auto simp: 4(4))
  then have "live_keypairs d2 < live_keypairs d"
    using assign_nonces_progress(2) [OF 4(3) [unfolded 4(2)]] 4(10) by (simp add: 4(5,6))
  then show ?case by (simp add: 4(7,9))
next
  case (5 E p k d c rest d1 res kept ooo d2 d3 d4)
  from 5(1) have s: "pr_staged (dv_peers d ! p) = c # rest" "p < length (dv_peers d)"
    by (auto split: if_splits)
  from assign_nonces_progress(1) [OF 5(3) [unfolded 5(2)]]
    StagePackets_after_pop(2) [OF s 5(6) [unfolded 5(3) 5(2)]] 5(10)
  show ?case by (auto simp: 5(6,7,9))
qed simp

declare send_staged.simps [simp del]

definition SendStagedPackets :: "noise_env \<Rightarrow> nat \<Rightarrow> Device \<Rightarrow> Device" where
  "SendStagedPackets E p d = send_staged E p None d"

definition SendKeepalive :: "noise_env \<Rightarrow> nat \<Rightarrow> Device \<Rightarrow> Device" where
  "SendKeepalive E p d =
     (let r = dv_peers d ! p;
          d = (if pr_staged r = [] \<and> pr_isRunning r then upd_peer p (\<lambda>r. r\<lparr>pr_staged := pr_staged r @ [[[]]]\<rparr>) d else d)
      in SendStagedPackets E p d)"

definition SendHandshakeCookie :: "noise_env \<Rightarrow> byte list \<Rightarrow> TCPEndpoint \<Rightarrow> Device \<Rightarrow> Device" where
  "SendHandshakeCookie E packet endpoint d =
     (let sender = le_get (slice 4 4 packet)
      in case CreateReply E packet sender (ap_MarshalBinary (ep_dst endpoint)) (dv_now d) (dv_rand d) (dv_cookieChecker d) of
           (None, tape, checker) \<Rightarrow> d\<lparr>dv_rand := tape, dv_cookieChecker := checker\<rparr>
         | (Some reply, tape, checker) \<Rightarrow>
             (let d = d\<lparr>dv_rand := tape, dv_cookieChecker := checker\<rparr>;
                  out = (case mc_marshal reply (zeros MessageCookieReplySize) of None \<Rightarrow> zeros MessageCookieReplySize | Some b \<Rightarrow> b);
                  result = (case dv_sendq d of [] \<Rightarrow> SendError | x # _ \<Rightarrow> x);
                  d = d\<lparr>dv_sendq := tl (dv_sendq d)\<rparr>
              in if result = SendOK then d\<lparr>dv_net := dv_net d @ [(endpoint, [out])]\<rparr> else d))"

definition keepKeyFreshSending :: "noise_env \<Rightarrow> nat \<Rightarrow> Device \<Rightarrow> Device" where
  "keepKeyFreshSending E p d =
     (case ks_current (pr_keypairs (dv_peers d ! p)) of
        None \<Rightarrow> d
      | Some k \<Rightarrow>
          (let keypair = dv_keypairs d ! k
           in if kp_sendNonce keypair > RekeyAfterMessages \<or>
                 kp_isInitiator keypair \<and> dv_now d - kp_created keypair > RekeyAfterTime
              then SendHandshakeInitiation E False p d else d))"

text \<open>One container through RoutineSequentialSender.\<close>

definition RoutineSequentialSender :: "noise_env \<Rightarrow> nat \<Rightarrow> Device \<Rightarrow> Device" where
  "RoutineSequentialSender E p d =
     (case pr_outbound (dv_peers d ! p) of
        [] \<Rightarrow> d
      | bufs # rest \<Rightarrow>
          (let d = upd_peer p (\<lambda>r. r\<lparr>pr_outbound := rest\<rparr>) d
           in if \<not> pr_isRunning (dv_peers d ! p) then d
              else let dataSent = list_ex (\<lambda>packet. length packet \<noteq> MessageKeepaliveSize) bufs;
                       d = timersAnyAuthenticatedPacketTraversal p d;
                       d = timersAnyAuthenticatedPacketSent p d;
                       (ok, d) = SendBuffers p bufs d;
                       d = (if dataSent then timersDataSent p d else d)
                   in if \<not> ok then d else keepKeyFreshSending E p d))"

section \<open>Packets read from the TUN device\<close>

definition IPv4offsetTotalLength :: nat where "IPv4offsetTotalLength = 2"
definition IPv4offsetSrc :: nat where "IPv4offsetSrc = 12"
definition IPv4offsetDst :: nat where "IPv4offsetDst = IPv4offsetSrc + 4"
definition IPv6offsetPayloadLength :: nat where "IPv6offsetPayloadLength = 4"
definition IPv6offsetSrc :: nat where "IPv6offsetSrc = 8"
definition IPv6offsetDst :: nat where "IPv6offsetDst = IPv6offsetSrc + 16"
definition ipv4_HeaderLen :: nat where "ipv4_HeaderLen = 20"
definition ipv6_HeaderLen :: nat where "ipv6_HeaderLen = 40"

definition ip_version :: "byte list \<Rightarrow> byte" where
  "ip_version packet = drop_bit 4 (packet ! 0)"

text \<open>The peer a packet read from the TUN device is for.\<close>

definition route_packet :: "byte list \<Rightarrow> Device \<Rightarrow> nat option" where
  "route_packet packet d =
     (if length packet < 1 then None
      else if ip_version packet = 4 then
        (if length packet < ipv4_HeaderLen then None
         else Option.bind (Lookup (slice IPv4offsetDst 4 packet) (dv_allowedips d)) id)
      else if ip_version packet = 6 then
        (if length packet < ipv6_HeaderLen then None
         else Option.bind (Lookup (slice IPv6offsetDst 16 packet) (dv_allowedips d)) id)
      else None)"

fun group_by_peer :: "byte list list \<Rightarrow> Device \<Rightarrow> (nat \<times> byte list list) list" where
  "group_by_peer [] d = []"
| "group_by_peer (x # xs) d =
     (case route_packet x d of
        None \<Rightarrow> group_by_peer xs d
      | Some p \<Rightarrow> AList.update p (x # (case map_of (group_by_peer xs d) p of None \<Rightarrow> [] | Some ys \<Rightarrow> ys)) (group_by_peer xs d))"

text \<open>
  One read of RoutineReadFromTUN.  The map elemsByPeer is visited in an order the
  language leaves open, which is the argument order; peers it misses come last.
\<close>

definition visit_order :: "nat list \<Rightarrow> (nat \<times> 'a) list \<Rightarrow> nat list" where
  "visit_order order groups = remdups (filter (\<lambda>p. p \<in> fst ` set groups) order @ map fst groups)"

definition RoutineReadFromTUN :: "noise_env \<Rightarrow> nat list \<Rightarrow> byte list list \<Rightarrow> Device \<Rightarrow> Device" where
  "RoutineReadFromTUN E order packets d =
     (let elemsByPeer = group_by_peer packets d
      in fold (\<lambda>p d. if pr_isRunning (dv_peers d ! p)
                     then SendStagedPackets E p (StagePackets p (the (map_of elemsByPeer p)) d) else d)
           (visit_order order elemsByPeer) d)"

end
