(* ===== verification/Device_Receive.thy ===== *)
theory Device_Receive
  imports Device_Send
begin

text \<open>
  The receiving side of the device (wireguard/device/receive.go): datagrams
  sorted by type, the handshake worker with its cookie and rate checks, the
  decryption worker and the sequential receiver that filters, routes and writes
  to the TUN device.  A container handed to the decryption queue is decrypted at
  once.
\<close>

section \<open>Handshake messages\<close>

definition keepKeyFreshReceiving :: "noise_env \<Rightarrow> nat \<Rightarrow> Device \<Rightarrow> Device" where
  "keepKeyFreshReceiving E p d =
     (if tm_sentLastMinuteHandshake (pr_timers (dv_peers d ! p)) then d
      else case ks_current (pr_keypairs (dv_peers d ! p)) of
        None \<Rightarrow> d
      | Some k \<Rightarrow>
          (if kp_isInitiator (dv_keypairs d ! k) \<and>
              dv_now d - kp_created (dv_keypairs d ! k) > RejectAfterTime - KeepaliveTimeout - RekeyTimeout
           then SendHandshakeInitiation E False p (upd_tm p (\<lambda>t. t\<lparr>tm_sentLastMinuteHandshake := True\<rparr>) d)
           else d))"

definition IsUnderLoad :: "Device \<Rightarrow> bool \<times> Device" where
  "IsUnderLoad d =
     (if length (dv_handshakeq d) \<ge> QueueHandshakeSize div 8
      then (True, d\<lparr>dv_underLoadUntil := dv_now d + UnderLoadAfterTime\<rparr>)
      else (dv_underLoadUntil d > dv_now d, d))"

definition add_rx :: "nat \<Rightarrow> nat \<Rightarrow> Device \<Rightarrow> Device" where
  "add_rx p n = upd_peer p (\<lambda>r. r\<lparr>pr_rxBytes := pr_rxBytes r + of_nat n\<rparr>)"

definition handle_cookie_reply :: "noise_env \<Rightarrow> byte list \<Rightarrow> Device \<Rightarrow> Device" where
  "handle_cookie_reply E packet d =
     (case mc_unmarshal packet of
        None \<Rightarrow> d
      | Some reply \<Rightarrow>
          (case index_Lookup (mc_Receiver reply) d of
             None \<Rightarrow> d
           | Some entry \<Rightarrow>
               (let p = ie_peer entry
                in if pr_isRunning (dv_peers d ! p)
                   then upd_peer p (\<lambda>r. r\<lparr>pr_cookieGenerator := snd (ConsumeReply E reply (dv_now d) (pr_cookieGenerator r))\<rparr>) d
                   else d)))"

text \<open>The checks of mac1, of mac2 and of the rate limiter: whether the message may be processed.\<close>

definition admit_handshake :: "noise_env \<Rightarrow> byte list \<Rightarrow> TCPEndpoint \<Rightarrow> Device \<Rightarrow> bool \<times> Device" where
  "admit_handshake E packet endpoint d =
     (if \<not> CheckMAC1 E packet (dv_cookieChecker d) then (False, d)
      else case IsUnderLoad d of
        (False, d) \<Rightarrow> (True, d)
      | (True, d) \<Rightarrow>
          (if \<not> CheckMAC2 E packet (ap_MarshalBinary (ep_dst endpoint)) (dv_now d) (dv_cookieChecker d)
           then (False, SendHandshakeCookie E packet endpoint d)
           else let (ok, table) = Allow (ap_Addr (ep_dst endpoint)) (dv_now d) (dv_limiter d)
                in (ok, d\<lparr>dv_limiter := table\<rparr>)))"

definition handle_initiation :: "noise_env \<Rightarrow> byte list \<Rightarrow> TCPEndpoint \<Rightarrow> Device \<Rightarrow> Device" where
  "handle_initiation E packet endpoint d =
     (case mi_unmarshal packet of
        None \<Rightarrow> d
      | Some msg \<Rightarrow>
          (case ConsumeMessageInitiation E msg d of
             (None, d) \<Rightarrow> d
           | (Some p, d) \<Rightarrow>
               (let d = timersAnyAuthenticatedPacketTraversal p d;
                    d = timersAnyAuthenticatedPacketReceived p d;
                    d = SetEndpointFromPacket endpoint p d;
                    d = add_rx p (length packet) d
                in SendHandshakeResponse E p d)))"

definition handle_response :: "noise_env \<Rightarrow> byte list \<Rightarrow> TCPEndpoint \<Rightarrow> Device \<Rightarrow> Device" where
  "handle_response E packet endpoint d =
     (case mr_unmarshal packet of
        None \<Rightarrow> d
      | Some msg \<Rightarrow>
          (case ConsumeMessageResponse E msg d of
             (None, d) \<Rightarrow> d
           | (Some p, d) \<Rightarrow>
               (let d = SetEndpointFromPacket endpoint p d;
                    d = add_rx p (length packet) d;
                    d = timersAnyAuthenticatedPacketTraversal p d;
                    d = timersAnyAuthenticatedPacketReceived p d
                in case BeginSymmetricSession E p d of
                     (False, d) \<Rightarrow> d
                   | (True, d) \<Rightarrow>
                       (let rtt = dv_now d - hs_lastSentHandshake (peer_hs p d);
                            d = (if rtt > 0 \<and> rtt < RekeyTimeout then upd_peer p (\<lambda>r. r\<lparr>pr_handshakeRTTNano := rtt\<rparr>) d else d);
                            d = timersSessionDerived p d;
                            d = timersHandshakeComplete p d
                        in SendKeepalive E p d))))"

text \<open>One element of the handshake queue.\<close>

definition RoutineHandshake :: "noise_env \<Rightarrow> Device \<Rightarrow> Device" where
  "RoutineHandshake E d =
     (case dv_handshakeq d of
        [] \<Rightarrow> d
      | (msgType, packet, endpoint) # rest \<Rightarrow>
          (let d = d\<lparr>dv_handshakeq := rest\<rparr>
           in if msgType = MessageCookieReplyType then handle_cookie_reply E packet d
              else if msgType = MessageInitiationType \<or> msgType = MessageResponseType then
                (case admit_handshake E packet endpoint d of
                   (False, d) \<Rightarrow> d
                 | (True, d) \<Rightarrow>
                     (if msgType = MessageInitiationType then handle_initiation E packet endpoint d
                      else handle_response E packet endpoint d))
              else d))"

section \<open>Datagrams\<close>

definition MinMessageSize :: nat where "MinMessageSize = MessageKeepaliveSize"

definition decrypt_elem :: "noise_env \<Rightarrow> Device \<Rightarrow> nat \<Rightarrow> TCPEndpoint \<Rightarrow> byte list \<Rightarrow> inbound_elem" where
  "decrypt_elem E d keypair endpoint packet =
     (let counter = le_get (slice 8 8 packet);
          content = drop 16 packet
      in \<lparr>in_packet = aead_Open E (kp_receive (dv_keypairs d ! keypair)) (transport_nonce counter) content [],
          in_counter = counter, in_keypair = keypair, in_endpoint = endpoint\<rparr>)"

text \<open>The keypair a transport message is for, with its peer, if it is not expired.\<close>

definition lookup_transport :: "byte list \<Rightarrow> Device \<Rightarrow> (nat \<times> nat) option" where
  "lookup_transport packet d =
     (if length packet < MessageTransportSize then None
      else case index_Lookup (le_get (slice 4 4 packet)) d of
        None \<Rightarrow> None
      | Some entry \<Rightarrow>
          (case ie_target entry of
             ToHandshake \<Rightarrow> None
           | ToKeypair k \<Rightarrow>
               if kp_created (dv_keypairs d ! k) + RejectAfterTime < dv_now d then None
               else Some (ie_peer entry, k)))"

definition handshake_size_ok :: "32 word \<Rightarrow> byte list \<Rightarrow> bool" where
  "handshake_size_ok msgType packet =
     (msgType = MessageInitiationType \<and> length packet = MessageInitiationSize \<or>
      msgType = MessageResponseType \<and> length packet = MessageResponseSize \<or>
      msgType = MessageCookieReplyType \<and> length packet = MessageCookieReplySize)"

text \<open>A batch of received datagrams: handshake messages are queued, transport messages grouped by peer.\<close>

fun sort_datagrams :: "noise_env \<Rightarrow> (byte list \<times> TCPEndpoint) list \<Rightarrow> (nat \<times> inbound_elem list) list \<Rightarrow> Device \<Rightarrow>
    (nat \<times> inbound_elem list) list \<times> Device" where
  "sort_datagrams E [] groups d = (groups, d)"
| "sort_datagrams E ((packet, endpoint) # rest) groups d =
     (if length packet < MinMessageSize then sort_datagrams E rest groups d
      else let msgType = le_get (slice 0 4 packet)
           in if msgType = MessageTransportType then
                (case lookup_transport packet d of
                   None \<Rightarrow> sort_datagrams E rest groups d
                 | Some (p, k) \<Rightarrow>
                     sort_datagrams E rest
                       (AList.update p ((case map_of groups p of None \<Rightarrow> [] | Some es \<Rightarrow> es) @
                          [decrypt_elem E d k endpoint packet]) groups) d)
              else if handshake_size_ok msgType packet \<and> length (dv_handshakeq d) < QueueHandshakeSize
              then sort_datagrams E rest groups (d\<lparr>dv_handshakeq := dv_handshakeq d @ [(msgType, packet, endpoint)]\<rparr>)
              else sort_datagrams E rest groups d)"

definition RoutineReceiveIncoming :: "noise_env \<Rightarrow> nat list \<Rightarrow> (byte list \<times> TCPEndpoint) list \<Rightarrow> Device \<Rightarrow> Device" where
  "RoutineReceiveIncoming E order datagrams d =
     (let (groups, d) = sort_datagrams E datagrams [] d
      in fold (\<lambda>p d. if pr_isRunning (dv_peers d ! p)
                     then upd_peer p (\<lambda>r. r\<lparr>pr_inbound := pr_inbound r @ [the (map_of groups p)]\<rparr>) d else d)
           (visit_order order groups) d)"

section \<open>The sequential receiver\<close>

text \<open>
  The length and source checks of a decrypted packet: the bytes to write, or
  nothing.  The source is read from the buffer behind the slice, so it is read
  from the packet before it is cut.
\<close>

definition be_uint16 :: "byte list \<Rightarrow> 16 word" where
  "be_uint16 b = push_bit 8 (ucast (b ! 0)) OR ucast (b ! 1)"

definition check_inbound :: "nat \<Rightarrow> byte list \<Rightarrow> AllowedIPs \<Rightarrow> byte list option" where
  "check_inbound p packet table =
     (if ip_version packet = 4 then
        (if length packet < ipv4_HeaderLen then None
         else let len = be_uint16 (slice IPv4offsetTotalLength 2 packet)
              in if unat len > length packet \<or> unat len < ipv4_HeaderLen then None
                 else if Lookup (slice IPv4offsetSrc 4 packet) table \<noteq> Some (Some p) then None
                 else Some (take (unat len) packet))
      else if ip_version packet = 6 then
        (if length packet < ipv6_HeaderLen then None
         else let len = be_uint16 (slice IPv6offsetPayloadLength 2 packet);
                  len = len + of_nat ipv6_HeaderLen
              in if unat len > length packet then None
                 else if Lookup (slice IPv6offsetSrc 16 packet) table \<noteq> Some (Some p) then None
                 else Some (take (unat len) packet))
      else None)"

record recv_acc =
  ra_bufs :: "byte list list"
  ra_tail :: "TCPEndpoint option"
  ra_data :: bool
  ra_rx :: "64 word"

definition deliver :: "nat \<Rightarrow> inbound_elem \<Rightarrow> byte list \<Rightarrow> recv_acc \<Rightarrow> Device \<Rightarrow> recv_acc \<times> Device" where
  "deliver p elem packet acc d =
     (let acc = acc\<lparr>ra_rx := ra_rx acc + of_nat (length packet + MinMessageSize)\<rparr>
      in if length packet = 0 then (acc, d)
      else let acc = acc\<lparr>ra_data := True\<rparr>
           in case check_inbound p packet (dv_allowedips d) of
                None \<Rightarrow> (acc, d)
              | Some packet \<Rightarrow>
                  (let key = hs_remoteStatic (peer_hs p d)
                   in if (case dv_inboundFilter d of None \<Rightarrow> False | Some f \<Rightarrow> \<not> f key packet) then (acc, d)
                      else (acc\<lparr>ra_bufs := ra_bufs acc @ [packet]\<rparr>,
                            if ep_toNAT (in_endpoint elem) \<and> dv_tonatHandler d
                            then d\<lparr>dv_natClients := dv_natClients d @ [key]\<rparr> else d)))"

definition receive_elem :: "noise_env \<Rightarrow> nat \<Rightarrow> inbound_elem \<Rightarrow> recv_acc \<times> Device \<Rightarrow> recv_acc \<times> Device" where
  "receive_elem E p elem = (\<lambda>(acc, d).
     (case in_packet elem of
        None \<Rightarrow> (acc, d)
      | Some packet \<Rightarrow>
          (let k = in_keypair elem;
               (valid, filt) = ValidateCounter (in_counter elem) RejectAfterMessages (kp_replayFilter (dv_keypairs d ! k));
               d = upd_kp k (\<lambda>kp. kp\<lparr>kp_replayFilter := filt\<rparr>) d
           in if \<not> valid then (acc, d)
              else let d = d\<lparr>dv_accepted := dv_accepted d @ [(k, in_counter elem)]\<rparr>;
                       acc = acc\<lparr>ra_tail := Some (in_endpoint elem)\<rparr>;
                       (first, d) = ReceivedWithKeypair p k d;
                       d = (if first
                            then SendStagedPackets E p (timersHandshakeComplete p (SetEndpointFromPacket (in_endpoint elem) p d))
                            else d)
                   in deliver p elem packet acc d)))"

text \<open>The end of a batch: counters, endpoint, timers and the write to the TUN device.\<close>

definition finish_batch :: "noise_env \<Rightarrow> nat \<Rightarrow> recv_acc \<Rightarrow> Device \<Rightarrow> Device" where
  "finish_batch E p acc d =
     (let d = upd_peer p (\<lambda>r. r\<lparr>pr_rxBytes := pr_rxBytes r + ra_rx acc\<rparr>) d;
          d = (case ra_tail acc of
                 None \<Rightarrow> d
               | Some endpoint \<Rightarrow>
                   timersAnyAuthenticatedPacketReceived p
                     (timersAnyAuthenticatedPacketTraversal p
                       (keepKeyFreshReceiving E p (SetEndpointFromPacket endpoint p d))));
          d = (if ra_data acc then timersDataReceived p d else d)
      in d\<lparr>dv_tunOut := dv_tunOut d @ map (\<lambda>b. (p, b)) (ra_bufs acc)\<rparr>)"

definition receive_batch :: "noise_env \<Rightarrow> nat \<Rightarrow> inbound_elem list \<Rightarrow> Device \<Rightarrow> Device" where
  "receive_batch E p elems d =
     (let (acc, d) = fold (receive_elem E p) elems (\<lparr>ra_bufs = [], ra_tail = None, ra_data = False, ra_rx = 0\<rparr>, d)
      in finish_batch E p acc d)"

definition RoutineSequentialReceiver :: "noise_env \<Rightarrow> nat \<Rightarrow> Device \<Rightarrow> Device" where
  "RoutineSequentialReceiver E p d =
     (case pr_inbound (dv_peers d ! p) of
        [] \<Rightarrow> d
      | elems # rest \<Rightarrow> receive_batch E p elems (upd_peer p (\<lambda>r. r\<lparr>pr_inbound := rest\<rparr>) d))"

end
