(* ===== verification/Device_Peers.thy ===== *)
theory Device_Peers
  imports Device_Receive
begin

text \<open>
  The life cycle of peers and of the device (wireguard/device/peer.go, device.go,
  timers.go, tun.go): creation, start, stop and removal, the timers that expire,
  the bind and the change of keys.  Where the code ranges over the map of peers,
  the order is an argument.
\<close>

section \<open>Peers\<close>

definition ZeroAndFlushAll :: "nat \<Rightarrow> Device \<Rightarrow> Device" where
  "ZeroAndFlushAll p d =
     (let ks = pr_keypairs (dv_peers d ! p);
          d = DeleteKeypair (ks_previous ks) d;
          d = DeleteKeypair (ks_current ks) d;
          d = DeleteKeypair (ks_next ks) d;
          d = upd_ks p (\<lambda>ks. ks\<lparr>ks_previous := None, ks_current := None, ks_next := None\<rparr>) d;
          d = index_Delete (hs_localIndex (peer_hs p d)) d;
          d = upd_hs p hs_Clear d
      in FlushStagedPackets p d)"

definition ExpireCurrentKeypairs :: "nat \<Rightarrow> Device \<Rightarrow> Device" where
  "ExpireCurrentKeypairs p d =
     (let d = index_Delete (hs_localIndex (peer_hs p d)) d;
          d = upd_hs p (\<lambda>h. (hs_Clear h)\<lparr>hs_lastSentHandshake := dv_now d - (RekeyTimeout + second)\<rparr>) d;
          expire = (\<lambda>k d. case k of None \<Rightarrow> d | Some k \<Rightarrow> upd_kp k (\<lambda>kp. kp\<lparr>kp_sendNonce := RejectAfterMessages\<rparr>) d);
          ks = pr_keypairs (dv_peers d ! p)
      in expire (ks_next ks) (expire (ks_current ks) d))"

definition Start :: "nat \<Rightarrow> Device \<Rightarrow> Device" where
  "Start p d =
     (if isClosed d \<or> pr_isRunning (dv_peers d ! p) then d
      else let d = upd_hs p (\<lambda>h. h\<lparr>hs_lastSentHandshake := dv_now d - (RekeyTimeout + second)\<rparr>) d;
               d = timersStart p d
           in upd_peer p (\<lambda>r. r\<lparr>pr_inbound := [], pr_outbound := [], pr_isRunning := True\<rparr>) d)"

text \<open>
  Stop waits for the two routines of the peer: the receiver works off what is in
  its queue before the sentinel, the sender drops it.
\<close>

definition Stop :: "noise_env \<Rightarrow> nat \<Rightarrow> Device \<Rightarrow> Device" where
  "Stop E p d =
     (if \<not> pr_isRunning (dv_peers d ! p) then d
      else let d = upd_peer p (\<lambda>r. r\<lparr>pr_isRunning := False\<rparr>) d;
               d = timersStop p d;
               pending = pr_inbound (dv_peers d ! p);
               d = upd_peer p (\<lambda>r. r\<lparr>pr_inbound := [], pr_outbound := []\<rparr>) d;
               d = fold (receive_batch E p) pending d
           in ZeroAndFlushAll p d)"

definition Handshake0 :: Handshake where
  "Handshake0 = \<lparr>hs_state = handshakeZeroed, hs_hash = zeros 32, hs_chainKey = zeros 32, hs_presharedKey = zeros 32,
     hs_localEphemeral = zeros 32, hs_localIndex = 0, hs_remoteIndex = 0, hs_remoteStatic = zeros 32,
     hs_remoteEphemeral = zeros 32, hs_precomputedStaticStatic = zeros 32, hs_lastTimestamp = zeros 12,
     hs_lastInitiationConsumption = None, hs_lastSentHandshake = - 62135596800 * second\<rparr>"

definition timersInit :: Timers where
  "timersInit = \<lparr>tm_retransmitHandshake = None, tm_sendKeepalive = None, tm_newHandshake = None, tm_zeroKeyMaterial = None,
     tm_persistentKeepalive = None, tm_handshakeAttempts = 0, tm_needAnotherKeepalive = False,
     tm_sentLastMinuteHandshake = False\<rparr>"

definition Peer0 :: peer_obj where
  "Peer0 = \<lparr>pr_isRunning = False, pr_keypairs = \<lparr>ks_current = None, ks_previous = None, ks_next = None\<rparr>,
     pr_handshake = Handshake0, pr_txBytes = 0, pr_rxBytes = 0, pr_lastHandshakeNano = 0, pr_handshakeRTTNano = 0,
     pr_endpoint = None, pr_clearSrcOnTx = False, pr_disableRoaming = False, pr_timers = timersInit,
     pr_staged = [], pr_outbound = [], pr_inbound = [], pr_cookieGenerator = CookieGenerator0,
     pr_persistentKeepaliveInterval = 0\<rparr>"

text \<open>sharedSecret returns the zero output of the scalar multiplication with its error.\<close>

definition static_static :: "noise_env \<Rightarrow> byte list \<Rightarrow> byte list \<Rightarrow> byte list" where
  "static_static E sk pk = (case sharedSecret E sk pk of None \<Rightarrow> zeros 32 | Some ss \<Rightarrow> ss)"

definition NewPeer :: "noise_env \<Rightarrow> byte list \<Rightarrow> Device \<Rightarrow> nat option \<times> Device" where
  "NewPeer E pk d =
     (if isClosed d then (None, d)
      else if length (dv_keyMap d) \<ge> MaxPeers then (None, d)
      else if map_of (dv_keyMap d) pk \<noteq> None then (None, d)
      else let p = length (dv_peers d);
               h = Handshake0\<lparr>hs_precomputedStaticStatic := static_static E (dv_privateKey d) pk, hs_remoteStatic := pk\<rparr>;
               peer = Peer0\<lparr>pr_handshake := h, pr_cookieGenerator := CookieGenerator_Init E pk CookieGenerator0\<rparr>
           in (Some p, d\<lparr>dv_peers := dv_peers d @ [peer], dv_keyMap := AList.update pk p (dv_keyMap d)\<rparr>))"

definition removePeerLocked :: "noise_env \<Rightarrow> nat \<Rightarrow> byte list \<Rightarrow> Device \<Rightarrow> Device" where
  "removePeerLocked E p key d =
     (let d = d\<lparr>dv_allowedips := RemoveByPeer p (dv_allowedips d)\<rparr>;
          d = Stop E p d
      in d\<lparr>dv_keyMap := AList.delete key (dv_keyMap d)\<rparr>)"

definition RemovePeer :: "noise_env \<Rightarrow> byte list \<Rightarrow> Device \<Rightarrow> Device" where
  "RemovePeer E key d =
     (case map_of (dv_keyMap d) key of None \<Rightarrow> d | Some p \<Rightarrow> removePeerLocked E p key d)"

definition keys_in :: "byte list list \<Rightarrow> Device \<Rightarrow> byte list list" where
  "keys_in order d = remdups (filter (\<lambda>k. k \<in> fst ` set (dv_keyMap d)) order @ map fst (dv_keyMap d))"

definition peers_in :: "byte list list \<Rightarrow> Device \<Rightarrow> nat list" where
  "peers_in order d = map (\<lambda>k. the (map_of (dv_keyMap d) k)) (keys_in order d)"

definition RemoveAllPeers :: "noise_env \<Rightarrow> byte list list \<Rightarrow> Device \<Rightarrow> Device" where
  "RemoveAllPeers E order d = (fold (RemovePeer E) (keys_in order d) d)\<lparr>dv_keyMap := []\<rparr>"

section \<open>Expired timers\<close>

definition expiredRetransmitHandshake :: "noise_env \<Rightarrow> nat \<Rightarrow> Device \<Rightarrow> Device" where
  "expiredRetransmitHandshake E p d =
     (if tm_handshakeAttempts (pr_timers (dv_peers d ! p)) > MaxTimerHandshakes then
        (let d = (if timersActive p d then upd_tm p (\<lambda>t. t\<lparr>tm_sendKeepalive := None\<rparr>) d else d);
             d = FlushStagedPackets p d
         in if timersActive p d \<and> tm_zeroKeyMaterial (pr_timers (dv_peers d ! p)) = None
            then upd_tm p (\<lambda>t. t\<lparr>tm_zeroKeyMaterial := Some (dv_now d + RejectAfterTime * 3)\<rparr>) d else d)
      else let d = upd_tm p (\<lambda>t. t\<lparr>tm_handshakeAttempts := tm_handshakeAttempts t + 1\<rparr>) d;
               d = markEndpointSrcForClearing p d
           in SendHandshakeInitiation E True p d)"

definition expiredSendKeepalive :: "noise_env \<Rightarrow> nat \<Rightarrow> Device \<Rightarrow> Device" where
  "expiredSendKeepalive E p d =
     (let d = SendKeepalive E p d
      in if tm_needAnotherKeepalive (pr_timers (dv_peers d ! p))
         then let d = upd_tm p (\<lambda>t. t\<lparr>tm_needAnotherKeepalive := False\<rparr>) d
              in if timersActive p d then upd_tm p (\<lambda>t. t\<lparr>tm_sendKeepalive := Some (dv_now d + KeepaliveTimeout)\<rparr>) d else d
         else d)"

definition expiredNewHandshake :: "noise_env \<Rightarrow> nat \<Rightarrow> Device \<Rightarrow> Device" where
  "expiredNewHandshake E p d = SendHandshakeInitiation E False p (markEndpointSrcForClearing p d)"

definition expiredZeroKeyMaterial :: "nat \<Rightarrow> Device \<Rightarrow> Device" where
  "expiredZeroKeyMaterial p d = ZeroAndFlushAll p d"

definition expiredPersistentKeepalive :: "noise_env \<Rightarrow> nat \<Rightarrow> Device \<Rightarrow> Device" where
  "expiredPersistentKeepalive E p d =
     (if pr_persistentKeepaliveInterval (dv_peers d ! p) > 0 then SendKeepalive E p d else d)"

text \<open>
  The function of NewTimer that runs when the deadline of a pending timer has
  passed: the timer is no longer pending, then its expiration function runs.
\<close>

datatype timer = RetransmitHandshake | SendKeepaliveTimer | NewHandshake | ZeroKeyMaterial | PersistentKeepalive

fun timer_deadline :: "timer \<Rightarrow> Timers \<Rightarrow> int option" where
  "timer_deadline RetransmitHandshake t = tm_retransmitHandshake t"
| "timer_deadline SendKeepaliveTimer t = tm_sendKeepalive t"
| "timer_deadline NewHandshake t = tm_newHandshake t"
| "timer_deadline ZeroKeyMaterial t = tm_zeroKeyMaterial t"
| "timer_deadline PersistentKeepalive t = tm_persistentKeepalive t"

fun timer_Del :: "timer \<Rightarrow> Timers \<Rightarrow> Timers" where
  "timer_Del RetransmitHandshake t = t\<lparr>tm_retransmitHandshake := None\<rparr>"
| "timer_Del SendKeepaliveTimer t = t\<lparr>tm_sendKeepalive := None\<rparr>"
| "timer_Del NewHandshake t = t\<lparr>tm_newHandshake := None\<rparr>"
| "timer_Del ZeroKeyMaterial t = t\<lparr>tm_zeroKeyMaterial := None\<rparr>"
| "timer_Del PersistentKeepalive t = t\<lparr>tm_persistentKeepalive := None\<rparr>"

fun expirationFunction :: "noise_env \<Rightarrow> timer \<Rightarrow> nat \<Rightarrow> Device \<Rightarrow> Device" where
  "expirationFunction E RetransmitHandshake p d = expiredRetransmitHandshake E p d"
| "expirationFunction E SendKeepaliveTimer p d = expiredSendKeepalive E p d"
| "expirationFunction E NewHandshake p d = expiredNewHandshake E p d"
| "expirationFunction E ZeroKeyMaterial p d = expiredZeroKeyMaterial p d"
| "expirationFunction E PersistentKeepalive p d = expiredPersistentKeepalive E p d"

definition fire_timer :: "noise_env \<Rightarrow> timer \<Rightarrow> nat \<Rightarrow> Device \<Rightarrow> Device" where
  "fire_timer E t p d =
     (case timer_deadline t (pr_timers (dv_peers d ! p)) of
        None \<Rightarrow> d
      | Some at \<Rightarrow> if at \<le> dv_now d then expirationFunction E t p (upd_tm p (timer_Del t) d) else d)"

section \<open>The bind\<close>

definition bind_call :: "Device \<Rightarrow> bind_reply \<times> Device" where
  "bind_call d = (case dv_bindq d of [] \<Rightarrow> (BindError, d) | r # rs \<Rightarrow> (r, d\<lparr>dv_bindq := rs\<rparr>))"

definition closeBindLocked :: "Device \<Rightarrow> bool \<times> Device" where
  "closeBindLocked d = (let (r, d) = bind_call d in (r \<noteq> BindError, d\<lparr>dv_bindOpen := False\<rparr>))"

definition mark_endpoints :: "byte list list \<Rightarrow> Device \<Rightarrow> Device" where
  "mark_endpoints order d = fold markEndpointSrcForClearing (peers_in order d) d"

text \<open>BindUpdate for a bind without a route listener, which is every bind but StdNetBind on Linux.\<close>

definition BindUpdate :: "byte list list \<Rightarrow> Device \<Rightarrow> bool \<times> Device" where
  "BindUpdate order d =
     (let (ok, d) = closeBindLocked d
      in if \<not> ok then (False, d)
      else if \<not> isUp d then (True, d)
      else case bind_call d of
        (BindError, d) \<Rightarrow> (False, d\<lparr>dv_port := 0\<rparr>)
      | (BindOK port, d) \<Rightarrow>
          (let d = d\<lparr>dv_port := port, dv_bindOpen := True\<rparr>;
               (ok, d) = (if dv_fwmark d \<noteq> 0 then (case bind_call d of (r, d) \<Rightarrow> (r \<noteq> BindError, d)) else (True, d))
           in if \<not> ok then (False, d) else (True, mark_endpoints order d)))"

definition BindSetMark :: "byte list list \<Rightarrow> 32 word \<Rightarrow> Device \<Rightarrow> bool \<times> Device" where
  "BindSetMark order mark d =
     (if dv_fwmark d = mark then (True, d)
      else let d = d\<lparr>dv_fwmark := mark\<rparr>;
               (ok, d) = (if isUp d then (case bind_call d of (r, d) \<Rightarrow> (r \<noteq> BindError, d)) else (True, d))
           in if \<not> ok then (False, d) else (True, mark_endpoints order d))"

text \<open>
  BindSetListenPort: the port the bind reports, if it has ListenPort, and whether
  it can move its listener in place are arguments.
\<close>

definition BindSetListenPort :: "byte list list \<Rightarrow> 16 word option \<Rightarrow> bool \<Rightarrow> 16 word \<Rightarrow> Device \<Rightarrow> bool \<times> Device" where
  "BindSetListenPort order listenPort updater port d =
     (if port \<noteq> 0 \<and> port = dv_port d then (True, d)
      else if port \<noteq> 0 \<and> listenPort = Some port then (True, d\<lparr>dv_port := port\<rparr>)
      else if \<not> updater \<or> \<not> isUp d then BindUpdate order (d\<lparr>dv_port := port\<rparr>)
      else case bind_call d of
        (BindError, d) \<Rightarrow> (False, d)
      | (BindOK actual, d) \<Rightarrow> (True, d\<lparr>dv_port := actual\<rparr>))"

section \<open>The device\<close>

definition upLocked :: "noise_env \<Rightarrow> byte list list \<Rightarrow> Device \<Rightarrow> bool \<times> Device" where
  "upLocked E order d =
     (case BindUpdate order d of
        (False, d) \<Rightarrow> (False, d)
      | (True, d) \<Rightarrow>
          (True, fold (\<lambda>p d. let d = Start p d
                       in if pr_persistentKeepaliveInterval (dv_peers d ! p) > 0 then SendKeepalive E p d else d)
                   (peers_in order d) d))"

definition downLocked :: "noise_env \<Rightarrow> byte list list \<Rightarrow> Device \<Rightarrow> bool \<times> Device" where
  "downLocked E order d = (let (ok, d) = closeBindLocked d in (ok, fold (Stop E) (peers_in order d) d))"

definition changeState :: "noise_env \<Rightarrow> byte list list \<Rightarrow> deviceState \<Rightarrow> Device \<Rightarrow> bool \<times> Device" where
  "changeState E order want d =
     (let old = dv_state d
      in if old = deviceStateClosed then (True, d)
      else if want = old then (True, d)
      else case want of
        deviceStateUp \<Rightarrow>
          (case upLocked E order (d\<lparr>dv_state := deviceStateUp\<rparr>) of
             (True, d) \<Rightarrow> (True, d)
           | (False, d) \<Rightarrow> (False, snd (downLocked E order (d\<lparr>dv_state := deviceStateDown\<rparr>))))
      | deviceStateDown \<Rightarrow> downLocked E order (d\<lparr>dv_state := deviceStateDown\<rparr>)
      | deviceStateClosed \<Rightarrow> (True, d))"

definition Close :: "noise_env \<Rightarrow> byte list list \<Rightarrow> Device \<Rightarrow> Device" where
  "Close E order d =
     (if isClosed d then d
      else let d = d\<lparr>dv_state := deviceStateClosed\<rparr>;
               d = snd (downLocked E order d)
           in RemoveAllPeers E order d)"

definition SetPrivateKey :: "noise_env \<Rightarrow> byte list list \<Rightarrow> byte list \<Rightarrow> Device \<Rightarrow> Device" where
  "SetPrivateKey E order sk d =
     (if sk = dv_privateKey d then d
      else let pk = publicKey E sk;
               d = fold (\<lambda>key d. case map_of (dv_keyMap d) key of
                           None \<Rightarrow> d
                         | Some p \<Rightarrow> if hs_remoteStatic (peer_hs p d) = pk then removePeerLocked E p key d else d)
                     (keys_in order d) d;
               d = d\<lparr>dv_privateKey := sk, dv_publicKey := pk,
                     dv_cookieChecker := CookieChecker_Init E pk (dv_cookieChecker d)\<rparr>;
               peers = peers_in order d;
               d = fold (\<lambda>p. upd_hs p (\<lambda>h. h\<lparr>hs_precomputedStaticStatic := static_static E sk (hs_remoteStatic h)\<rparr>)) peers d
           in fold ExpireCurrentKeypairs peers d)"

definition SendKeepalivesToPeersWithCurrentKeypair :: "noise_env \<Rightarrow> byte list list \<Rightarrow> Device \<Rightarrow> Device" where
  "SendKeepalivesToPeersWithCurrentKeypair E order d =
     (if \<not> isUp d then d
      else fold (\<lambda>p d. case ks_current (pr_keypairs (dv_peers d ! p)) of
                   None \<Rightarrow> d
                 | Some k \<Rightarrow> if \<not> kp_created (dv_keypairs d ! k) + RejectAfterTime < dv_now d then SendKeepalive E p d else d)
             (peers_in order d) d)"

definition DefaultMTU :: nat where "DefaultMTU = 1420"
definition MaxContentSize :: nat where "MaxContentSize = 2 ^ 16 - 1 - MessageTransportSize"

text \<open>NewDevice, with the clock and the tape of random bytes it starts with.\<close>

definition NewDevice :: "bool \<Rightarrow> nat option \<Rightarrow> int \<Rightarrow> byte list \<Rightarrow> Device" where
  "NewDevice isTCPBind mtu now tape =
     \<lparr>dv_state = deviceStateDown, dv_privateKey = zeros 32, dv_publicKey = zeros 32, dv_peers = [], dv_keyMap = [],
      dv_underLoadUntil = 0, dv_limiter = Ratelimiter_Init, dv_allowedips = AllowedIPs0, dv_indexTable = [],
      dv_cookieChecker = CookieChecker0, dv_keypairs = [], dv_handshakeq = [],
      dv_mtu = (case mtu of None \<Rightarrow> DefaultMTU | Some m \<Rightarrow> m), dv_inboundFilter = None, dv_now = now, dv_rand = tape,
      dv_jitter = [], dv_sendq = [], dv_bindq = [], dv_bindOpen = False, dv_port = 0, dv_fwmark = 0,
      dv_brokenRoaming = isTCPBind, dv_tonatHandler = False, dv_net = [], dv_tunOut = [], dv_natClients = [],
      dv_sealed = [], dv_accepted = []\<rparr>"

text \<open>One event of RoutineTUNEventReader; MTU gives None on its error.\<close>

definition RoutineTUNEventReader :: "noise_env \<Rightarrow> byte list list \<Rightarrow> bool \<Rightarrow> int option \<Rightarrow> bool \<Rightarrow> bool \<Rightarrow> Device \<Rightarrow> Device" where
  "RoutineTUNEventReader E order mtuUpdate mtu up down d =
     (if mtuUpdate \<and> (case mtu of None \<Rightarrow> True | Some m \<Rightarrow> m < 0) then d
      else let d = (if mtuUpdate then d\<lparr>dv_mtu := min (nat (the mtu)) MaxContentSize\<rparr> else d);
               d = (if up then snd (changeState E order deviceStateUp d) else d)
           in if down then snd (changeState E order deviceStateDown d) else d)"

end
