(* ===== verification/Device_Core.thy ===== *)
theory Device_Core
  imports Device_Peers
begin

text \<open>
  An abstract machine of sessions and the proof that the device implements it.
  The machine keeps the keypairs, the nonces they have sealed, the counters they
  have accepted and the newest time stamp of each peer; every operation of the
  device is a sequence of its steps, so what the machine keeps the device keeps.
\<close>

section \<open>The machine\<close>

record core =
  co_keys :: "Keypair list"
  co_sealed :: "(nat \<times> 64 word) list"
  co_accepted :: "(nat \<times> 64 word) list"
  co_stamps :: "byte list list"

definition core_of :: "Device \<Rightarrow> core" where
  "core_of d = \<lparr>co_keys = dv_keypairs d, co_sealed = dv_sealed d, co_accepted = dv_accepted d,
     co_stamps = map (hs_lastTimestamp \<circ> pr_handshake) (dv_peers d)\<rparr>"

inductive core_step :: "core \<Rightarrow> core \<Rightarrow> bool" where
  new_keypair: "kp_sendNonce kp = 0 \<Longrightarrow> kp_replayFilter kp = Filter_Reset Filter0 \<Longrightarrow>
    core_step c (c\<lparr>co_keys := co_keys c @ [kp]\<rparr>)"
| seal: "k < length (co_keys c) \<Longrightarrow> kp_sendNonce (co_keys c ! k) \<le> n \<Longrightarrow> n \<le> RejectAfterMessages \<Longrightarrow>
    distinct ns \<Longrightarrow> (\<And>x. x \<in> set ns \<Longrightarrow> kp_sendNonce (co_keys c ! k) \<le> x \<and> x < n) \<Longrightarrow>
    core_step c (c\<lparr>co_keys := (co_keys c)[k := (co_keys c ! k)\<lparr>kp_sendNonce := n\<rparr>],
      co_sealed := co_sealed c @ map (Pair k) ns\<rparr>)"
| accept: "k < length (co_keys c) \<Longrightarrow>
    ValidateCounter n RejectAfterMessages (kp_replayFilter (co_keys c ! k)) = (ok, f) \<Longrightarrow>
    core_step c (c\<lparr>co_keys := (co_keys c)[k := (co_keys c ! k)\<lparr>kp_replayFilter := f\<rparr>],
      co_accepted := co_accepted c @ (if ok then [(k, n)] else [])\<rparr>)"
| stamp: "p < length (co_stamps c) \<Longrightarrow> ts_After ts (co_stamps c ! p) \<Longrightarrow>
    core_step c (c\<lparr>co_stamps := (co_stamps c)[p := ts]\<rparr>)"
| new_peer: "core_step c (c\<lparr>co_stamps := co_stamps c @ [zeros 12]\<rparr>)"

section \<open>What the machine keeps\<close>

definition core_ok :: "core \<Rightarrow> bool" where
  "core_ok c \<longleftrightarrow>
     (\<forall>kp \<in> set (co_keys c). kp_sendNonce kp \<le> RejectAfterMessages) \<and>
     distinct (co_sealed c) \<and>
     (\<forall>(k, n) \<in> set (co_sealed c). k < length (co_keys c) \<and> n < kp_sendNonce (co_keys c ! k)) \<and>
     distinct (co_accepted c) \<and>
     (\<forall>(k, n) \<in> set (co_accepted c). k < length (co_keys c)) \<and>
     (\<forall>k < length (co_keys c). \<exists>w. represents (kp_replayFilter (co_keys c ! k)) w \<and>
        seen w = unat ` {n. (k, n) \<in> set (co_accepted c)})"

lemma core_okD:
  assumes "core_ok c"
  shows "kp \<in> set (co_keys c) \<Longrightarrow> kp_sendNonce kp \<le> RejectAfterMessages" "distinct (co_sealed c)"
    "(k, n) \<in> set (co_sealed c) \<Longrightarrow> k < length (co_keys c) \<and> n < kp_sendNonce (co_keys c ! k)"
    "distinct (co_accepted c)" "(k, n) \<in> set (co_accepted c) \<Longrightarrow> k < length (co_keys c)"
    "k < length (co_keys c) \<Longrightarrow> \<exists>w. represents (kp_replayFilter (co_keys c ! k)) w \<and>
        seen w = unat ` {n. (k, n) \<in> set (co_accepted c)}"
  using assms unfolding core_ok_def by blast+

lemma core_okI:
  assumes "co_keys c = ks" "co_sealed c = sl" "co_accepted c = ac"
    "\<And>kp. kp \<in> set ks \<Longrightarrow> kp_sendNonce kp \<le> RejectAfterMessages" "distinct sl"
    "\<And>k n. (k, n) \<in> set sl \<Longrightarrow> k < length ks \<and> n < kp_sendNonce (ks ! k)"
    "distinct ac" "\<And>k n. (k, n) \<in> set ac \<Longrightarrow> k < length ks"
    "\<And>k. k < length ks \<Longrightarrow> \<exists>w. represents (kp_replayFilter (ks ! k)) w \<and> seen w = unat ` {n. (k, n) \<in> set ac}"
  shows "core_ok c"
  using assms(4-) unfolding core_ok_def assms(1-3) by blast

lemma core_ok_new_keypair:
  assumes ok: "core_ok c" and kp: "kp_sendNonce kp = 0" "kp_replayFilter kp = Filter_Reset Filter0"
  shows "core_ok (c\<lparr>co_keys := co_keys c @ [kp]\<rparr>)"
proof -
  have r: "represents (Filter_Reset Filter0) window0"
    by (rule Reset_represents) (simp add: Filter0_def)
  have fresh: "{n. (length (co_keys c), n) \<in> set (co_accepted c)} = {}"
    using core_okD(5) [OF ok] by blast
  show ?thesis
    unfolding core_ok_def
  proof (intro conjI ballI allI impI; clarsimp)
    show "kp_sendNonce x \<le> RejectAfterMessages" if "x = kp \<or> x \<in> set (co_keys c)" for x
      using that kp core_okD(1) [OF ok] by auto
    show "distinct (co_sealed c)" "distinct (co_accepted c)"
      using core_okD(2,4) [OF ok] .
    show "k < Suc (length (co_keys c)) \<and> n < kp_sendNonce ((co_keys c @ [kp]) ! k)" if "(k, n) \<in> set (co_sealed c)" for k n
      using core_okD(3) [OF ok that] by (simp add: nth_append)
    show "k < Suc (length (co_keys c))" if "(k, n) \<in> set (co_accepted c)" for k n
      using core_okD(5) [OF ok that] by simp
    show "\<exists>w. represents (kp_replayFilter ((co_keys c @ [kp]) ! k)) w \<and> seen w = unat ` {n. (k, n) \<in> set (co_accepted c)}"
      if "k < Suc (length (co_keys c))" for k
      using core_okD(6) [OF ok, of k] that r fresh kp
      by (cases "k = length (co_keys c)") (auto simp: nth_append window0_def intro: exI [of _ window0])
  qed
qed

lemma core_ok_seal:
  assumes ok: "core_ok c" and k: "k < length (co_keys c)"
    and n: "kp_sendNonce (co_keys c ! k) \<le> n" "n \<le> RejectAfterMessages"
    and ns: "distinct ns" "\<And>x. x \<in> set ns \<Longrightarrow> kp_sendNonce (co_keys c ! k) \<le> x \<and> x < n"
  shows "core_ok (c\<lparr>co_keys := (co_keys c)[k := (co_keys c ! k)\<lparr>kp_sendNonce := n\<rparr>],
      co_sealed := co_sealed c @ map (Pair k) ns\<rparr>)"
  unfolding core_ok_def
proof (intro conjI ballI allI impI; clarsimp)
  show "kp_sendNonce x \<le> RejectAfterMessages" if "x \<in> set ((co_keys c)[k := (co_keys c ! k)\<lparr>kp_sendNonce := n\<rparr>])" for x
    using that n core_okD(1) [OF ok] set_update_subset_insert by fastforce
  show "distinct (co_sealed c) \<and> distinct (map (Pair k) ns) \<and> set (co_sealed c) \<inter> Pair k ` set ns = {}"
    using core_okD(2,3) [OF ok] ns by (fastforce simp: distinct_map inj_on_def)
  show "j < length (co_keys c) \<and> x < kp_sendNonce ((co_keys c)[k := (co_keys c ! k)\<lparr>kp_sendNonce := n\<rparr>] ! j)"
    if "(j, x) \<in> set (co_sealed c) \<or> (j, x) \<in> Pair k ` set ns" for j x
    using that core_okD(3) [OF ok, of j x] ns(2) [of x] n k by (auto simp: nth_list_update)
  show "distinct (co_accepted c)" using core_okD(4) [OF ok] .
  show "j < length (co_keys c)" if "(j, x) \<in> set (co_accepted c)" for j x
    using core_okD(5) [OF ok that] .
  show "\<exists>w. represents (kp_replayFilter ((co_keys c)[k := (co_keys c ! k)\<lparr>kp_sendNonce := n\<rparr>] ! j)) w \<and>
      seen w = unat ` {n. (j, n) \<in> set (co_accepted c)}" if "j < length (co_keys c)" for j
    using core_okD(6) [OF ok that] that by (cases "j = k") simp_all
qed

lemma core_ok_accept:
  assumes ok: "core_ok c" and k: "k < length (co_keys c)"
    and v: "ValidateCounter n RejectAfterMessages (kp_replayFilter (co_keys c ! k)) = (b, f)"
  shows "core_ok (c\<lparr>co_keys := (co_keys c)[k := (co_keys c ! k)\<lparr>kp_replayFilter := f\<rparr>],
      co_accepted := co_accepted c @ (if b then [(k, n)] else [])\<rparr>)"
proof -
  obtain w where w: "represents (kp_replayFilter (co_keys c ! k)) w" "seen w = unat ` {x. (k, x) \<in> set (co_accepted c)}"
    using core_okD(6) [OF ok k] by blast
  let ?w = "snd (window_validate (unat n) (unat RejectAfterMessages) w)"
  have b: "b \<longleftrightarrow> window_accepts (unat n) (unat RejectAfterMessages) w" and f: "represents f ?w"
    using ValidateCounter_refines [OF w(1), of n RejectAfterMessages] v by (simp_all add: window_validate_def)
  have seen: "seen ?w = unat ` {x. (k, x) \<in> set (co_accepted c @ (if b then [(k, n)] else []))}"
    using w(2) b by (auto simp: window_validate_def)
  have fresh: "b \<Longrightarrow> (k, n) \<notin> set (co_accepted c)"
    using w(2) b by (auto simp: window_accepts_def)
  let ?ks = "(co_keys c)[k := (co_keys c ! k)\<lparr>kp_replayFilter := f\<rparr>]"
  let ?acc = "co_accepted c @ (if b then [(k, n)] else [])"
  let ?c = "c\<lparr>co_keys := ?ks, co_accepted := ?acc\<rparr>"
  show ?thesis
  proof (rule core_okI [of _ ?ks "co_sealed c" ?acc])
    show "kp_sendNonce x \<le> RejectAfterMessages" if "x \<in> set ?ks" for x
      using that k core_okD(1) [OF ok] set_update_subset_insert by fastforce
    show "distinct (co_sealed c)" using core_okD(2) [OF ok] .
    show "j < length ?ks \<and> x < kp_sendNonce (?ks ! j)" if "(j, x) \<in> set (co_sealed c)" for j x
      using core_okD(3) [OF ok that] by (cases "j = k") simp_all
    show "co_keys ?c = ?ks" "co_sealed ?c = co_sealed c" "co_accepted ?c = ?acc" by simp_all
    show "distinct ?acc"
      using core_okD(4) [OF ok] fresh by auto
    show "j < length ?ks" if "(j, x) \<in> set ?acc" for j x
      using core_okD(5) [OF ok, of j x] that k by (auto split: if_splits)
    show "\<exists>w. represents (kp_replayFilter (?ks ! j)) w \<and> seen w = unat ` {x. (j, x) \<in> set ?acc}"
      if "j < length ?ks" for j
    proof (cases "j = k")
      case True
      with f seen k show ?thesis by (intro exI [of _ ?w]) simp
    next
      case False
      with core_okD(6) [OF ok, of j] that show ?thesis by auto
    qed
  qed
qed

lemma core_step_ok: "core_step c c' \<Longrightarrow> core_ok c \<Longrightarrow> core_ok c'"
proof (induction rule: core_step.induct)
  case (stamp p c ts)
  then show ?case by (simp add: core_ok_def)
next
  case (new_peer c)
  then show ?case by (simp add: core_ok_def)
qed (rule core_ok_new_keypair core_ok_seal core_ok_accept; assumption)+

lemma core_steps_ok: "core_step\<^sup>*\<^sup>* c c' \<Longrightarrow> core_ok c \<Longrightarrow> core_ok c'"
  by (induction rule: rtranclp_induct) (auto intro: core_step_ok)

section \<open>Operations the machine does not see\<close>

lemmas timers_defs = timersDataSent_def timersDataReceived_def timersAnyAuthenticatedPacketSent_def
  timersAnyAuthenticatedPacketReceived_def timersHandshakeInitiated_def timersHandshakeComplete_def
  timersSessionDerived_def timersAnyAuthenticatedPacketTraversal_def timersStart_def timersStop_def fastrandn_def Let_def

lemmas endpoint_defs = clearEndpoint_def SetEndpointFromPacket_def markEndpointSrcForClearing_def StagePackets_def
  FlushStagedPackets_def add_rx_def stamp_packet_def IsUnderLoad_def case_prod_unfold Let_def

lemmas bind_defs = BindUpdate_def BindSetMark_def BindSetListenPort_def Let_def case_prod_unfold

lemma core_of_fields [simp]:
  "core_of (d\<lparr>dv_rand := a\<rparr>) = core_of d" "core_of (d\<lparr>dv_jitter := b\<rparr>) = core_of d" "core_of (d\<lparr>dv_indexTable := c\<rparr>) = core_of d"
  "core_of (d\<lparr>dv_sendq := e\<rparr>) = core_of d" "core_of (d\<lparr>dv_net := f\<rparr>) = core_of d" "core_of (d\<lparr>dv_cookieChecker := g\<rparr>) = core_of d"
  "core_of (d\<lparr>dv_limiter := h\<rparr>) = core_of d" "core_of (d\<lparr>dv_handshakeq := i\<rparr>) = core_of d" "core_of (d\<lparr>dv_tunOut := j\<rparr>) = core_of d"
  "core_of (d\<lparr>dv_natClients := k\<rparr>) = core_of d" "core_of (d\<lparr>dv_underLoadUntil := l\<rparr>) = core_of d"
  "core_of (d\<lparr>dv_state := m\<rparr>) = core_of d" "core_of (d\<lparr>dv_port := n\<rparr>) = core_of d" "core_of (d\<lparr>dv_bindOpen := o'\<rparr>) = core_of d"
  "core_of (d\<lparr>dv_bindq := q\<rparr>) = core_of d" "core_of (d\<lparr>dv_fwmark := r\<rparr>) = core_of d" "core_of (d\<lparr>dv_keyMap := s\<rparr>) = core_of d"
  "core_of (d\<lparr>dv_allowedips := t\<rparr>) = core_of d" "core_of (d\<lparr>dv_privateKey := u\<rparr>) = core_of d"
  "core_of (d\<lparr>dv_publicKey := v\<rparr>) = core_of d" "core_of (d\<lparr>dv_mtu := w\<rparr>) = core_of d" "core_of (d\<lparr>dv_now := x\<rparr>) = core_of d"
  "core_of (d\<lparr>dv_inboundFilter := y\<rparr>) = core_of d" "core_of (d\<lparr>dv_tonatHandler := z\<rparr>) = core_of d"
  by (simp_all add: core_of_def)

lemma map_update_same: "f y = f (xs ! i) \<Longrightarrow> map f (xs[i := y]) = map f xs"
  by (metis list_update_id map_update)

lemma core_of_upd_peer [simp]:
  "(\<And>r. hs_lastTimestamp (pr_handshake (f r)) = hs_lastTimestamp (pr_handshake r)) \<Longrightarrow> core_of (upd_peer p f d) = core_of d"
  by (simp add: core_of_def upd_peer_def map_update_same)

lemma core_of_upd_sub [simp]:
  "core_of (upd_tm p g d) = core_of d" "core_of (upd_ks p h d) = core_of d"
  "(\<And>x. hs_lastTimestamp (f x) = hs_lastTimestamp x) \<Longrightarrow> core_of (upd_hs p f d) = core_of d"
  by (simp_all add: upd_tm_def upd_ks_def upd_hs_def)

lemma core_of_set_hs [simp]:
  "hs_lastTimestamp h = hs_lastTimestamp (peer_hs p d) \<Longrightarrow> core_of (set_hs p h d) = core_of d"
  by (simp add: core_of_def set_hs_def upd_hs_def upd_peer_def peer_hs_def map_update_same)

lemma core_of_index [simp]:
  "core_of (index_Delete i d) = core_of d" "core_of (SwapIndexForKeypair i k d) = core_of d" "core_of (DeleteKeypair key d) = core_of d"
  "core_of (snd (NewIndexForHandshake p d)) = core_of d" "core_of (snd (newPrivateKey d)) = core_of d"
  by (simp_all add: index_Delete_def SwapIndexForKeypair_def DeleteKeypair_def NewIndexForHandshake_def newPrivateKey_def
      split: option.split prod.split)

lemma core_of_timers [simp]:
  "core_of (timersDataSent p d) = core_of d" "core_of (timersDataReceived p d) = core_of d"
  "core_of (timersAnyAuthenticatedPacketSent p d) = core_of d" "core_of (timersAnyAuthenticatedPacketReceived p d) = core_of d"
  "core_of (timersHandshakeInitiated p d) = core_of d" "core_of (timersHandshakeComplete p d) = core_of d"
  "core_of (timersSessionDerived p d) = core_of d" "core_of (timersAnyAuthenticatedPacketTraversal p d) = core_of d"
  "core_of (timersStart p d) = core_of d" "core_of (timersStop p d) = core_of d"
  by (simp_all add: timers_defs
      split: list.split)

lemma core_of_endpoint [simp]:
  "core_of (clearEndpoint p d) = core_of d" "core_of (SetEndpointFromPacket e p d) = core_of d"
  "core_of (markEndpointSrcForClearing p d) = core_of d" "core_of (StagePackets p x d) = core_of d"
  "core_of (FlushStagedPackets p d) = core_of d" "core_of (add_rx p n d) = core_of d"
  "core_of (snd (stamp_packet E p b d)) = core_of d" "core_of (snd (IsUnderLoad d)) = core_of d"
  by (simp_all add: endpoint_defs)

lemma core_of_SendBuffers [simp]: "core_of (snd (SendBuffers p bufs d)) = core_of d"
  by (simp add: SendBuffers_def Let_def split: option.split send_result.split)

lemma core_of_tape: "tape_and_table d d1 \<Longrightarrow> core_of d1 = core_of d"
  by (auto simp: tape_and_table_def)

lemma core_of_set_after_tape:
  "tape_and_table d d1 \<Longrightarrow> hs_lastTimestamp h = hs_lastTimestamp (peer_hs p d) \<Longrightarrow> core_of (set_hs p h d1) = core_of d"
  by (auto simp: tape_and_table_def peer_hs_def)

lemma stamp_mix [simp]:
  "hs_lastTimestamp (hs_mixHash E x h) = hs_lastTimestamp h" "hs_lastTimestamp (hs_mixKey E x h) = hs_lastTimestamp h"
  "hs_lastTimestamp (hs_Clear h) = hs_lastTimestamp h"
  by (simp_all add: hs_mixHash_def hs_mixKey_def hs_Clear_def)

lemma core_of_CreateMessageInitiation [simp]: "core_of (snd (CreateMessageInitiation E p d)) = core_of d"
proof -
  obtain sk ok d1 where k: "newPrivateKey d = ((sk, ok), d1)" by (metis prod.collapse)
  note d1 = tape_and_table_intros(3) [OF k]
  have d2: "tape_and_table d (snd (NewIndexForHandshake p (index_Delete i d1)))" for i
    using tape_and_table_trans [OF d1] tape_and_table_trans tape_and_table_intros(2,4) by (metis prod.collapse)
  have "core_of d' = core_of d" if "CreateMessageInitiation E p d = (r, d')" for r d'
    using that k
    by (auto simp: CreateMessageInitiation_def Let_def case_prod_beta intro!: core_of_set_after_tape [OF d1] core_of_set_after_tape [OF d2]
        split: option.splits if_splits prod.splits)
  then show ?thesis by (metis prod.collapse)
qed

lemma core_of_CreateMessageResponse [simp]: "core_of (snd (CreateMessageResponse E p d)) = core_of d"
proof -
  obtain r1 d1 where i: "NewIndexForHandshake p (index_Delete (hs_localIndex (peer_hs p d)) d) = (r1, d1)"
    by (metis prod.collapse)
  have d1: "tape_and_table d d1"
    using tape_and_table_trans [OF tape_and_table_intros(2) tape_and_table_intros(4) [OF i]] .
  have d2: "tape_and_table d (snd (newPrivateKey d1))"
    using tape_and_table_trans [OF d1] tape_and_table_intros(3) by (metis prod.collapse)
  have "core_of d' = core_of d" if "CreateMessageResponse E p d = (r, d')" for r d'
    using that i
    by (auto simp: CreateMessageResponse_def Let_def case_prod_beta intro!: core_of_set_after_tape [OF d1] core_of_set_after_tape [OF d2]
        split: option.splits if_splits prod.splits)
  then show ?thesis by (metis prod.collapse)
qed

lemma core_of_ConsumeMessageResponse [simp]: "core_of (snd (ConsumeMessageResponse E msg d)) = core_of d"
  by (simp add: ConsumeMessageResponse_def Let_def case_prod_unfold split: option.split)

lemma core_of_ReceivedWithKeypair [simp]: "core_of (snd (ReceivedWithKeypair p k d)) = core_of d"
  by (simp add: ReceivedWithKeypair_def Let_def)

lemma core_of_rotate [simp]: "core_of (rotate_keypairs p b k d) = core_of d"
  by (simp add: rotate_keypairs_def Let_def)

lemma core_of_SendHandshakeInitiation [simp]: "core_of (SendHandshakeInitiation E b p d) = core_of d"
  by (simp add: SendHandshakeInitiation_def Let_def case_prod_unfold split: option.split)

lemma core_of_send [simp]:
  "core_of (SendHandshakeCookie E packet e d) = core_of d" "core_of (keepKeyFreshSending E p d) = core_of d"
  "core_of (RoutineSequentialSender E p d) = core_of d" "core_of (keepKeyFreshReceiving E p d) = core_of d"
  "core_of (handle_cookie_reply E packet d) = core_of d"
  by (simp_all add: SendHandshakeCookie_def keepKeyFreshSending_def RoutineSequentialSender_def keepKeyFreshReceiving_def
      handle_cookie_reply_def Let_def case_prod_unfold split: option.split list.split)

lemma core_of_admit [simp]: "core_of (snd (admit_handshake E packet e d)) = core_of d"
  by (simp add: admit_handshake_def Let_def case_prod_unfold split: bool.split)

lemma core_of_sort [simp]: "core_of (snd (sort_datagrams E ds groups d)) = core_of d"
  by (induction E ds groups d rule: sort_datagrams.induct)
    (simp_all add: Let_def split: option.split)

lemma core_of_fold: "(\<And>x d. core_of (f x d) = core_of d) \<Longrightarrow> core_of (fold f xs d) = core_of d"
  by (induction xs arbitrary: d) simp_all

lemma core_of_RoutineReceiveIncoming [simp]: "core_of (RoutineReceiveIncoming E order ds d) = core_of d"
  by (simp add: RoutineReceiveIncoming_def case_prod_unfold Let_def core_of_fold)

lemma core_of_deliver [simp]: "core_of (snd (deliver p elem packet acc d)) = core_of d"
  by (simp add: deliver_def Let_def split: option.split)

lemma core_of_finish [simp]: "core_of (finish_batch E p acc d) = core_of d"
  by (simp add: finish_batch_def Let_def split: option.split)

lemma core_of_lifecycle [simp]:
  "core_of (ZeroAndFlushAll p d) = core_of d" "core_of (Start p d) = core_of d"
  "core_of (snd (bind_call d)) = core_of d" "core_of (snd (closeBindLocked d)) = core_of d"
  "core_of (mark_endpoints order d) = core_of d" 
  "core_of (expiredRetransmitHandshake E p d) = core_of d" "core_of (expiredNewHandshake E p d) = core_of d"
  by (simp_all add: ZeroAndFlushAll_def Start_def bind_call_def closeBindLocked_def mark_endpoints_def core_of_fold
      expiredRetransmitHandshake_def expiredNewHandshake_def Let_def case_prod_unfold split: list.split)

lemma core_of_bind [simp]:
  "core_of (snd (BindUpdate order d)) = core_of d" "core_of (snd (BindSetMark order m d)) = core_of d"
  "core_of (snd (BindSetListenPort order lp u port d)) = core_of d"
  by (simp_all add: bind_defs split: bind_reply.split)

end
