(* ===== verification/Device_Shape.thy ===== *)
theory Device_Shape
  imports Device_Core AllowedIPs_Correct
begin

text \<open>
  Well-formedness of the device: the index table has distinct indices, every
  entry belongs to the handshake that holds its index or to a keypair in a slot
  of its peer, no pointer to a keypair or a peer dangles, and the routing table is
  in order.
\<close>

section \<open>Shape\<close>

record shape =
  sh_local :: "32 word list"
  sh_table :: "(32 word \<times> IndexTableEntry) list"
  sh_peers :: "(nat set \<times> 32 word \<times> nat set) list"
  sh_keys :: "nat set"
  sh_routes :: AllowedIPs

definition slots :: "Keypairs \<Rightarrow> nat set" where
  "slots ks = set_option (ks_current ks) \<union> set_option (ks_previous ks) \<union> set_option (ks_next ks)"

definition peer_shape :: "peer_obj \<Rightarrow> nat set \<times> 32 word \<times> nat set" where
  "peer_shape r = (slots (pr_keypairs r), hs_localIndex (pr_handshake r), in_keypair ` (\<Union>c\<in>set (pr_inbound r). set c))"

definition shape_of :: "Device \<Rightarrow> shape" where
  "shape_of d = \<lparr>sh_local = map kp_localIndex (dv_keypairs d), sh_table = dv_indexTable d, sh_peers = map peer_shape (dv_peers d),
     sh_keys = snd ` set (dv_keyMap d), sh_routes = dv_allowedips d\<rparr>"

definition entry_ok :: "shape \<Rightarrow> 32 word \<Rightarrow> IndexTableEntry \<Rightarrow> bool" where
  "entry_ok s i e \<longleftrightarrow> ie_peer e < length (sh_peers s) \<and>
     (case ie_target e of
        ToHandshake \<Rightarrow> fst (snd (sh_peers s ! ie_peer e)) = i
      | ToKeypair k \<Rightarrow> k \<in> fst (sh_peers s ! ie_peer e) \<and> sh_local s ! k = i)"

definition shape_ok :: "shape \<Rightarrow> bool" where
  "shape_ok s \<longleftrightarrow> distinct (map fst (sh_table s)) \<and> (\<forall>(i, e) \<in> set (sh_table s). entry_ok s i e) \<and>
     (\<forall>x \<in> set (sh_peers s). fst x \<union> snd (snd x) \<subseteq> {..<length (sh_local s)}) \<and>
     sh_keys s \<subseteq> {..<length (sh_peers s)} \<and> table_inv (sh_routes s) \<and> ran (routes_of (sh_routes s)) \<subseteq> {..<length (sh_peers s)}"

section \<open>Operations that keep the shape\<close>

lemma shape_of_fields [simp]:
  "shape_of (d\<lparr>dv_rand := a\<rparr>) = shape_of d" "shape_of (d\<lparr>dv_jitter := b\<rparr>) = shape_of d"
  "shape_of (d\<lparr>dv_sendq := e\<rparr>) = shape_of d" "shape_of (d\<lparr>dv_net := f\<rparr>) = shape_of d" "shape_of (d\<lparr>dv_cookieChecker := g\<rparr>) = shape_of d"
  "shape_of (d\<lparr>dv_limiter := h\<rparr>) = shape_of d" "shape_of (d\<lparr>dv_handshakeq := i\<rparr>) = shape_of d" "shape_of (d\<lparr>dv_tunOut := j\<rparr>) = shape_of d"
  "shape_of (d\<lparr>dv_natClients := k\<rparr>) = shape_of d" "shape_of (d\<lparr>dv_underLoadUntil := l\<rparr>) = shape_of d"
  "shape_of (d\<lparr>dv_state := m\<rparr>) = shape_of d" "shape_of (d\<lparr>dv_port := n\<rparr>) = shape_of d" "shape_of (d\<lparr>dv_bindOpen := o'\<rparr>) = shape_of d"
  "shape_of (d\<lparr>dv_bindq := q\<rparr>) = shape_of d" "shape_of (d\<lparr>dv_fwmark := r\<rparr>) = shape_of d"
  "shape_of (d\<lparr>dv_privateKey := u\<rparr>) = shape_of d"
  "shape_of (d\<lparr>dv_publicKey := v\<rparr>) = shape_of d" "shape_of (d\<lparr>dv_mtu := w\<rparr>) = shape_of d" "shape_of (d\<lparr>dv_now := x\<rparr>) = shape_of d"
  "shape_of (d\<lparr>dv_inboundFilter := y\<rparr>) = shape_of d" "shape_of (d\<lparr>dv_tonatHandler := z\<rparr>) = shape_of d"
  "shape_of (d\<lparr>dv_sealed := a'\<rparr>) = shape_of d" "shape_of (d\<lparr>dv_accepted := b'\<rparr>) = shape_of d"
  by (simp_all add: shape_of_def)

lemma shape_of_upd_peer [simp]:
  "(\<And>r. peer_shape (f r) = peer_shape r) \<Longrightarrow> shape_of (upd_peer p f d) = shape_of d"
  by (simp add: shape_of_def upd_peer_def map_update_same)

lemma peer_shape_simps [simp]:
  "peer_shape (r\<lparr>pr_timers := a\<rparr>) = peer_shape r" "peer_shape (r\<lparr>pr_endpoint := b\<rparr>) = peer_shape r"
  "peer_shape (r\<lparr>pr_clearSrcOnTx := c\<rparr>) = peer_shape r" "peer_shape (r\<lparr>pr_staged := e\<rparr>) = peer_shape r"
  "peer_shape (r\<lparr>pr_outbound := f\<rparr>) = peer_shape r" "peer_shape (r\<lparr>pr_cookieGenerator := g\<rparr>) = peer_shape r"
  "peer_shape (r\<lparr>pr_txBytes := h\<rparr>) = peer_shape r" "peer_shape (r\<lparr>pr_rxBytes := i\<rparr>) = peer_shape r"
  "peer_shape (r\<lparr>pr_lastHandshakeNano := j\<rparr>) = peer_shape r" "peer_shape (r\<lparr>pr_handshakeRTTNano := k\<rparr>) = peer_shape r"
  "peer_shape (r\<lparr>pr_isRunning := l\<rparr>) = peer_shape r"
  by (simp_all add: peer_shape_def)

lemma shape_of_upd_sub [simp]:
  "shape_of (upd_tm p g d) = shape_of d"
  "(\<And>x. hs_localIndex (f x) = hs_localIndex x) \<Longrightarrow> shape_of (upd_hs p f d) = shape_of d"
  by (simp_all add: upd_tm_def upd_hs_def peer_shape_def)

lemma shape_of_set_hs [simp]:
  "hs_localIndex h = hs_localIndex (peer_hs p d) \<Longrightarrow> shape_of (set_hs p h d) = shape_of d"
  by (simp add: shape_of_def set_hs_def upd_hs_def upd_peer_def peer_hs_def map_update_same peer_shape_def)

lemma shape_of_upd_kp [simp]:
  "(\<And>x. kp_localIndex (f x) = kp_localIndex x) \<Longrightarrow> shape_of (upd_kp k f d) = shape_of d"
  by (simp add: shape_of_def upd_kp_def map_update_same)

lemma shape_of_newPrivateKey [simp]: "shape_of (snd (newPrivateKey d)) = shape_of d"
  by (simp add: newPrivateKey_def split: option.split prod.split)

lemma shape_of_timers [simp]:
  "shape_of (timersDataSent p d) = shape_of d" "shape_of (timersDataReceived p d) = shape_of d"
  "shape_of (timersAnyAuthenticatedPacketSent p d) = shape_of d" "shape_of (timersAnyAuthenticatedPacketReceived p d) = shape_of d"
  "shape_of (timersHandshakeInitiated p d) = shape_of d" "shape_of (timersHandshakeComplete p d) = shape_of d"
  "shape_of (timersSessionDerived p d) = shape_of d" "shape_of (timersAnyAuthenticatedPacketTraversal p d) = shape_of d"
  "shape_of (timersStart p d) = shape_of d" "shape_of (timersStop p d) = shape_of d"
  by (simp_all add: timers_defs
      split: list.split)

lemma shape_of_endpoint [simp]:
  "shape_of (clearEndpoint p d) = shape_of d" "shape_of (SetEndpointFromPacket e p d) = shape_of d"
  "shape_of (markEndpointSrcForClearing p d) = shape_of d" "shape_of (StagePackets p x d) = shape_of d"
  "shape_of (FlushStagedPackets p d) = shape_of d" "shape_of (add_rx p n d) = shape_of d"
  "shape_of (snd (stamp_packet E p b d)) = shape_of d" "shape_of (snd (IsUnderLoad d)) = shape_of d"
  by (simp_all add: endpoint_defs)

lemma shape_of_SendBuffers [simp]: "shape_of (snd (SendBuffers p bufs d)) = shape_of d"
  by (simp add: SendBuffers_def Let_def split: option.split send_result.split)

lemma shape_of_queue [simp]: "shape_of (queue_outbound E p k xs d) = shape_of d"
  by (simp add: queue_outbound_def)

lemma shape_of_assign [simp]: "shape_of (snd (assign_nonces k xs d)) = shape_of d"
  by (induction k xs d rule: assign_nonces.induct) (simp_all add: Let_def case_prod_unfold)

lemma shape_of_send [simp]:
  "shape_of (SendHandshakeCookie E packet e d) = shape_of d" "shape_of (handle_cookie_reply E packet d) = shape_of d"
  by (simp_all add: SendHandshakeCookie_def handle_cookie_reply_def Let_def case_prod_unfold split: option.split list.split)

lemma shape_of_admit [simp]: "shape_of (snd (admit_handshake E packet e d)) = shape_of d"
  by (simp add: admit_handshake_def Let_def case_prod_unfold split: bool.split)

lemma shape_of_sort [simp]: "shape_of (snd (sort_datagrams E ds groups d)) = shape_of d"
  by (induction E ds groups d rule: sort_datagrams.induct)
    (simp_all add: Let_def split: option.split)

lemma shape_of_deliver [simp]: "shape_of (snd (deliver p elem packet acc d)) = shape_of d"
  by (simp add: deliver_def Let_def split: option.split)

lemma shape_of_fold: "(\<And>x d. shape_of (f x d) = shape_of d) \<Longrightarrow> shape_of (fold f xs d) = shape_of d"
  by (induction xs arbitrary: d) simp_all

lemma shape_of_bind_call [simp]: "shape_of (snd (bind_call d)) = shape_of d" "shape_of (snd (closeBindLocked d)) = shape_of d"
  "shape_of (mark_endpoints order d) = shape_of d" 
  by (simp_all add: bind_call_def closeBindLocked_def mark_endpoints_def shape_of_fold case_prod_unfold Let_def split: list.split)

lemma shape_of_bind [simp]:
  "shape_of (snd (BindUpdate order d)) = shape_of d" "shape_of (snd (BindSetMark order m d)) = shape_of d"
  "shape_of (snd (BindSetListenPort order lp u port d)) = shape_of d"
  by (simp_all add: bind_defs split: bind_reply.split)

section \<open>Changes of the index table\<close>

lemma shape_okD:
  assumes "shape_ok s"
  shows "distinct (map fst (sh_table s))" "(i, e) \<in> set (sh_table s) \<Longrightarrow> entry_ok s i e"
    "p < length (sh_peers s) \<Longrightarrow> fst (sh_peers s ! p) \<union> snd (snd (sh_peers s ! p)) \<subseteq> {..<length (sh_local s)}"
    "sh_keys s \<subseteq> {..<length (sh_peers s)}" "table_inv (sh_routes s)" "ran (routes_of (sh_routes s)) \<subseteq> {..<length (sh_peers s)}"
  using assms nth_mem [of p "sh_peers s"] unfolding shape_ok_def by blast+

text \<open>
  The general case: one peer changes its slots, its index and its queue; the
  entries of the other peers are among the old ones, its own are as they must be.
\<close>

lemma shape_ok_change:
  assumes ok: "shape_ok s" and p: "p < length (sh_peers s)"
    and l: "\<exists>xs. sh_local s' = sh_local s @ xs" and g: "sh_keys s' = sh_keys s" "sh_routes s' = sh_routes s"
    and s: "sh_peers s' = (sh_peers s)[p := (S, l, I)]" "S \<union> I \<subseteq> {..<length (sh_local s')}"
    and t: "distinct (map fst (sh_table s'))"
      "\<And>i e. (i, e) \<in> set (sh_table s') \<Longrightarrow> ie_peer e \<noteq> p \<Longrightarrow> (i, e) \<in> set (sh_table s)"
      "\<And>i e. (i, e) \<in> set (sh_table s') \<Longrightarrow> ie_peer e = p \<Longrightarrow>
        (case ie_target e of ToHandshake \<Rightarrow> i = l | ToKeypair k \<Rightarrow> k \<in> S \<and> sh_local s' ! k = i)"
  shows "shape_ok s'"
proof -
  obtain xs where xs: "sh_local s' = sh_local s @ xs" using l by blast
  have "entry_ok s' i x" if "(i, x) \<in> set (sh_table s')" for i x
  proof (cases "ie_peer x = p")
    case True
    with t(3) [OF that] p show ?thesis by (auto simp: entry_ok_def s(1) split: index_target.splits)
  next
    case False
    then have old: "entry_ok s i x" using shape_okD(2) [OF ok] that t(2) by blast
    then have k: "ie_target x = ToKeypair k \<Longrightarrow> k < length (sh_local s)" for k
      using shape_okD(3) [OF ok, of "ie_peer x"] by (auto simp: entry_ok_def)
    show ?thesis
      using old k False by (auto simp: entry_ok_def s(1) xs nth_append split: index_target.splits)
  qed
  moreover have "fst x \<union> snd (snd x) \<subseteq> {..<length (sh_local s')}" if "x \<in> set (sh_peers s')" for x
  proof -
    have "x = (S, l, I) \<or> x \<in> set (sh_peers s)"
      using that set_update_subset_insert by (fastforce simp: s(1))
    then show ?thesis
      using s(2) ok by (fastforce simp: shape_ok_def xs)
  qed
  ultimately show ?thesis
    unfolding shape_ok_def using t(1) shape_okD(4-6) [OF ok] by (auto simp: g s(1))
qed

definition dev_ok :: "Device \<Rightarrow> bool" where
  "dev_ok d \<longleftrightarrow> shape_ok (shape_of d)"

lemma dev_ok_change:
  assumes ok: "dev_ok d" and p: "p < length (dv_peers d)"
    and r: "dv_peers d' = (dv_peers d)[p := r]"
    and l: "map kp_localIndex (dv_keypairs d') = map kp_localIndex (dv_keypairs d) @ xs"
    and g: "dv_keyMap d' = dv_keyMap d" "dv_allowedips d' = dv_allowedips d"
    and s: "fst (peer_shape r) \<union> snd (snd (peer_shape r)) \<subseteq> {..<length (dv_keypairs d')}"
    and t: "distinct (map fst (dv_indexTable d'))"
      "\<And>i e. (i, e) \<in> set (dv_indexTable d') \<Longrightarrow> ie_peer e \<noteq> p \<Longrightarrow> (i, e) \<in> set (dv_indexTable d)"
      "\<And>i e. (i, e) \<in> set (dv_indexTable d') \<Longrightarrow> ie_peer e = p \<Longrightarrow>
        (case ie_target e of ToHandshake \<Rightarrow> i = fst (snd (peer_shape r))
         | ToKeypair k \<Rightarrow> k \<in> fst (peer_shape r) \<and> kp_localIndex (dv_keypairs d' ! k) = i)"
  shows "dev_ok d'"
proof -
  have "shape_ok (shape_of d')"
  proof (rule shape_ok_change [where s = "shape_of d" and p = p and S = "fst (peer_shape r)" and
        l = "fst (snd (peer_shape r))" and I = "snd (snd (peer_shape r))"])
    show "shape_ok (shape_of d)" using ok by (simp add: dev_ok_def)
    show "\<exists>xs. sh_local (shape_of d') = sh_local (shape_of d) @ xs" using l by (simp add: shape_of_def)
    show "case ie_target e of ToHandshake \<Rightarrow> i = fst (snd (peer_shape r))
       | ToKeypair k \<Rightarrow> k \<in> fst (peer_shape r) \<and> sh_local (shape_of d') ! k = i"
      if "(i, e) \<in> set (sh_table (shape_of d'))" and "ie_peer e = p" for i e
      using t(3) [of i e] that s by (auto simp: shape_of_def split: index_target.splits)
  qed (use p r s t(1,2) g in \<open>simp_all add: shape_of_def map_update\<close>)
  then show ?thesis by (simp add: dev_ok_def)
qed

lemma dev_okD:
  assumes "dev_ok d"
  shows "distinct (map fst (dv_indexTable d))"
    "(i, e) \<in> set (dv_indexTable d) \<Longrightarrow> ie_peer e < length (dv_peers d)"
    "(i, e) \<in> set (dv_indexTable d) \<Longrightarrow> ie_target e = ToHandshake \<Longrightarrow> hs_localIndex (peer_hs (ie_peer e) d) = i"
    "(i, e) \<in> set (dv_indexTable d) \<Longrightarrow> ie_target e = ToKeypair k \<Longrightarrow>
      k \<in> slots (pr_keypairs (dv_peers d ! ie_peer e)) \<and> k < length (dv_keypairs d) \<and> kp_localIndex (dv_keypairs d ! k) = i"
    "p < length (dv_peers d) \<Longrightarrow> slots (pr_keypairs (dv_peers d ! p)) \<subseteq> {..<length (dv_keypairs d)}"
    "p < length (dv_peers d) \<Longrightarrow> c \<in> set (pr_inbound (dv_peers d ! p)) \<Longrightarrow> x \<in> set c \<Longrightarrow> in_keypair x < length (dv_keypairs d)"
    "(key, p) \<in> set (dv_keyMap d) \<Longrightarrow> p < length (dv_peers d)"
    "table_inv (dv_allowedips d)" "routes_of (dv_allowedips d) r = Some p \<Longrightarrow> p < length (dv_peers d)"
proof -
  note ok = assms [unfolded dev_ok_def]
  show s: "p < length (dv_peers d) \<Longrightarrow> slots (pr_keypairs (dv_peers d ! p)) \<subseteq> {..<length (dv_keypairs d)}" for p
    using shape_okD(3) [OF ok, of p] by (simp add: shape_of_def peer_shape_def)
  show "distinct (map fst (dv_indexTable d))" using shape_okD(1) [OF ok] by (simp add: shape_of_def)
  assume e: "(i, e) \<in> set (dv_indexTable d)"
  then have "entry_ok (shape_of d) i e" using shape_okD(2) [OF ok] by (simp add: shape_of_def)
  then show p: "ie_peer e < length (dv_peers d)" and "ie_target e = ToHandshake \<Longrightarrow> hs_localIndex (peer_hs (ie_peer e) d) = i"
    and "ie_target e = ToKeypair k \<Longrightarrow>
      k \<in> slots (pr_keypairs (dv_peers d ! ie_peer e)) \<and> k < length (dv_keypairs d) \<and> kp_localIndex (dv_keypairs d ! k) = i"
    using s [of "ie_peer e"] by (auto simp: entry_ok_def shape_of_def peer_shape_def peer_hs_def)
next
  note ok = assms [unfolded dev_ok_def]
  show "p < length (dv_peers d) \<Longrightarrow> c \<in> set (pr_inbound (dv_peers d ! p)) \<Longrightarrow> x \<in> set c \<Longrightarrow> in_keypair x < length (dv_keypairs d)"
    using shape_okD(3) [OF ok, of p] by (force simp: shape_of_def peer_shape_def)
  show "(key, p) \<in> set (dv_keyMap d) \<Longrightarrow> p < length (dv_peers d)" "table_inv (dv_allowedips d)"
    "routes_of (dv_allowedips d) r = Some p \<Longrightarrow> p < length (dv_peers d)"
    using shape_okD(4-6) [OF ok] by (auto simp: shape_of_def dest: ranI)
qed

lemma dev_ok_frame: "shape_of d' = shape_of d \<Longrightarrow> dev_ok d' \<longleftrightarrow> dev_ok d"
  by (simp add: dev_ok_def)

lemma in_delete: "(i, e) \<in> set (AList.delete j xs) \<longleftrightarrow> (i, e) \<in> set xs \<and> i \<noteq> j"
  by (auto simp: AList.delete_eq)

lemma in_update: "(i, e) \<in> set (AList.update j x xs) \<Longrightarrow> distinct (map fst xs) \<Longrightarrow> (i, e) \<in> set xs \<and> i \<noteq> j \<or> i = j \<and> e = x"
  by (metis distinct_update map_of_eq_Some_iff update_conv fun_upd_apply option.inject)

lemma dev_ok_fewer:
  assumes ok: "dev_ok d" and t: "distinct (map fst table)" "set table \<subseteq> set (dv_indexTable d)"
  shows "dev_ok (d\<lparr>dv_indexTable := table\<rparr>)"
proof -
  have s: "shape_of (d\<lparr>dv_indexTable := table\<rparr>) = (shape_of d)\<lparr>sh_table := table\<rparr>" by (simp add: shape_of_def)
  have e: "entry_ok (s\<lparr>sh_table := table\<rparr>) i e = entry_ok s i e" for s i e
    by (simp add: entry_ok_def split: index_target.split)
  have "sh_table (shape_of d) = dv_indexTable d" by (simp add: shape_of_def)
  then show ?thesis using assms by (auto simp: dev_ok_def shape_ok_def s e)
qed

lemma dev_ok_delete: "dev_ok d \<Longrightarrow> dev_ok (index_Delete i d)"
  unfolding index_Delete_def using dev_okD(1)
  by (intro dev_ok_fewer) (auto simp: in_delete intro: distinct_delete)

lemma dev_ok_DeleteKeypair: "dev_ok d \<Longrightarrow> dev_ok (DeleteKeypair k d)"
  by (cases k) (simp_all add: DeleteKeypair_def dev_ok_delete)

lemma peer_shape_hs [simp]:
  "peer_shape (r\<lparr>pr_handshake := h\<rparr>) = (slots (pr_keypairs r), hs_localIndex h, snd (snd (peer_shape r)))"
  by (simp add: peer_shape_def)

lemma peer_in_range:
  "dev_ok d \<Longrightarrow> p < length (dv_peers d) \<Longrightarrow>
     slots (pr_keypairs (dv_peers d ! p)) \<union> snd (snd (peer_shape (dv_peers d ! p))) \<subseteq> {..<length (dv_keypairs d)}"
  using shape_okD(3) [of "shape_of d" p] by (simp add: dev_ok_def shape_of_def peer_shape_def)

text \<open>A peer whose handshake has no entry may take any index; with a fresh entry it takes that.\<close>

lemma dev_ok_set_hs_None:
  assumes ok: "dev_ok d" and p: "p < length (dv_peers d)"
    and none: "\<And>i e. (i, e) \<in> set (dv_indexTable d) \<Longrightarrow> ie_peer e = p \<Longrightarrow> ie_target e \<noteq> ToHandshake"
  shows "dev_ok (set_hs p h d)"
proof (rule dev_ok_change [OF ok p, where r = "(dv_peers d ! p)\<lparr>pr_handshake := h\<rparr>" and xs = "[]"])
  show "dv_peers (set_hs p h d) = (dv_peers d)[p := (dv_peers d ! p)\<lparr>pr_handshake := h\<rparr>]"
    by (simp add: set_hs_def upd_hs_def upd_peer_def)
qed (use dev_okD [OF ok] peer_in_range [OF ok p] none in \<open>auto split: index_target.splits\<close>)

lemma dev_ok_set_hs_index:
  assumes ok: "dev_ok d" and p: "p < length (dv_peers d)" and i: "map_of (dv_indexTable d) i = None" and h: "hs_localIndex h = i"
    and none: "\<And>i e. (i, e) \<in> set (dv_indexTable d) \<Longrightarrow> ie_peer e = p \<Longrightarrow> ie_target e \<noteq> ToHandshake"
  shows "dev_ok (set_hs p h (d\<lparr>dv_indexTable := AList.update i \<lparr>ie_peer = p, ie_target = ToHandshake\<rparr> (dv_indexTable d)\<rparr>))" (is "dev_ok ?d")
proof (rule dev_ok_change [OF ok p, where r = "(dv_peers d ! p)\<lparr>pr_handshake := h\<rparr>" and xs = "[]"])
  show "dv_peers ?d = (dv_peers d)[p := (dv_peers d ! p)\<lparr>pr_handshake := h\<rparr>]"
    by (simp add: set_hs_def upd_hs_def upd_peer_def)
  show "(j, e) \<in> set (dv_indexTable d)" if "(j, e) \<in> set (dv_indexTable ?d)" "ie_peer e \<noteq> p" for j e
    using in_update [of j e i "\<lparr>ie_peer = p, ie_target = ToHandshake\<rparr>" "dv_indexTable d"] that dev_okD(1) [OF ok] by auto
  show "case ie_target e of ToHandshake \<Rightarrow> j = fst (snd (peer_shape ((dv_peers d ! p)\<lparr>pr_handshake := h\<rparr>)))
     | ToKeypair k \<Rightarrow> k \<in> fst (peer_shape ((dv_peers d ! p)\<lparr>pr_handshake := h\<rparr>)) \<and> kp_localIndex (dv_keypairs ?d ! k) = j"
    if m: "(j, e) \<in> set (dv_indexTable ?d)" and q: "ie_peer e = p" for j e
  proof -
    consider "(j, e) \<in> set (dv_indexTable d)" | "j = i" "ie_target e = ToHandshake"
      using in_update [of j e i "\<lparr>ie_peer = p, ie_target = ToHandshake\<rparr>" "dv_indexTable d"] m dev_okD(1) [OF ok] by auto
    then show ?thesis
      using dev_okD(4) [OF ok, of j e] none [of j e] q h by cases (auto split: index_target.split)
  qed
qed (use dev_okD(1) [OF ok] peer_in_range [OF ok p] in \<open>auto simp: distinct_update\<close>)

lemma no_handshake_entry:
  assumes "dev_ok d" and "(i, e) \<in> set (dv_indexTable (index_Delete (hs_localIndex (peer_hs p d)) d))" and "ie_peer e = p"
  shows "ie_target e \<noteq> ToHandshake"
  using assms dev_okD(3) [OF assms(1), of i e] by (auto simp: index_Delete_def in_delete)

lemma dev_ok_NewIndex:
  assumes ok: "dev_ok d" and p: "p < length (dv_peers d)"
    and n: "NewIndexForHandshake p (index_Delete (hs_localIndex (peer_hs p d)) d) = (r, d1)"
    and h: "\<And>i. r = Some i \<Longrightarrow> hs_localIndex h = i"
  shows "dev_ok (set_hs p h (d1\<lparr>dv_rand := tape\<rparr>))"
proof -
  let ?d = "index_Delete (hs_localIndex (peer_hs p d)) d"
  have ok': "dev_ok (?d\<lparr>dv_rand := tape\<rparr>)" using dev_ok_delete [OF ok] by (simp add: dev_ok_def)
  note none = no_handshake_entry [OF ok]
  show ?thesis
  proof (cases r)
    case None
    obtain tape' where "d1 = ?d\<lparr>dv_rand := tape'\<rparr>"
      using n NewIndexForHandshake_None unfolding None by blast
    then show ?thesis
      using dev_ok_set_hs_None [OF ok'] p none by (simp add: index_Delete_def)
  next
    case (Some i)
    then obtain tape' where d1: "d1 = ?d\<lparr>dv_rand := tape', dv_indexTable := AList.update i \<lparr>ie_peer = p, ie_target = ToHandshake\<rparr> (dv_indexTable ?d)\<rparr>"
      and i: "map_of (dv_indexTable ?d) i = None"
      using n NewIndexForHandshake_Some by blast
    have "d1\<lparr>dv_rand := tape\<rparr> = (?d\<lparr>dv_rand := tape\<rparr>)\<lparr>dv_indexTable := AList.update i \<lparr>ie_peer = p, ie_target = ToHandshake\<rparr>
        (dv_indexTable (?d\<lparr>dv_rand := tape\<rparr>))\<rparr>"
      by (simp add: d1)
    then show ?thesis
      using dev_ok_set_hs_index [OF ok', of p i h] i h [OF Some] p none by (simp add: index_Delete_def)
  qed
qed

section \<open>Handshake operations\<close>

lemma dev_ok_set_hs_same: "dev_ok d \<Longrightarrow> hs_localIndex h = hs_localIndex (peer_hs p d) \<Longrightarrow> dev_ok (set_hs p h d)"
  by (simp add: dev_ok_def)

lemma localIndex_mix [simp]:
  "hs_localIndex (hs_mixHash E x h) = hs_localIndex h" "hs_localIndex (hs_mixKey E x h) = hs_localIndex h"
  by (simp_all add: hs_mixHash_def hs_mixKey_def)

lemma newPrivateKey_tape: "\<exists>tape. snd (newPrivateKey d) = d\<lparr>dv_rand := tape\<rparr>"
  by (auto simp: newPrivateKey_def split: option.split intro: exI [of _ "dv_rand d"])

lemma peer_hs_tape [simp]: "peer_hs p (d\<lparr>dv_rand := tape\<rparr>) = peer_hs p d"
  by (simp add: peer_hs_def)

lemma dev_ok_CreateMessageInitiation:
  assumes ok: "dev_ok d" and p: "p < length (dv_peers d)"
  shows "dev_ok (snd (CreateMessageInitiation E p d))"
proof -
  let ?i = "hs_localIndex (peer_hs p d)"
  obtain sk ok' tape where k: "newPrivateKey d = ((sk, ok'), d\<lparr>dv_rand := tape\<rparr>)"
    using newPrivateKey_tape [of d] by (metis prod.collapse)
  let ?d = "d\<lparr>dv_rand := tape\<rparr>"
  have ok1: "dev_ok ?d" using ok by (simp add: dev_ok_def)
  obtain r d2 where n: "NewIndexForHandshake p (index_Delete ?i ?d) = (r, d2)" by force
  have same: "dev_ok (set_hs p h ?d)" if "hs_localIndex h = ?i" for h
    using dev_ok_set_hs_same [OF ok1] that by simp
  have new: "dev_ok (set_hs p h d2)" if "\<And>i. r = Some i \<Longrightarrow> hs_localIndex h = i" for h
    using dev_ok_NewIndex [OF ok1, of p r d2 h "dv_rand d2"] n p that by simp
  have "dev_ok d'" if "CreateMessageInitiation E p d = (m, d')" for m d'
    using that k n
    by (auto simp: CreateMessageInitiation_def Let_def case_prod_beta intro!: same new split: option.splits if_splits)
  then show ?thesis by (metis prod.collapse)
qed

lemma dev_ok_CreateMessageResponse:
  assumes ok: "dev_ok d" and p: "p < length (dv_peers d)"
  shows "dev_ok (snd (CreateMessageResponse E p d))"
proof -
  obtain r d1 where n: "NewIndexForHandshake p (index_Delete (hs_localIndex (peer_hs p d)) d) = (r, d1)" by force
  obtain sk ok' tape where k: "newPrivateKey d1 = ((sk, ok'), d1\<lparr>dv_rand := tape\<rparr>)"
    using newPrivateKey_tape [of d1] by (metis prod.collapse)
  have new: "dev_ok (set_hs p h (d1\<lparr>dv_rand := tape\<rparr>))" if "\<And>i. r = Some i \<Longrightarrow> hs_localIndex h = i" for h tape
    using dev_ok_NewIndex [OF ok p n] that by simp
  have new': "dev_ok (set_hs p h d1)" if "\<And>i. r = Some i \<Longrightarrow> hs_localIndex h = i" for h
    using new [of h "dv_rand d1"] that by simp
  have "dev_ok d'" if "CreateMessageResponse E p d = (m, d')" for m d'
    using that k n ok
    by (auto simp: CreateMessageResponse_def Let_def case_prod_beta intro!: new new' split: option.splits if_splits)
  then show ?thesis by (metis prod.collapse)
qed

lemma dev_ok_Consume:
  "dev_ok d \<Longrightarrow> dev_ok (snd (ConsumeMessageResponse E msg d))" "dev_ok d \<Longrightarrow> dev_ok (snd (ConsumeMessageInitiation E msg' d))"
  by (simp_all add: ConsumeMessageResponse_def ConsumeMessageInitiation_def Let_def case_prod_unfold dev_ok_set_hs_same split: option.split)

section \<open>Changes of the slots\<close>

text \<open>The table after a keypair of a slot is deleted.\<close>

definition without :: "Keypair list \<Rightarrow> nat option \<Rightarrow> (32 word \<times> IndexTableEntry) list \<Rightarrow> (32 word \<times> IndexTableEntry) list" where
  "without kps k table = (case k of None \<Rightarrow> table | Some k \<Rightarrow> AList.delete (kp_localIndex (kps ! k)) table)"

lemma table_DeleteKeypair: "dv_indexTable (DeleteKeypair k d) = without (dv_keypairs d) k (dv_indexTable d)"
  by (simp add: DeleteKeypair_def without_def index_Delete_def split: option.split)

lemma in_without: "(i, e) \<in> set (without kps k table) \<longleftrightarrow> (i, e) \<in> set table \<and> (\<forall>x \<in> set_option k. kp_localIndex (kps ! x) \<noteq> i)"
  by (cases k) (auto simp: without_def in_delete)

lemma distinct_without: "distinct (map fst table) \<Longrightarrow> distinct (map fst (without kps k table))"
  by (cases k) (simp_all add: without_def distinct_delete)

lemma DeleteKeypair_keep [simp]: "dv_peers (DeleteKeypair k d) = dv_peers d" "dv_keypairs (DeleteKeypair k d) = dv_keypairs d"
  "dv_keyMap (DeleteKeypair k d) = dv_keyMap d" "dv_allowedips (DeleteKeypair k d) = dv_allowedips d"
  by (simp_all add: DeleteKeypair_def index_Delete_def split: option.split)

lemma upd_ks_keep [simp]: "dv_indexTable (upd_ks p f d) = dv_indexTable d" "dv_keypairs (upd_ks p f d) = dv_keypairs d"
  "dv_keyMap (upd_ks p f d) = dv_keyMap d" "dv_allowedips (upd_ks p f d) = dv_allowedips d"
  by (simp_all add: upd_ks_def upd_peer_def)

lemma peers_upd_ks:
  "dv_peers (upd_ks p f d) = (dv_peers d)[p := (dv_peers d ! p)\<lparr>pr_keypairs := f (pr_keypairs (dv_peers d ! p))\<rparr>]"
  by (simp add: upd_ks_def upd_peer_def)

text \<open>One peer changes its slots; the keypairs that leave them are deleted.\<close>

lemma dev_ok_slots:
  assumes ok: "dev_ok d" and p: "p < length (dv_peers d)"
    and r: "dv_peers d' = (dv_peers d)[p := (dv_peers d ! p)\<lparr>pr_keypairs := ks\<rparr>]" and k: "dv_keypairs d' = dv_keypairs d"
    and g: "dv_keyMap d' = dv_keyMap d" "dv_allowedips d' = dv_allowedips d"
    and t: "distinct (map fst (dv_indexTable d'))" "set (dv_indexTable d') \<subseteq> set (dv_indexTable d)"
    and s: "slots ks \<subseteq> slots (pr_keypairs (dv_peers d ! p))"
    and del: "\<And>x i e. x \<in> slots (pr_keypairs (dv_peers d ! p)) \<Longrightarrow> x \<notin> slots ks \<Longrightarrow> (i, e) \<in> set (dv_indexTable d') \<Longrightarrow>
        kp_localIndex (dv_keypairs d ! x) \<noteq> i"
  shows "dev_ok d'"
proof (rule dev_ok_change [OF ok p r, where xs = "[]"])
  let ?r = "(dv_peers d ! p)\<lparr>pr_keypairs := ks\<rparr>"
  show "fst (peer_shape ?r) \<union> snd (snd (peer_shape ?r)) \<subseteq> {..<length (dv_keypairs d')}"
    using peer_in_range [OF ok p] s by (auto simp: k peer_shape_def)
  show "case ie_target e of ToHandshake \<Rightarrow> i = fst (snd (peer_shape ?r))
       | ToKeypair k \<Rightarrow> k \<in> fst (peer_shape ?r) \<and> kp_localIndex (dv_keypairs d' ! k) = i"
    if "(i, e) \<in> set (dv_indexTable d')" "ie_peer e = p" for i e
    using dev_okD(3,4) [OF ok, of i e] that t(2) del [of _ i e]
    by (auto simp: k peer_shape_def peer_hs_def split: index_target.split)
qed (use k t g in auto)

lemma dev_ok_ReceivedWithKeypair:
  assumes ok: "dev_ok d" and p: "p < length (dv_peers d)"
  shows "dev_ok (snd (ReceivedWithKeypair p k d))"
proof (cases "ks_next (pr_keypairs (dv_peers d ! p)) = Some k")
  case True
  let ?ks = "pr_keypairs (dv_peers d ! p)"
  show ?thesis
    by (rule dev_ok_slots [OF ok p, where ks = "?ks\<lparr>ks_previous := ks_current ?ks, ks_current := ks_next ?ks, ks_next := None\<rparr>"])
      (use True p dev_okD(1) [OF ok] in \<open>auto simp: ReceivedWithKeypair_def Let_def peers_upd_ks table_DeleteKeypair in_without
        distinct_without slots_def\<close>)
qed (use ok in \<open>simp add: ReceivedWithKeypair_def Let_def\<close>)

lemma dev_ok_clear_handshake:
  assumes ok: "dev_ok d" and p: "p < length (dv_peers d)"
  shows "dev_ok (upd_hs p f (index_Delete (hs_localIndex (peer_hs p d)) d))"
proof -
  let ?d = "index_Delete (hs_localIndex (peer_hs p d)) d"
  have "upd_hs p f ?d = set_hs p (f (peer_hs p ?d)) ?d"
    by (simp add: upd_hs_def set_hs_def upd_peer_def peer_hs_def)
  moreover have "p < length (dv_peers ?d)" using p by (simp add: index_Delete_def)
  ultimately show ?thesis
    using dev_ok_set_hs_None [OF dev_ok_delete [OF ok]] no_handshake_entry [OF ok] by simp
qed

lemma dev_ok_ZeroAndFlushAll:
  assumes ok: "dev_ok d" and p: "p < length (dv_peers d)"
  shows "dev_ok (ZeroAndFlushAll p d)"
proof -
  let ?ks = "pr_keypairs (dv_peers d ! p)"
  define d1 where "d1 = upd_ks p (\<lambda>ks. ks\<lparr>ks_previous := None, ks_current := None, ks_next := None\<rparr>)
    (DeleteKeypair (ks_next ?ks) (DeleteKeypair (ks_current ?ks) (DeleteKeypair (ks_previous ?ks) d)))"
  have d1: "dev_ok d1"
    unfolding d1_def
    by (rule dev_ok_slots [OF ok p, where ks = "?ks\<lparr>ks_previous := None, ks_current := None, ks_next := None\<rparr>"])
      (use p dev_okD(1) [OF ok] in \<open>auto simp: peers_upd_ks table_DeleteKeypair in_without distinct_without slots_def\<close>)
  have "dev_ok (upd_hs p hs_Clear (index_Delete (hs_localIndex (peer_hs p d1)) d1))"
    by (rule dev_ok_clear_handshake [OF d1]) (simp add: d1_def peers_upd_ks p)
  then show ?thesis
    by (simp add: ZeroAndFlushAll_def Let_def d1_def [symmetric] dev_ok_def)
qed

lemma dev_ok_Expire:
  assumes ok: "dev_ok d" and p: "p < length (dv_peers d)"
  shows "dev_ok (ExpireCurrentKeypairs p d)"
  using dev_ok_clear_handshake [OF ok p]
  by (simp add: ExpireCurrentKeypairs_def Let_def dev_ok_def split: option.split)

text \<open>A new session: its keypair takes over the entry of the handshake.\<close>

definition own_entry :: "nat \<Rightarrow> Device \<Rightarrow> bool" where
  "own_entry p d \<longleftrightarrow> (\<forall>e. map_of (dv_indexTable d) (hs_localIndex (peer_hs p d)) = Some e \<longrightarrow> ie_peer e = p)"

lemma in_swap:
  assumes "(i, e) \<in> set (dv_indexTable (SwapIndexForKeypair j k d))" and "distinct (map fst (dv_indexTable d))"
  shows "i \<noteq> j \<and> (i, e) \<in> set (dv_indexTable d) \<or>
    i = j \<and> (\<exists>e0. map_of (dv_indexTable d) j = Some e0 \<and> e = \<lparr>ie_peer = ie_peer e0, ie_target = ToKeypair k\<rparr>)"
proof (cases "map_of (dv_indexTable d) j")
  case None
  with assms show ?thesis by (auto simp: SwapIndexForKeypair_def map_of_eq_None_iff image_iff)
next
  case (Some e0)
  with assms show ?thesis
    using in_update [of i e j "\<lparr>ie_peer = ie_peer e0, ie_target = ToKeypair k\<rparr>" "dv_indexTable d"]
    by (auto simp: SwapIndexForKeypair_def)
qed

lemma distinct_swap:
  "distinct (map fst (dv_indexTable d)) \<Longrightarrow> distinct (map fst (dv_indexTable (SwapIndexForKeypair j k d)))"
  by (simp add: SwapIndexForKeypair_def distinct_update split: option.split)

lemma dev_ok_new_session:
  assumes ok: "dev_ok d" and p: "p < length (dv_peers d)" and own: "own_entry p d"
    and r: "dv_peers d' = (dv_peers d)[p := (dv_peers d ! p)\<lparr>pr_handshake := h, pr_keypairs := ks\<rparr>]"
    and k: "dv_keypairs d' = dv_keypairs d @ [kp]" "kp_localIndex kp = hs_localIndex (peer_hs p d)"
    and g: "dv_keyMap d' = dv_keyMap d" "dv_allowedips d' = dv_allowedips d"
    and t: "distinct (map fst (dv_indexTable d'))"
      "set (dv_indexTable d') \<subseteq> set (dv_indexTable (SwapIndexForKeypair (kp_localIndex kp) (length (dv_keypairs d)) d))"
    and s: "slots ks \<subseteq> insert (length (dv_keypairs d)) (slots (pr_keypairs (dv_peers d ! p)))" "length (dv_keypairs d) \<in> slots ks"
    and del: "\<And>x i e. x \<in> slots (pr_keypairs (dv_peers d ! p)) \<Longrightarrow> x \<notin> slots ks \<Longrightarrow> (i, e) \<in> set (dv_indexTable d') \<Longrightarrow>
        kp_localIndex (dv_keypairs d ! x) \<noteq> i"
  shows "dev_ok d'"
proof (rule dev_ok_change [OF ok p r, where xs = "[kp_localIndex kp]"])
  let ?r = "(dv_peers d ! p)\<lparr>pr_handshake := h, pr_keypairs := ks\<rparr>"
  have swap: "i \<noteq> kp_localIndex kp \<and> (i, e) \<in> set (dv_indexTable d) \<or>
      i = kp_localIndex kp \<and> ie_peer e = p \<and> ie_target e = ToKeypair (length (dv_keypairs d))"
    if "(i, e) \<in> set (dv_indexTable d')" for i e
    using in_swap [OF _ dev_okD(1) [OF ok], of i e] that t(2) own k(2) unfolding own_entry_def by fastforce
  show "fst (peer_shape ?r) \<union> snd (snd (peer_shape ?r)) \<subseteq> {..<length (dv_keypairs d')}"
    using peer_in_range [OF ok p] dev_okD(6) [OF ok p] s by (auto simp: k peer_shape_def less_Suc_eq)
  show "(i, e) \<in> set (dv_indexTable d)" if "(i, e) \<in> set (dv_indexTable d')" "ie_peer e \<noteq> p" for i e
    using swap [OF that(1)] that(2) by blast
  show "case ie_target e of ToHandshake \<Rightarrow> i = fst (snd (peer_shape ?r))
       | ToKeypair k \<Rightarrow> k \<in> fst (peer_shape ?r) \<and> kp_localIndex (dv_keypairs d' ! k) = i"
    if m: "(i, e) \<in> set (dv_indexTable d')" and q: "ie_peer e = p" for i e
    using swap [OF m] q dev_okD(3,4) [OF ok, of i e] k(2) s(2) del [of _ i e] m
    by (auto simp: k(1) peer_shape_def nth_append split: index_target.split)
qed (use k t g in auto)

text \<open>What the rotation leaves: the slots of the peer and the table.\<close>

definition rotated :: "bool \<Rightarrow> nat \<Rightarrow> Keypairs \<Rightarrow> Keypairs" where
  "rotated isInitiator new ks =
     (if isInitiator
      then \<lparr>ks_current = Some new, ks_previous = (if ks_next ks \<noteq> None then ks_next ks else ks_current ks), ks_next = None\<rparr>
      else \<lparr>ks_current = ks_current ks, ks_previous = None, ks_next = Some new\<rparr>)"

lemma rotate_keypairs_effect:
  fixes d :: Device and b :: bool and new :: nat
  assumes p: "p < length (dv_peers d)"
  defines "ks \<equiv> pr_keypairs (dv_peers d ! p)" and "d' \<equiv> rotate_keypairs p b new d"
  shows "dv_peers d' = (dv_peers d)[p := (dv_peers d ! p)\<lparr>pr_keypairs := rotated b new ks\<rparr>]"
    and "dv_keypairs d' = dv_keypairs d" and "dv_keyMap d' = dv_keyMap d" and "dv_allowedips d' = dv_allowedips d"
    and "distinct (map fst (dv_indexTable d)) \<Longrightarrow> distinct (map fst (dv_indexTable d'))"
    and "set (dv_indexTable d') \<subseteq> set (dv_indexTable d)"
    and "\<And>x i e. x \<in> slots ks \<Longrightarrow> x \<notin> slots (rotated b new ks) \<Longrightarrow> (i, e) \<in> set (dv_indexTable d') \<Longrightarrow>
      kp_localIndex (dv_keypairs d ! x) \<noteq> i"
  using p unfolding d'_def ks_def
  by (cases "pr_keypairs (dv_peers d ! p)"; auto simp: rotate_keypairs_def rotated_def Let_def peers_upd_ks
      table_DeleteKeypair in_without distinct_without slots_def split: if_splits)+

lemma dev_ok_Begin:
  assumes ok: "dev_ok d" and p: "p < length (dv_peers d)" and own: "own_entry p d"
  shows "dev_ok (snd (BeginSymmetricSession E p d))"
proof (cases "hs_state (peer_hs p d) \<noteq> handshakeResponseConsumed \<and> hs_state (peer_hs p d) \<noteq> handshakeResponseCreated")
  case True
  then show ?thesis using ok by (simp add: BeginSymmetricSession_def)
next
  case False
  let ?i = "hs_localIndex (peer_hs p d)" let ?n = "length (dv_keypairs d)"
  let ?ks = "pr_keypairs (dv_peers d ! p)"
  obtain b kp h where b: "snd (BeginSymmetricSession E p d) =
      rotate_keypairs p b ?n (set_hs p h (SwapIndexForKeypair ?i ?n (d\<lparr>dv_keypairs := dv_keypairs d @ [kp]\<rparr>)))"
    and kp: "kp_localIndex kp = ?i"
    using False by (auto simp: BeginSymmetricSession_def Let_def case_prod_unfold)
  let ?d = "set_hs p h (SwapIndexForKeypair ?i ?n (d\<lparr>dv_keypairs := dv_keypairs d @ [kp]\<rparr>))"
  have swap: "dv_peers (SwapIndexForKeypair j k x) = dv_peers x" "dv_keypairs (SwapIndexForKeypair j k x) = dv_keypairs x"
    "dv_keyMap (SwapIndexForKeypair j k x) = dv_keyMap x" "dv_allowedips (SwapIndexForKeypair j k x) = dv_allowedips x" for j k x
    by (simp_all add: SwapIndexForKeypair_def split: option.split)
  have d: "dv_peers ?d = (dv_peers d)[p := (dv_peers d ! p)\<lparr>pr_handshake := h\<rparr>]" "dv_keypairs ?d = dv_keypairs d @ [kp]"
    "dv_keyMap ?d = dv_keyMap d" "dv_allowedips ?d = dv_allowedips d"
    "dv_indexTable ?d = dv_indexTable (SwapIndexForKeypair ?i ?n d)"
    by (simp_all add: set_hs_def upd_hs_def upd_peer_def swap) (simp add: SwapIndexForKeypair_def split: option.split)
  have p': "p < length (dv_peers ?d)" using p by (simp add: d)
  note e = rotate_keypairs_effect [OF p', where b = b and new = ?n]
  show ?thesis
    unfolding b
  proof (rule dev_ok_new_session [OF ok p own, where h = h and ks = "rotated b ?n ?ks" and kp = kp])
    show "distinct (map fst (dv_indexTable (rotate_keypairs p b ?n ?d)))"
      using e(5) distinct_swap [OF dev_okD(1) [OF ok]] by (simp only: d)
    show "slots (rotated b ?n ?ks) \<subseteq> insert ?n (slots ?ks)" "?n \<in> slots (rotated b ?n ?ks)"
      by (auto simp: rotated_def slots_def split: if_splits)
    show "kp_localIndex (dv_keypairs d ! x) \<noteq> i"
      if "x \<in> slots ?ks" "x \<notin> slots (rotated b ?n ?ks)" "(i, y) \<in> set (dv_indexTable (rotate_keypairs p b ?n ?d))" for x i y
    proof -
      have "x < ?n" using that(1) dev_okD(5) [OF ok p] by auto
      then show ?thesis using e(7) [of x i y] that p by (simp add: d nth_append)
    qed
    show "set (dv_indexTable (rotate_keypairs p b ?n ?d)) \<subseteq> set (dv_indexTable (SwapIndexForKeypair (kp_localIndex kp) ?n d))"
      using e(6) by (simp only: d(5) kp)
  qed (use e(1-4) kp p in \<open>simp_all add: d swap\<close>)
qed

section \<open>Composite operations\<close>

text \<open>
  An operation is safe if it keeps a well-formed device well-formed, keeps its
  peers and is a sequence of steps of the abstract machine.
\<close>

definition safe :: "Device \<Rightarrow> Device \<Rightarrow> bool" where
  "safe d d' \<longleftrightarrow> (dev_ok d \<and> core_ok (core_of d) \<longrightarrow>
     dev_ok d' \<and> core_step\<^sup>*\<^sup>* (core_of d) (core_of d') \<and> length (dv_peers d) \<le> length (dv_peers d'))"

lemma safe_refl: "safe d d"
  by (simp add: safe_def)

lemma safe_trans: "safe d d1 \<Longrightarrow> safe d1 d2 \<Longrightarrow> safe d d2"
  unfolding safe_def using core_steps_ok by (meson le_trans rtranclp_trans)

lemma peers_len: "length (dv_peers d) = length (co_stamps (core_of d))"
  by (simp add: core_of_def)

lemma safe_core: "core_of d' = core_of d \<Longrightarrow> (dev_ok d \<Longrightarrow> dev_ok d') \<Longrightarrow> safe d d'"
  by (simp add: safe_def peers_len)

lemma safe_frame: "core_of d' = core_of d \<Longrightarrow> shape_of d' = shape_of d \<Longrightarrow> safe d d'"
  by (rule safe_core) (simp_all add: dev_ok_def)

lemma safe_then:
  "safe d d1 \<Longrightarrow> (dev_ok d1 \<Longrightarrow> length (dv_peers d) \<le> length (dv_peers d1) \<Longrightarrow> safe d1 d2) \<Longrightarrow> safe d d2"
  unfolding safe_def using core_steps_ok by (meson le_trans rtranclp_trans)

lemma safe_fold: "(\<And>x d. length (dv_peers d0) \<le> length (dv_peers d) \<Longrightarrow> x \<in> set xs \<Longrightarrow> safe d (f x d)) \<Longrightarrow>
    length (dv_peers d0) \<le> length (dv_peers d) \<Longrightarrow> safe d (fold f xs d)"
proof (induction xs arbitrary: d)
  case (Cons x xs)
  have "safe d (f x d)" using Cons.prems by simp
  then show ?case
    by (rule safe_then) (use Cons in \<open>auto intro: le_trans\<close>)
qed (simp add: safe_refl)

lemma dev_ok_SendHandshakeInitiation:
  assumes "dev_ok d" and "p < length (dv_peers d)"
  shows "dev_ok (SendHandshakeInitiation E b p d)"
proof -
  have "shape_ok (shape_of (snd (CreateMessageInitiation E p d1)))" if "shape_of d1 = shape_of d" "core_of d1 = core_of d" for d1
    using dev_ok_CreateMessageInitiation [of d1 p E] assms that by (simp add: dev_ok_def peers_len)
  then show ?thesis
    using assms by (simp add: SendHandshakeInitiation_def dev_ok_def Let_def case_prod_unfold split: option.split)
qed

lemma dev_ok_fresh:
  assumes "dev_ok d" and "p < length (dv_peers d)"
  shows "dev_ok (keepKeyFreshSending E p d)" and "dev_ok (keepKeyFreshReceiving E p d)"
  using assms dev_ok_SendHandshakeInitiation [of d p E False]
    dev_ok_SendHandshakeInitiation [of "upd_tm p (\<lambda>t. t\<lparr>tm_sentLastMinuteHandshake := True\<rparr>) d" p E False]
  by (auto simp: keepKeyFreshSending_def keepKeyFreshReceiving_def Let_def dev_ok_def peers_len split: option.split)

lemma dev_ok_RoutineSequentialSender:
  assumes "dev_ok d" and "p < length (dv_peers d)"
  shows "dev_ok (RoutineSequentialSender E p d)"
proof -
  have "shape_ok (shape_of (keepKeyFreshSending E p d1))" if "shape_of d1 = shape_of d" "core_of d1 = core_of d" for d1
    using dev_ok_fresh(1) [of d1 p E] assms that by (simp add: dev_ok_def peers_len)
  then show ?thesis
    using assms by (simp add: RoutineSequentialSender_def dev_ok_def Let_def case_prod_unfold split: list.split)
qed

lemma safe_p:
  assumes "p < length (dv_peers d)"
  shows "safe d (SendHandshakeInitiation E b p d)" "safe d (keepKeyFreshSending E p d)" "safe d (keepKeyFreshReceiving E p d)"
    "safe d (RoutineSequentialSender E p d)" "safe d (ZeroAndFlushAll p d)" "safe d (snd (ReceivedWithKeypair p k d))"
    "safe d (snd (CreateMessageInitiation E p d))" "safe d (snd (CreateMessageResponse E p d))"
  using assms
  by (simp_all add: safe_core dev_ok_SendHandshakeInitiation dev_ok_fresh dev_ok_RoutineSequentialSender dev_ok_ZeroAndFlushAll
      dev_ok_ReceivedWithKeypair dev_ok_CreateMessageInitiation dev_ok_CreateMessageResponse)

end
