(* ===== verification/Device_Safe.thy ===== *)
theory Device_Safe
  imports Device_Shape
begin

text \<open>
  Every operation of the device keeps it well-formed and is a sequence of steps
  of the abstract machine of sessions.
\<close>

section \<open>Sessions\<close>

lemma safeI: "(dev_ok d \<Longrightarrow> core_ok (core_of d) \<Longrightarrow> safe d d') \<Longrightarrow> safe d d'"
  by (simp add: safe_def)

lemma safe_step: "core_step (core_of d) (core_of d') \<Longrightarrow> (dev_ok d \<Longrightarrow> dev_ok d') \<Longrightarrow> length (dv_peers d) \<le> length (dv_peers d') \<Longrightarrow> safe d d'"
  by (simp add: safe_def r_into_rtranclp)

lemma core_of_Begin:
  "snd (BeginSymmetricSession E p d) = d \<or>
   (\<exists>kp. kp_sendNonce kp = 0 \<and> kp_replayFilter kp = Filter_Reset Filter0 \<and>
      core_of (snd (BeginSymmetricSession E p d)) = (core_of d)\<lparr>co_keys := co_keys (core_of d) @ [kp]\<rparr>)"
proof (cases "hs_state (peer_hs p d) \<noteq> handshakeResponseConsumed \<and> hs_state (peer_hs p d) \<noteq> handshakeResponseCreated")
  case True
  then show ?thesis by (simp add: BeginSymmetricSession_def)
next
  case False
  have keys: "core_of (d\<lparr>dv_keypairs := kps\<rparr>) = (core_of d)\<lparr>co_keys := kps\<rparr>" "co_keys (core_of d) = dv_keypairs d" for kps
    by (simp_all add: core_of_def)
  let ?d = "\<lambda>i n kp. SwapIndexForKeypair i n (d\<lparr>dv_keypairs := dv_keypairs d @ [kp]\<rparr>)"
  obtain b kp h i n where b: "snd (BeginSymmetricSession E p d) = rotate_keypairs p b n (set_hs p h (?d i n kp))"
    and kp: "kp_sendNonce kp = 0" "kp_replayFilter kp = Filter_Reset Filter0" "hs_lastTimestamp h = hs_lastTimestamp (peer_hs p d)"
    using False by (auto simp: BeginSymmetricSession_def Let_def case_prod_unfold)
  have "peer_hs p (?d i n kp) = peer_hs p d"
    by (simp add: peer_hs_def SwapIndexForKeypair_def split: option.split)
  then show ?thesis
    using b kp by (auto simp: keys)
qed

lemma safe_Begin:
  assumes "p < length (dv_peers d)" and "own_entry p d"
  shows "safe d (snd (BeginSymmetricSession E p d))"
  using core_of_Begin [of E p d]
proof (elim disjE exE conjE)
  fix kp assume kp: "kp_sendNonce kp = 0" "kp_replayFilter kp = Filter_Reset Filter0"
    "core_of (snd (BeginSymmetricSession E p d)) = (core_of d)\<lparr>co_keys := co_keys (core_of d) @ [kp]\<rparr>"
  show ?thesis
    by (rule safe_step) (use kp core_step.new_keypair [OF kp(1,2)] dev_ok_Begin [OF _ assms] in \<open>simp_all add: peers_len\<close>)
qed (simp add: safe_refl)

section \<open>Nonces\<close>

lemma RejectAfterMessages_nat: "unat RejectAfterMessages = 2 ^ 64 - 2 ^ 13 - 1"
  by (simp add: RejectAfterMessages_def)

lemma nonce_Suc: "n < RejectAfterMessages \<Longrightarrow> n < n + 1 \<and> n + 1 \<le> RejectAfterMessages"
  for n :: "64 word"
proof -
  assume "n < RejectAfterMessages"
  then have n: "unat n < 2 ^ 64 - 2 ^ 13 - 1"
    using RejectAfterMessages_nat by (simp add: word_less_nat_alt)
  then have "unat (n + 1) = unat n + 1"
    by (simp add: unat_word_ariths)
  then show ?thesis
    using n RejectAfterMessages_nat by (simp add: word_less_nat_alt word_le_nat_alt)
qed

lemma assign_nonces_run:
  assumes "k < length (dv_keypairs d)" and "kp_sendNonce (dv_keypairs d ! k) \<le> RejectAfterMessages"
  shows "\<exists>n. snd (assign_nonces k xs d) = upd_kp k (\<lambda>kp. kp\<lparr>kp_sendNonce := n\<rparr>) d \<and>
    kp_sendNonce (dv_keypairs d ! k) \<le> n \<and> n \<le> RejectAfterMessages \<and>
    distinct (map snd (fst (fst (assign_nonces k xs d)))) \<and>
    (\<forall>x \<in> set (map snd (fst (fst (assign_nonces k xs d)))). kp_sendNonce (dv_keypairs d ! k) \<le> x \<and> x < n)"
  using assms
proof (induction xs arbitrary: d)
  case Nil
  have "upd_kp k (\<lambda>kp. kp\<lparr>kp_sendNonce := kp_sendNonce (dv_keypairs d ! k)\<rparr>) d = d"
    by (simp add: upd_kp_def)
  with Nil show ?case by (intro exI [of _ "kp_sendNonce (dv_keypairs d ! k)"]) simp
next
  case (Cons x xs)
  let ?n = "kp_sendNonce (dv_keypairs d ! k)"
  have upd: "kp_sendNonce (dv_keypairs (upd_kp k (\<lambda>kp. kp\<lparr>kp_sendNonce := m\<rparr>) d) ! k) = m"
    "upd_kp k (\<lambda>kp. kp\<lparr>kp_sendNonce := m'\<rparr>) (upd_kp k (\<lambda>kp. kp\<lparr>kp_sendNonce := m\<rparr>) d) = upd_kp k (\<lambda>kp. kp\<lparr>kp_sendNonce := m'\<rparr>) d" for m m'
    using Cons.prems(1) by (simp_all add: upd_kp_def)
  show ?case
  proof (cases "RejectAfterMessages \<le> ?n")
    case True
    then have n: "?n = RejectAfterMessages" using Cons.prems(2) by simp
    have "upd_kp k (\<lambda>kp. kp\<lparr>kp_sendNonce := RejectAfterMessages\<rparr>) d = d"
      unfolding n [symmetric] by (simp add: upd_kp_def)
    with Cons.IH [OF Cons.prems] n show ?thesis by (simp add: Let_def case_prod_unfold)
  next
    case False
    then have m: "?n < ?n + 1" "?n + 1 \<le> RejectAfterMessages" using nonce_Suc [of ?n] by simp_all
    let ?d = "upd_kp k (\<lambda>kp. kp\<lparr>kp_sendNonce := ?n + 1\<rparr>) d"
    obtain n where IH: "snd (assign_nonces k xs ?d) = upd_kp k (\<lambda>kp. kp\<lparr>kp_sendNonce := n\<rparr>) d"
      "?n + 1 \<le> n" "n \<le> RejectAfterMessages" "distinct (map snd (fst (fst (assign_nonces k xs ?d))))"
      "\<forall>x \<in> set (map snd (fst (fst (assign_nonces k xs ?d)))). ?n + 1 \<le> x \<and> x < n"
      using Cons.IH [of ?d] Cons.prems m by (auto simp only: upd upd_kp_simps)
    have le: "?n \<le> y \<and> ?n \<noteq> y" if "?n + 1 \<le> y" for y using that m(1) by auto
    show ?thesis
      using IH le False less_le_trans [OF m(1) IH(2)] by (intro exI [of _ n]) (auto simp: Let_def case_prod_unfold not_le)
  qed
qed

lemma core_of_queue:
  "core_of (queue_outbound E p k xs d) =
     (if pr_isRunning (dv_peers d ! p) then (core_of d)\<lparr>co_sealed := co_sealed (core_of d) @ map (Pair k) (map snd xs)\<rparr> else core_of d)"
proof -
  have "core_of (upd_peer p (\<lambda>r. r\<lparr>pr_outbound := f r\<rparr>) (d\<lparr>dv_sealed := s\<rparr>)) = (core_of d)\<lparr>co_sealed := s\<rparr>" for f s
    by simp (simp add: core_of_def)
  then show ?thesis
    by (simp add: queue_outbound_def case_prod_unfold comp_def) (simp add: core_of_def)
qed

lemma core_of_upd_kp: "core_of (upd_kp k f d) = (core_of d)\<lparr>co_keys := (co_keys (core_of d))[k := f (co_keys (core_of d) ! k)]\<rparr>"
  by (simp add: core_of_def upd_kp_def)

lemma co_keys_core_of [simp]: "co_keys (core_of d) = dv_keypairs d"
  by (simp add: core_of_def)

text \<open>A container gets its nonces; its elements are then sealed, or nothing is.\<close>

lemma safe_assign:
  assumes k: "k < length (dv_keypairs d)" and c: "core_of d1 = core_of d" and s: "shape_of d1 = shape_of d"
    and r: "core_of d2 = core_of (snd (assign_nonces k xs d1))" "shape_of d2 = shape_of d"
    and d3: "d3 = d2 \<or> d3 = queue_outbound E p k (fst (fst (assign_nonces k xs d1))) d2"
  shows "safe d d3"
proof (rule safeI)
  assume ok: "dev_ok d" "core_ok (core_of d)"
  have kps: "dv_keypairs d1 = dv_keypairs d" using arg_cong [OF c, of co_keys] by simp
  have n0: "kp_sendNonce (dv_keypairs d ! k) \<le> RejectAfterMessages" using core_okD(1) [OF ok(2)] k by simp
  then obtain n where n: "snd (assign_nonces k xs d1) = upd_kp k (\<lambda>kp. kp\<lparr>kp_sendNonce := n\<rparr>) d1"
    "kp_sendNonce (dv_keypairs d ! k) \<le> n" "n \<le> RejectAfterMessages" "distinct (map snd (fst (fst (assign_nonces k xs d1))))"
    "\<And>x. x \<in> set (map snd (fst (fst (assign_nonces k xs d1)))) \<Longrightarrow> kp_sendNonce (dv_keypairs d ! k) \<le> x \<and> x < n"
    using assign_nonces_run [of k d1 xs] k kps by auto
  have step: "core_step (core_of d) ((core_of d)\<lparr>co_keys := (co_keys (core_of d))[k := (co_keys (core_of d) ! k)\<lparr>kp_sendNonce := n\<rparr>],
      co_sealed := co_sealed (core_of d) @ map (Pair k) ns\<rparr>)" if "ns = [] \<or> ns = map snd (fst (fst (assign_nonces k xs d1)))" for ns
    by (rule core_step.seal) (use that n k in auto)
  have "core_step (core_of d) (core_of d3)"
    using d3 step [of "[]"] step [of "map snd (fst (fst (assign_nonces k xs d1)))"]
    by (auto simp: core_of_queue r(1) n(1) core_of_upd_kp c)
  moreover have "shape_of d3 = shape_of d" using d3 r(2) s by auto
  ultimately show ?thesis
    by (intro safe_step) (auto simp: dev_ok_def shape_of_def dest: arg_cong [where f = length])
qed

lemma shape_len: "length (dv_keypairs d) = length (sh_local (shape_of d))" "length (dv_peers d) = length (sh_peers (shape_of d))"
  by (simp_all add: shape_of_def)

lemma safe_send_staged:
  "p < length (dv_peers d) \<Longrightarrow> (\<And>k. at = Some k \<Longrightarrow> k < length (dv_keypairs d)) \<Longrightarrow> safe d (send_staged E p at d)"
proof (induction E p at d rule: send_staged.induct)
  case (1 E p d)
  show ?case
  proof (rule safeI)
    assume ok: "dev_ok d" "core_ok (core_of d)"
    have "k < length (dv_keypairs d)" if "ks_current (pr_keypairs (dv_peers d ! p)) = Some k" for k
      using dev_okD(5) [OF ok(1) 1(2)] that by (auto simp: slots_def)
    with 1 show "safe d (send_staged E p None d)"
      by (subst send_staged.simps) (auto simp: safe_refl safe_p split: option.split)
  qed
next
  case (2 E p k d)
  show ?case
  proof (cases "pr_staged (dv_peers d ! p)")
    case Nil
    then show ?thesis by (subst send_staged.simps) (simp add: safe_refl)
  next
    case (Cons c rest)
    let ?s = "if p < length (dv_peers d) then pr_staged (dv_peers d ! p) else []"
    let ?d1 = "upd_peer p (\<lambda>r. r\<lparr>pr_staged := rest\<rparr>) d"
    let ?res = "assign_nonces k c ?d1"
    let ?d3 = "if snd (fst ?res) \<noteq> [] then StagePackets p (snd (fst ?res)) (snd ?res) else snd ?res"
    let ?d4 = "queue_outbound E p k (fst (fst ?res)) ?d3"
    have s: "?s = c # rest" using Cons 2(4) by simp
    note IH = 2(1) [OF s refl refl refl refl refl refl] 2(2) [OF s refl refl refl refl refl refl _ refl]
      2(3) [OF s refl refl refl refl refl refl _ refl]
    have d3: "safe d ?d3" "safe d ?d4"
      using 2(5) by (auto intro!: safe_assign [where ?d1.0 = ?d1 and xs = c and k = k and ?d2.0 = ?d3])
    have sh: "shape_of ?d3 = shape_of d" "shape_of ?d4 = shape_of d" by simp_all
    have len: "length (dv_keypairs x) = length (dv_keypairs d)" "length (dv_peers x) = length (dv_peers d)"
      if "shape_of x = shape_of d" for x
      using shape_len [of x] shape_len [of d] that by simp_all
    have "send_staged E p (Some k) d = (if fst (fst ?res) = [] then send_staged E p None ?d3
        else if snd (fst ?res) \<noteq> [] then send_staged E p None ?d4 else send_staged E p (Some k) ?d4)"
      by (subst send_staged.simps) (simp add: s Let_def)
    moreover have "safe d (send_staged E p None ?d3)" if "fst (fst ?res) = []"
      using safe_trans [OF d3(1) IH(1) [OF that]] 2(4) len(2) [OF sh(1)] by simp
    moreover have "safe d (send_staged E p None ?d4)" if "fst (fst ?res) \<noteq> []" "snd (fst ?res) \<noteq> []"
      using safe_trans [OF d3(2) IH(2) [OF that]] 2(4) len(2) [OF sh(2)] by simp
    moreover have "safe d (send_staged E p (Some k) ?d4)" if "fst (fst ?res) \<noteq> []" "\<not> snd (fst ?res) \<noteq> []"
      using safe_trans [OF d3(2) IH(3) [OF that]] 2(4,5) len [OF sh(2)] by simp
    ultimately show ?thesis by presburger
  qed
qed

lemma safe_SendStagedPackets: "p < length (dv_peers d) \<Longrightarrow> safe d (SendStagedPackets E p d)"
  unfolding SendStagedPackets_def by (rule safe_send_staged) simp_all

lemma safe_SendKeepalive: "p < length (dv_peers d) \<Longrightarrow> safe d (SendKeepalive E p d)"
  unfolding SendKeepalive_def Let_def
  by (auto intro!: safe_SendStagedPackets safe_then [OF safe_frame, of "upd_peer p _ d" d "SendStagedPackets E p (upd_peer p _ d)"]
      simp: safe_refl)

lemma Lookup_in_range: "dev_ok d \<Longrightarrow> ip_size (length ip) \<Longrightarrow> Lookup ip (dv_allowedips d) = Some (Some p) \<Longrightarrow> p < length (dv_peers d)"
proof -
  assume ok: "dev_ok d" and ip: "ip_size (length ip)" and l: "Lookup ip (dv_allowedips d) = Some (Some p)"
  have "lpm_from m x j f = Some p \<Longrightarrow> f = Some p \<or> (\<exists>k. m k = Some p)" for m :: "bool list \<Rightarrow> nat option" and x j f
    unfolding lpm_from_def
    by (rule fold_invariant [where P = "\<lambda>a. a = Some p \<longrightarrow> f = Some p \<or> (\<exists>k. m k = Some p)" and Q = "\<lambda>_. True", THEN mp])
      (auto split: option.splits)
  from this [of "\<lambda>k. routes_of (dv_allowedips d) (length ip, k)" "bits_of ip" 0 None]
  obtain k where "routes_of (dv_allowedips d) (length ip, k) = Some p"
    using aip.lookup_law [OF dev_okD(8) [OF ok] ip] l unfolding lpm_def by force
  then show ?thesis by (rule dev_okD(9) [OF ok])
qed

lemma route_in_range:
  assumes "dev_ok d" and "route_packet x d = Some p"
  shows "p < length (dv_peers d)"
  using assms Lookup_in_range [of d "slice IPv4offsetDst 4 x" p] Lookup_in_range [of d "slice IPv6offsetDst 16 x" p]
  by (auto simp: route_packet_def slice_def IPv4offsetDst_def IPv6offsetDst_def IPv4offsetSrc_def IPv6offsetSrc_def
      ipv4_HeaderLen_def ipv6_HeaderLen_def bind_eq_Some_conv split: if_splits)

lemma safe_RoutineReadFromTUN: "safe d (RoutineReadFromTUN E order packets d)"
proof (rule safeI)
  assume ok: "dev_ok d"
  have g: "fst ` set (group_by_peer xs d) \<subseteq> {p. \<exists>x \<in> set xs. route_packet x d = Some p}" for xs
    by (induction xs d rule: group_by_peer.induct) (auto split: option.splits simp: dom_map_of_conv_image_fst [symmetric] update_conv')
  have v: "p < length (dv_peers d)" if "p \<in> set (visit_order order (group_by_peer packets d))" for p
    using that g [of packets] route_in_range [OF ok] by (fastforce simp: visit_order_def)
  show "safe d (RoutineReadFromTUN E order packets d)"
    unfolding RoutineReadFromTUN_def Let_def
  proof (rule safe_fold [OF _ order_refl])
    fix p and d1 :: Device
    assume l: "length (dv_peers d) \<le> length (dv_peers d1)" and p: "p \<in> set (visit_order order (group_by_peer packets d))"
    have "p < length (dv_peers d1)" using v [OF p] l by simp
    then show "safe d1 (if pr_isRunning (dv_peers d1 ! p)
        then SendStagedPackets E p (StagePackets p (the (map_of (group_by_peer packets d) p)) d1) else d1)"
      by (auto simp: safe_refl StagePackets_def intro!: safe_trans [OF safe_frame safe_SendStagedPackets])
  qed
qed

section \<open>Handshakes\<close>

lemma own_entry_frame: "shape_of d' = shape_of d \<Longrightarrow> peer_hs p d' = peer_hs p d \<Longrightarrow> own_entry p d' = own_entry p d"
  by (auto simp: own_entry_def shape_of_def)

lemma peer_hs_upd_peer [simp]: "(\<And>r. pr_handshake (f r) = pr_handshake r) \<Longrightarrow> peer_hs q (upd_peer p f d) = peer_hs q d"
  by (cases "p = q"; cases "p < length (dv_peers d)") (simp_all add: peer_hs_def upd_peer_def list_update_beyond)

lemma own_entry_ConsumeResponse:
  assumes "ConsumeMessageResponse E msg d = (Some p, d')" and "dev_ok d"
  shows "p < length (dv_peers d)" and "own_entry p d'"
proof -
  from assms(1) obtain e h where e: "map_of (dv_indexTable d) (mr_Receiver msg) = Some e" "ie_target e = ToHandshake" "p = ie_peer e"
    and d': "d' = set_hs p h d" "hs_localIndex h = hs_localIndex (peer_hs p d)"
    by (auto simp: ConsumeMessageResponse_def index_Lookup_def Let_def case_prod_unfold split: option.splits if_splits)
  have m: "(mr_Receiver msg, e) \<in> set (dv_indexTable d)" using e(1) by (rule map_of_SomeD)
  show p: "p < length (dv_peers d)" using dev_okD(2) [OF assms(2) m] e(3) by simp
  show "own_entry p d'"
    using dev_okD(3) [OF assms(2) m e(2)] e p d' by (auto simp: own_entry_def)
qed

lemma own_entry_CreateResponse:
  assumes "CreateMessageResponse E p d = (Some m, d')" and "dev_ok d" and "p < length (dv_peers d)"
  shows "own_entry p d'"
proof -
  obtain r d1 where n: "NewIndexForHandshake p (index_Delete (hs_localIndex (peer_hs p d)) d) = (r, d1)" by force
  have len: "length (dv_peers d1) = length (dv_peers d)"
    using tape_and_table_simps [OF tape_and_table_intros(4) [OF n]] by (simp add: index_Delete_def)
  obtain sk ok' tape where k: "newPrivateKey d1 = ((sk, ok'), d1\<lparr>dv_rand := tape\<rparr>)"
    using newPrivateKey_tape [of d1] by (metis prod.collapse)
  from assms(1) n k obtain h i where r: "r = Some i" and d': "d' = set_hs p h (d1\<lparr>dv_rand := tape\<rparr>)" and h: "hs_localIndex h = i"
    by (auto simp: CreateMessageResponse_def Let_def case_prod_beta split: option.splits if_splits)
  obtain tape' where "dv_indexTable d1 = AList.update i \<lparr>ie_peer = p, ie_target = ToHandshake\<rparr>
      (dv_indexTable (index_Delete (hs_localIndex (peer_hs p d)) d))"
    using NewIndexForHandshake_Some [OF n [unfolded r]] by auto
  then show ?thesis
    using assms(3) by (auto simp: own_entry_def d' h len update_conv')
qed

lemma ConsumeMessageInitiation_None: "ConsumeMessageInitiation E msg d = (None, d') \<Longrightarrow> d' = d"
  by (simp add: ConsumeMessageInitiation_def Let_def case_prod_unfold split: option.splits if_splits)

lemma ConsumeMessageInitiation_set:
  assumes "ConsumeMessageInitiation E msg d = (Some p, d')"
  shows "\<exists>key. map_of (dv_keyMap d) key = Some p"
    "\<exists>h. d' = set_hs p h d \<and> hs_localIndex h = hs_localIndex (peer_hs p d) \<and>
      ts_After (hs_lastTimestamp h) (hs_lastTimestamp (peer_hs p d))"
  using assms
  by (simp_all add: ConsumeMessageInitiation_def LookupPeer_def initiation_replay_def Let_def case_prod_unfold
      split: option.splits if_splits) (auto intro!: exI)

lemma safe_ConsumeMessageInitiation: "safe d (snd (ConsumeMessageInitiation E msg d))"
proof (rule safeI)
  assume ok: "dev_ok d"
  obtain r d' where c: "ConsumeMessageInitiation E msg d = (r, d')" by force
  show "safe d (snd (ConsumeMessageInitiation E msg d))"
  proof (cases r)
    case None
    then show ?thesis using c ConsumeMessageInitiation_None [of E msg d d'] by (simp add: safe_refl)
  next
    case (Some p)
    note 2 = ConsumeMessageInitiation_set [OF c [unfolded Some]]
    obtain h where h: "d' = set_hs p h d" "ts_After (hs_lastTimestamp h) (hs_lastTimestamp (peer_hs p d))" using 2(2) by blast
    have p: "p < length (dv_peers d)" using 2(1) dev_okD(7) [OF ok] map_of_SomeD by metis
    have "core_of d' = (core_of d)\<lparr>co_stamps := (co_stamps (core_of d))[p := hs_lastTimestamp h]\<rparr>"
      by (simp add: h(1) core_of_def set_hs_def upd_hs_def upd_peer_def map_update)
    moreover have "core_step (core_of d) ((core_of d)\<lparr>co_stamps := (co_stamps (core_of d))[p := hs_lastTimestamp h]\<rparr>)"
      by (rule core_step.stamp) (use p h(2) in \<open>simp_all add: core_of_def peer_hs_def\<close>)
    ultimately show ?thesis
      using c dev_ok_Consume(2) [of d E msg] by (intro safe_step) (simp_all add: h(1))
  qed
qed

lemma safe_SendHandshakeResponse:
  assumes p: "p < length (dv_peers d)"
  shows "safe d (SendHandshakeResponse E p d)"
proof -
  let ?d0 = "upd_hs p (\<lambda>h. h\<lparr>hs_lastSentHandshake := dv_now d\<rparr>) d"
  have p0: "p < length (dv_peers ?d0)" using p by (simp add: upd_hs_def)
  have d0: "safe d ?d0" by (rule safe_frame) simp_all
  obtain r d1 where c: "CreateMessageResponse E p ?d0 = (r, d1)" by force
  have d1: "safe ?d0 d1" using safe_p(8) [OF p0, of E] c by simp
  show ?thesis
  proof (cases r)
    case None
    then show ?thesis using safe_trans [OF d0 d1] c by (simp add: SendHandshakeResponse_def Let_def)
  next
    case (Some m)
    let ?x = "case mr_marshal m (zeros MessageResponseSize) of None \<Rightarrow> zeros MessageResponseSize | Some b \<Rightarrow> b"
    obtain packet d2 where s: "stamp_packet E p ?x d1 = (packet, d2)" by force
    have f: "core_of d2 = core_of d1" "shape_of d2 = shape_of d1" "peer_hs p d2 = peer_hs p d1"
      using core_of_endpoint(7) [of E p ?x d1] shape_of_endpoint(7) [of E p ?x d1] s
      by (auto simp: stamp_packet_def case_prod_unfold Let_def)
    obtain ok d3 where b: "BeginSymmetricSession E p d2 = (ok, d3)" by force
    let ?d4 = "timersAnyAuthenticatedPacketSent p (timersAnyAuthenticatedPacketTraversal p (timersSessionDerived p d3))"
    have "SendHandshakeResponse E p d = (if ok then snd (SendBuffers p [packet] ?d4) else d3)"
      by (simp add: SendHandshakeResponse_def Let_def c Some s b)
    moreover have "safe ?d0 d3"
    proof (rule safeI)
      assume ok0: "dev_ok ?d0" "core_ok (core_of ?d0)"
      have own: "own_entry p d2"
        using own_entry_CreateResponse [OF c [unfolded Some] ok0(1) p0] own_entry_frame [OF f(2,3)] by simp
      have "p < length (dv_peers d2)"
        using p0 core_of_CreateMessageResponse [of E p ?d0] c f(1) by (simp add: peers_len)
      then have "safe d2 d3" using safe_Begin [OF _ own, of E] b by simp
      then show "safe ?d0 d3" by (rule safe_trans [OF safe_trans [OF d1 safe_frame [OF f(1,2)]]])
    qed
    moreover have "safe d3 (snd (SendBuffers p [packet] ?d4))"
      by (rule safe_frame) simp_all
    ultimately show ?thesis
      using safe_trans [OF d0, of d3] safe_trans [OF safe_trans [OF d0, of d3], of "snd (SendBuffers p [packet] ?d4)"] by presburger
  qed
qed

lemma peer_hs_receive [simp]:
  "peer_hs q (timersAnyAuthenticatedPacketTraversal p d) = peer_hs q d" "peer_hs q (timersAnyAuthenticatedPacketReceived p d) = peer_hs q d"
  "peer_hs q (SetEndpointFromPacket e p d) = peer_hs q d" "peer_hs q (add_rx p n d) = peer_hs q d"
  by (simp_all add: timersAnyAuthenticatedPacketTraversal_def timersAnyAuthenticatedPacketReceived_def SetEndpointFromPacket_def
      add_rx_def upd_tm_def Let_def)

lemma safe_handle_initiation: "safe d (handle_initiation E packet endpoint d)"
proof (cases "mi_unmarshal packet")
  case None
  then show ?thesis by (simp add: handle_initiation_def safe_refl)
next
  case (Some msg)
  obtain r d1 where c: "ConsumeMessageInitiation E msg d = (r, d1)" by force
  have d1: "safe d d1" using safe_ConsumeMessageInitiation [of d E msg] c by simp
  show ?thesis
  proof (cases r)
    case None
    then show ?thesis using Some c d1 by (simp add: handle_initiation_def)
  next
    case p: (Some p)
    let ?d2 = "add_rx p (length packet) (SetEndpointFromPacket endpoint p
        (timersAnyAuthenticatedPacketReceived p (timersAnyAuthenticatedPacketTraversal p d1)))"
    have d2: "safe d1 ?d2" by (rule safe_frame) simp_all
    have "safe d (SendHandshakeResponse E p ?d2)"
    proof (rule safeI)
      assume ok: "dev_ok d"
      have "p < length (dv_peers d)"
        using ConsumeMessageInitiation_set(1) [OF c [unfolded p]] dev_okD(7) [OF ok] map_of_SomeD by metis
      then show "safe d (SendHandshakeResponse E p ?d2)"
        using safe_then [OF safe_trans [OF d1 d2], of "SendHandshakeResponse E p ?d2"] safe_SendHandshakeResponse [of p ?d2 E] by simp
    qed
    then show ?thesis using Some c p by (simp add: handle_initiation_def Let_def)
  qed
qed

lemma safe_handle_response: "safe d (handle_response E packet endpoint d)"
proof (cases "mr_unmarshal packet")
  case None
  then show ?thesis by (simp add: handle_response_def safe_refl)
next
  case (Some msg)
  obtain r d1 where c: "ConsumeMessageResponse E msg d = (r, d1)" by force
  have d1: "safe d d1" using safe_core [of d1 d] core_of_ConsumeMessageResponse [of E msg d] dev_ok_Consume(1) [of d E msg] c by simp
  show ?thesis
  proof (cases r)
    case None
    then show ?thesis using Some c d1 by (simp add: handle_response_def)
  next
    case p: (Some p)
    let ?d2 = "timersAnyAuthenticatedPacketReceived p (timersAnyAuthenticatedPacketTraversal p
        (add_rx p (length packet) (SetEndpointFromPacket endpoint p d1)))"
    have f2: "core_of ?d2 = core_of d1" "shape_of ?d2 = shape_of d1" "peer_hs p ?d2 = peer_hs p d1" by simp_all
    obtain b d3 where b: "BeginSymmetricSession E p ?d2 = (b, d3)" by force
    let ?rtt = "dv_now d3 - hs_lastSentHandshake (peer_hs p d3)"
    let ?d4 = "timersHandshakeComplete p (timersSessionDerived p (if ?rtt > 0 \<and> ?rtt < RekeyTimeout
        then upd_peer p (\<lambda>r. r\<lparr>pr_handshakeRTTNano := ?rtt\<rparr>) d3 else d3))"
    have run: "handle_response E packet endpoint d = (if b then SendKeepalive E p ?d4 else d3)"
      using Some c p b by (simp add: handle_response_def Let_def)
    show ?thesis
    proof (rule safeI)
      assume ok: "dev_ok d"
      have p0: "p < length (dv_peers d)" "own_entry p ?d2"
        using own_entry_ConsumeResponse [OF c [unfolded p] ok] own_entry_frame [OF f2(2,3)] by simp_all
      have "p < length (dv_peers ?d2)"
        using p0(1) core_of_ConsumeMessageResponse [of E msg d] c by (simp add: peers_len)
      from safe_Begin [OF this p0(2), of E] b have "safe ?d2 d3" by simp
      then have d3: "safe d d3" by (rule safe_trans [OF safe_trans [OF d1 safe_frame [OF f2(1,2)]]])
      moreover have "safe d (SendKeepalive E p ?d4)"
      proof (rule safe_then [OF d3])
        assume l: "length (dv_peers d) \<le> length (dv_peers d3)"
        have f4: "core_of ?d4 = core_of d3" "shape_of ?d4 = shape_of d3" by simp_all
        have "p < length (dv_peers ?d4)" using p0(1) l f4(1) by (simp add: peers_len)
        then show "safe d3 (SendKeepalive E p ?d4)" by (rule safe_trans [OF safe_frame [OF f4] safe_SendKeepalive])
      qed
      ultimately show "safe d (handle_response E packet endpoint d)" by (simp add: run)
    qed
  qed
qed

lemma safe_RoutineHandshake: "safe d (RoutineHandshake E d)"
proof (cases "dv_handshakeq d")
  case (Cons x rest)
  obtain t packet e where x: "x = (t, packet, e)" by (cases x) auto
  let ?d = "d\<lparr>dv_handshakeq := rest\<rparr>"
  obtain b d1 where a: "admit_handshake E packet e ?d = (b, d1)" by force
  have "safe d d1"
    by (rule safe_frame) (use core_of_admit [of E packet e ?d] shape_of_admit [of E packet e ?d] a in simp_all)
  then have "safe d (handle_initiation E packet e d1)" "safe d (handle_response E packet e d1)" "safe d d1"
    by (auto intro: safe_trans safe_handle_initiation safe_handle_response)
  moreover have "safe d (handle_cookie_reply E packet ?d)" "safe d ?d"
    by (rule safe_frame; simp)+
  ultimately show ?thesis
    by (simp add: RoutineHandshake_def Cons x Let_def a split: bool.split)
qed (simp add: RoutineHandshake_def safe_refl)

section \<open>Received packets\<close>

lemma core_step_keys: "core_step c c' \<Longrightarrow> length (co_keys c) \<le> length (co_keys c')"
  by (induction rule: core_step.induct) simp_all

lemma core_steps_keys: "core_step\<^sup>*\<^sup>* c c' \<Longrightarrow> length (co_keys c) \<le> length (co_keys c')"
  by (induction rule: rtranclp_induct) (auto dest: core_step_keys)

lemma safe_next:
  assumes "safe d d1"
    and "dev_ok d1 \<Longrightarrow> length (dv_peers d) \<le> length (dv_peers d1) \<Longrightarrow> length (dv_keypairs d) \<le> length (dv_keypairs d1) \<Longrightarrow> safe d1 d2"
  shows "safe d d2"
proof (rule safeI)
  assume "dev_ok d" "core_ok (core_of d)"
  then have "core_step\<^sup>*\<^sup>* (core_of d) (core_of d1)" using assms(1) by (simp add: safe_def)
  then have "length (dv_keypairs d) \<le> length (dv_keypairs d1)" using core_steps_keys by fastforce
  then show "safe d d2" using safe_then [OF assms(1)] assms(2) by blast
qed

lemma safe_accept:
  assumes k: "k < length (dv_keypairs d)"
    and v: "ValidateCounter n RejectAfterMessages (kp_replayFilter (dv_keypairs d ! k)) = (ok, f)"
  shows "safe d ((upd_kp k (\<lambda>kp. kp\<lparr>kp_replayFilter := f\<rparr>) d)\<lparr>dv_accepted := dv_accepted d @ (if ok then [(k, n)] else [])\<rparr>)"
    (is "safe d ?d")
proof (rule safe_step)
  have "core_of ?d = (core_of d)\<lparr>co_keys := (co_keys (core_of d))[k := (co_keys (core_of d) ! k)\<lparr>kp_replayFilter := f\<rparr>],
      co_accepted := co_accepted (core_of d) @ (if ok then [(k, n)] else [])\<rparr>"
    by (simp add: core_of_def upd_kp_def)
  then show "core_step (core_of d) (core_of ?d)" using core_step.accept [of k "core_of d" n ok f] k v by simp
  show "dev_ok d \<Longrightarrow> dev_ok ?d" by (simp add: dev_ok_def)
qed simp

lemma safe_receive_elem:
  assumes p: "p < length (dv_peers d)" and k: "in_keypair elem < length (dv_keypairs d)"
  shows "safe d (snd (receive_elem E p elem (acc, d)))"
proof (cases "in_packet elem")
  case None
  then show ?thesis by (simp add: receive_elem_def safe_refl)
next
  case (Some packet)
  let ?k = "in_keypair elem"
  obtain valid f where v: "ValidateCounter (in_counter elem) RejectAfterMessages (kp_replayFilter (dv_keypairs d ! ?k)) = (valid, f)" by force
  let ?u = "upd_kp ?k (\<lambda>kp. kp\<lparr>kp_replayFilter := f\<rparr>) d"
  let ?d1 = "?u\<lparr>dv_accepted := dv_accepted d @ (if valid then [(?k, in_counter elem)] else [])\<rparr>"
  have acc: "dv_accepted ?u = dv_accepted d" by (simp add: upd_kp_def)
  have d1: "safe d ?d1" by (rule safe_accept [OF k v])
  have p1: "p < length (dv_peers ?d1)" using p by simp
  show ?thesis
  proof (cases valid)
    case False
    have "?u\<lparr>dv_accepted := dv_accepted d\<rparr> = ?u" by (cases d) (simp add: upd_kp_def)
    then show ?thesis using d1 Some v False by (simp add: receive_elem_def)
  next
    case True
    obtain first d2 where r: "ReceivedWithKeypair p ?k ?d1 = (first, d2)" by force
    have d2: "safe ?d1 d2" using safe_p(6) [OF p1, of ?k] r by simp
    have c2: "core_of d2 = core_of ?d1" using core_of_ReceivedWithKeypair [of p ?k ?d1] r by simp
    let ?d3 = "timersHandshakeComplete p (SetEndpointFromPacket (in_endpoint elem) p d2)"
    let ?d4 = "if first then SendStagedPackets E p ?d3 else d2"
    have "safe d2 ?d4"
    proof (cases first)
      case True
      have f: "core_of ?d3 = core_of d2" "shape_of ?d3 = shape_of d2" by simp_all
      have "length (dv_peers ?d3) = length (dv_peers ?d1)" by (simp only: peers_len f(1) c2)
      then have "p < length (dv_peers ?d3)" using p1 by simp
      then have "safe ?d3 (SendStagedPackets E p ?d3)" by (rule safe_SendStagedPackets)
      then show ?thesis using safe_trans [OF safe_frame [OF f]] True by simp
    qed (simp add: safe_refl)
    then have d4: "safe d ?d4" by (rule safe_trans [OF safe_trans [OF d1 d2]])
    have "snd (receive_elem E p elem (acc, d)) = snd (deliver p elem packet (acc\<lparr>ra_tail := Some (in_endpoint elem)\<rparr>) ?d4)"
      using Some v True r acc by (simp add: receive_elem_def)
    moreover have "safe ?d4 (snd (deliver p elem packet (acc\<lparr>ra_tail := Some (in_endpoint elem)\<rparr>) ?d4))"
      by (rule safe_frame) simp_all
    ultimately show ?thesis using safe_trans [OF d4] by simp
  qed
qed

lemma safe_receive_elems:
  assumes "p < length (dv_peers d)" and "\<And>x. x \<in> set elems \<Longrightarrow> in_keypair x < length (dv_keypairs d)"
  shows "safe d (snd (fold (receive_elem E p) elems (acc, d)))"
  using assms
proof (induction elems arbitrary: acc d)
  case (Cons x xs)
  obtain acc1 d1 where r: "receive_elem E p x (acc, d) = (acc1, d1)" by force
  have "safe d d1" using safe_receive_elem [of p d x E acc] Cons.prems r by simp
  then have "safe d (snd (fold (receive_elem E p) xs (acc1, d1)))"
    by (rule safe_next) (rule Cons.IH; use Cons.prems in \<open>force dest: order_less_le_trans\<close>)
  then show ?case by (simp add: r)
qed (simp add: safe_refl)

lemma dev_ok_finish: "dev_ok d \<Longrightarrow> p < length (dv_peers d) \<Longrightarrow> dev_ok (finish_batch E p acc d)"
proof -
  assume ok: "dev_ok d" and p: "p < length (dv_peers d)"
  have "shape_ok (shape_of (keepKeyFreshReceiving E p d1))" if "shape_of d1 = shape_of d" "core_of d1 = core_of d" for d1
    using dev_ok_fresh(2) [of d1 p E] ok p that by (simp add: dev_ok_def peers_len)
  then show ?thesis
    using ok by (simp add: finish_batch_def dev_ok_def Let_def split: option.split)
qed

lemma safe_receive_batch:
  assumes "p < length (dv_peers d)" and "\<And>x. x \<in> set elems \<Longrightarrow> in_keypair x < length (dv_keypairs d)"
  shows "safe d (receive_batch E p elems d)"
proof -
  let ?r = "fold (receive_elem E p) elems (\<lparr>ra_bufs = [], ra_tail = None, ra_data = False, ra_rx = 0\<rparr>, d)"
  have "safe d (snd ?r)" using assms by (rule safe_receive_elems)
  then have "safe d (finish_batch E p (fst ?r) (snd ?r))"
    by (rule safe_next) (rule safe_core; use assms(1) in \<open>simp add: dev_ok_finish\<close>)
  then show ?thesis by (simp add: receive_batch_def case_prod_unfold Let_def)
qed

lemma dev_ok_inbound:
  assumes ok: "dev_ok d" and p: "p < length (dv_peers d)"
    and f: "slots (pr_keypairs (f (dv_peers d ! p))) = slots (pr_keypairs (dv_peers d ! p))"
      "hs_localIndex (pr_handshake (f (dv_peers d ! p))) = hs_localIndex (peer_hs p d)"
      "\<And>c x. c \<in> set (pr_inbound (f (dv_peers d ! p))) \<Longrightarrow> x \<in> set c \<Longrightarrow> in_keypair x < length (dv_keypairs d)"
  shows "dev_ok (upd_peer p f d)"
proof (rule dev_ok_change [OF ok p, where r = "f (dv_peers d ! p)" and xs = "[]"])
  show "dv_peers (upd_peer p f d) = (dv_peers d)[p := f (dv_peers d ! p)]" by (simp add: upd_peer_def)
  show "fst (peer_shape (f (dv_peers d ! p))) \<union> snd (snd (peer_shape (f (dv_peers d ! p)))) \<subseteq> {..<length (dv_keypairs (upd_peer p f d))}"
    using f dev_okD(5) [OF ok p] by (auto simp: peer_shape_def)
  show "case ie_target e of ToHandshake \<Rightarrow> i = fst (snd (peer_shape (f (dv_peers d ! p))))
       | ToKeypair k \<Rightarrow> k \<in> fst (peer_shape (f (dv_peers d ! p))) \<and> kp_localIndex (dv_keypairs (upd_peer p f d) ! k) = i"
    if "(i, e) \<in> set (dv_indexTable (upd_peer p f d))" "ie_peer e = p" for i e
    using dev_okD(3,4) [OF ok, of i e] that f by (auto simp: peer_shape_def peer_hs_def split: index_target.split)
qed (use dev_okD(1) [OF ok] in simp_all)

lemma safe_RoutineSequentialReceiver:
  assumes p: "p < length (dv_peers d)"
  shows "safe d (RoutineSequentialReceiver E p d)"
proof (cases "pr_inbound (dv_peers d ! p)")
  case (Cons elems rest)
  let ?d = "upd_peer p (\<lambda>r. r\<lparr>pr_inbound := rest\<rparr>) d"
  show ?thesis
  proof (rule safeI)
    assume ok: "dev_ok d"
    have "safe d ?d"
      by (rule safe_core) (use Cons in \<open>auto intro!: dev_ok_inbound [OF ok p] dev_okD(6) [OF ok p] simp: peer_hs_def\<close>)
    moreover have "safe ?d (receive_batch E p elems ?d)"
      by (rule safe_receive_batch) (use Cons p dev_okD(6) [OF ok p, of elems] in simp_all)
    ultimately show "safe d (RoutineSequentialReceiver E p d)"
      unfolding RoutineSequentialReceiver_def by (simp add: Cons safe_trans)
  qed
qed (simp add: RoutineSequentialReceiver_def safe_refl)

definition group_refs :: "nat \<Rightarrow> nat \<Rightarrow> (nat \<times> inbound_elem list) list \<Rightarrow> bool" where
  "group_refs n m groups \<longleftrightarrow> (\<forall>(p, es) \<in> set groups. p < n \<and> (\<forall>x \<in> set es. in_keypair x < m))"

lemma set_alist_update: "set (AList.update k v xs) \<subseteq> insert (k, v) (set xs)"
  by (induction xs) auto

lemma group_refs_update: "group_refs n m groups \<Longrightarrow> p < n \<Longrightarrow> (\<And>x. x \<in> set es \<Longrightarrow> in_keypair x < m) \<Longrightarrow> group_refs n m (AList.update p es groups)"
  unfolding group_refs_def using set_alist_update [of p es groups] by auto

lemma sort_datagrams_refs:
  assumes "group_refs n m groups" and "\<And>packet q k. lookup_transport packet d = Some (q, k) \<Longrightarrow> q < n \<and> k < m"
  shows "group_refs n m (fst (sort_datagrams E ds groups d))"
  using assms
proof (induction ds arbitrary: groups d)
  case (Cons x ds)
  obtain packet endpoint where x: "x = (packet, endpoint)" by force
  have q: "lookup_transport packet' (d\<lparr>dv_handshakeq := q\<rparr>) = lookup_transport packet' d" for packet' q
    by (simp add: lookup_transport_def index_Lookup_def split: option.split index_target.split)
  have IH: "group_refs n m (fst (sort_datagrams E ds groups d))"
    "group_refs n m (fst (sort_datagrams E ds groups (d\<lparr>dv_handshakeq := q\<rparr>)))" for q
    by (rule Cons.IH; use Cons.prems in \<open>simp add: q\<close>)+
  have up: "group_refs n m (fst (sort_datagrams E ds (AList.update p (es @ [decrypt_elem E d k endpoint packet]) groups) d))"
    if "lookup_transport packet d = Some (p, k)" and "map_of groups p = Some es \<or> es = []" for p k es
  proof (rule Cons.IH [OF group_refs_update])
    show "in_keypair y < m" if "y \<in> set (es @ [decrypt_elem E d k endpoint packet])" for y
      using that Cons.prems \<open>lookup_transport packet d = Some (p, k)\<close> \<open>map_of groups p = Some es \<or> es = []\<close>
      by (auto simp: decrypt_elem_def Let_def group_refs_def dest!: map_of_SomeD)
  qed (use Cons.prems that in auto)
  show ?case
    using IH up by (simp add: x Let_def up [of _ _ "[]", simplified] split: option.split)
qed simp

lemma lookup_transport_refs:
  assumes "dev_ok d" and "lookup_transport packet d = Some (q, k)"
  shows "q < length (dv_peers d) \<and> k < length (dv_keypairs d)"
proof -
  obtain i e where "map_of (dv_indexTable d) i = Some e" "ie_target e = ToKeypair k" "q = ie_peer e"
    using assms(2) by (auto simp: lookup_transport_def index_Lookup_def split: if_splits option.splits index_target.splits)
  then show ?thesis using dev_okD(2,4) [OF assms(1), of i e] map_of_SomeD by fastforce
qed

lemma safe_RoutineReceiveIncoming: "safe d (RoutineReceiveIncoming E order ds d)"
proof (rule safeI)
  assume ok: "dev_ok d"
  obtain groups d1 where s: "sort_datagrams E ds [] d = (groups, d1)" by force
  have g: "group_refs (length (dv_peers d)) (length (dv_keypairs d)) groups"
    using sort_datagrams_refs [of "length (dv_peers d)" "length (dv_keypairs d)" "[]" d E ds] lookup_transport_refs [OF ok] s
    by (simp add: group_refs_def)
  have d1: "core_of d1 = core_of d" "shape_of d1 = shape_of d"
    using core_of_sort [of E ds "[]" d] shape_of_sort [of E ds "[]" d] s by simp_all
  let ?f = "\<lambda>p d. if pr_isRunning (dv_peers d ! p)
      then upd_peer p (\<lambda>r. r\<lparr>pr_inbound := pr_inbound r @ [the (map_of groups p)]\<rparr>) d else d"
  have "dev_ok (fold ?f ps d2)" if "dev_ok d2" "length (dv_peers d2) = length (dv_peers d)" "dv_keypairs d2 = dv_keypairs d1"
      "set ps \<subseteq> fst ` set groups" for ps d2
    using that
  proof (induction ps arbitrary: d2)
    case (Cons p ps)
    obtain es where es: "map_of groups p = Some es" "(p, es) \<in> set groups"
      using Cons.prems(4) by (metis list.set_intros(1) map_of_SomeD map_of_eq_None_iff option.exhaust subsetD)
    have p: "p < length (dv_peers d2)" and k: "\<forall>x \<in> set es. in_keypair x < length (dv_keypairs d2)"
      using g es(2) Cons.prems(2,3) arg_cong [OF d1(1), of "\<lambda>c. length (co_keys c)"] by (auto simp: group_refs_def)
    have "dev_ok (?f p d2)"
      using Cons.prems(1) k es(1) dev_okD(6) [OF Cons.prems(1) p]
      by (auto intro!: dev_ok_inbound [OF Cons.prems(1) p] simp: peer_hs_def)
    then show ?case
      using Cons.IH [of "?f p d2"] Cons.prems by simp
  qed simp
  from this [of d1 "visit_order order groups"]
  have "dev_ok (RoutineReceiveIncoming E order ds d)"
    using ok d1 arg_cong [OF d1(1), of "\<lambda>c. length (co_stamps c)"]
    by (auto simp: RoutineReceiveIncoming_def s dev_ok_def visit_order_def peers_len)
  then show "safe d (RoutineReceiveIncoming E order ds d)"
    by (intro safe_core) simp_all
qed

section \<open>Life cycle\<close>

lemma safe_Start:
  assumes p: "p < length (dv_peers d)"
  shows "safe d (Start p d)"
proof (rule safe_core)
  assume ok: "dev_ok d"
  let ?d = "timersStart p (upd_hs p (\<lambda>h. h\<lparr>hs_lastSentHandshake := dv_now d - (RekeyTimeout + second)\<rparr>) d)"
  have "dev_ok ?d" "p < length (dv_peers ?d)" using ok p by (simp_all add: dev_ok_def peers_len)
  then have "dev_ok (upd_peer p (\<lambda>r. r\<lparr>pr_inbound := [], pr_outbound := [], pr_isRunning := True\<rparr>) ?d)"
    by (intro dev_ok_inbound) (simp_all add: peer_hs_def)
  then show "dev_ok (Start p d)" using ok by (simp add: Start_def Let_def)
qed simp

lemma safe_receive_batches:
  assumes "p < length (dv_peers d)" and "\<And>c x. c \<in> set cs \<Longrightarrow> x \<in> set c \<Longrightarrow> in_keypair x < length (dv_keypairs d)"
  shows "safe d (fold (receive_batch E p) cs d)"
  using assms
proof (induction cs arbitrary: d)
  case (Cons c cs)
  have "safe d (receive_batch E p c d)" using Cons.prems by (intro safe_receive_batch) auto
  then have "safe d (fold (receive_batch E p) cs (receive_batch E p c d))"
  proof (rule safe_next)
    assume "length (dv_peers d) \<le> length (dv_peers (receive_batch E p c d))"
      "length (dv_keypairs d) \<le> length (dv_keypairs (receive_batch E p c d))"
    then show "safe (receive_batch E p c d) (fold (receive_batch E p) cs (receive_batch E p c d))"
      using Cons.prems by (intro Cons.IH) (auto dest: order_less_le_trans)
  qed
  then show ?case by simp
qed (simp add: safe_refl)

lemma safe_Stop:
  assumes p: "p < length (dv_peers d)"
  shows "safe d (Stop E p d)"
proof (cases "pr_isRunning (dv_peers d ! p)")
  case True
  define d1 where "d1 = timersStop p (upd_peer p (\<lambda>r. r\<lparr>pr_isRunning := False\<rparr>) d)"
  define d2 where "d2 = upd_peer p (\<lambda>r. r\<lparr>pr_inbound := [], pr_outbound := []\<rparr>) d1"
  define d3 where "d3 = fold (receive_batch E p) (pr_inbound (dv_peers d1 ! p)) d2"
  have run: "Stop E p d = ZeroAndFlushAll p d3"
    using True by (simp only: Stop_def Let_def d1_def d2_def d3_def not_True_eq_False if_False)
  have d1: "safe d d1" by (rule safe_frame) (simp_all add: d1_def)
  have c: "core_of d1 = core_of d" "core_of d2 = core_of d" by (simp_all add: d1_def d2_def)
  have p1: "p < length (dv_peers d1)" "p < length (dv_peers d2)" using p by (simp_all only: peers_len c)
  have kps: "dv_keypairs d2 = dv_keypairs d1" by (simp add: d2_def)
  have "safe d1 (ZeroAndFlushAll p d3)"
  proof (rule safeI)
    assume ok: "dev_ok d1"
    have d2: "safe d1 d2"
      unfolding d2_def by (rule safe_core) (simp, rule dev_ok_inbound [OF _ p1(1)], simp_all add: peer_hs_def)
    have "safe d2 d3"
      unfolding d3_def by (rule safe_receive_batches [OF p1(2)]) (simp only: kps, rule dev_okD(6) [OF ok p1(1)])
    then have "safe d1 d3" by (rule safe_trans [OF d2])
    then show "safe d1 (ZeroAndFlushAll p d3)"
      by (rule safe_then) (rule safe_p(5); use p1(1) in simp)
  qed
  then show ?thesis unfolding run by (rule safe_trans [OF d1])
qed (simp add: Stop_def safe_refl)

lemma safe_expire_key: "k < length (dv_keypairs d) \<Longrightarrow> safe d (upd_kp k (\<lambda>kp. kp\<lparr>kp_sendNonce := RejectAfterMessages\<rparr>) d)"
  (is "_ \<Longrightarrow> safe d ?d")
proof (rule safeI)
  assume k: "k < length (dv_keypairs d)" and ok: "core_ok (core_of d)"
  have "core_step (core_of d) ((core_of d)\<lparr>co_keys := (co_keys (core_of d))[k := (co_keys (core_of d) ! k)\<lparr>kp_sendNonce := RejectAfterMessages\<rparr>],
      co_sealed := co_sealed (core_of d) @ map (Pair k) []\<rparr>)"
    by (rule core_step.seal) (use k core_okD(1) [OF ok] in auto)
  then show "safe d ?d"
    by (intro safe_step) (simp_all add: core_of_upd_kp dev_ok_def)
qed

lemma safe_Expire:
  assumes p: "p < length (dv_peers d)"
  shows "safe d (ExpireCurrentKeypairs p d)"
proof -
  let ?d1 = "upd_hs p (\<lambda>h. (hs_Clear h)\<lparr>hs_lastSentHandshake := dv_now (index_Delete (hs_localIndex (peer_hs p d)) d) - (RekeyTimeout + second)\<rparr>)
    (index_Delete (hs_localIndex (peer_hs p d)) d)"
  let ?e = "\<lambda>k d. case k of None \<Rightarrow> d | Some k \<Rightarrow> upd_kp k (\<lambda>kp. kp\<lparr>kp_sendNonce := RejectAfterMessages\<rparr>) d"
  let ?ks = "pr_keypairs (dv_peers ?d1 ! p)"
  have d1: "safe d ?d1" by (rule safe_core) (simp_all add: dev_ok_clear_handshake p)
  have p1: "p < length (dv_peers ?d1)" using p by (simp add: peers_len)
  have "safe ?d1 (?e (ks_next ?ks) (?e (ks_current ?ks) ?d1))"
  proof (rule safeI)
    assume ok: "dev_ok ?d1"
    have r: "k < length (dv_keypairs ?d1)" if "ks_next ?ks = Some k \<or> ks_current ?ks = Some k" for k
      using dev_okD(5) [OF ok p1] that by (auto simp: slots_def)
    have e: "safe x (?e k x)" if "\<And>j. k = Some j \<Longrightarrow> j < length (dv_keypairs x)" for k x
      using that by (auto simp: safe_refl safe_expire_key split: option.split)
    have "safe ?d1 (?e (ks_current ?ks) ?d1)" using r by (intro e) simp
    then show "safe ?d1 (?e (ks_next ?ks) (?e (ks_current ?ks) ?d1))"
    proof (rule safe_next)
      assume "length (dv_keypairs ?d1) \<le> length (dv_keypairs (?e (ks_current ?ks) ?d1))"
      then show "safe (?e (ks_current ?ks) ?d1) (?e (ks_next ?ks) (?e (ks_current ?ks) ?d1))"
        using r by (intro e) (meson order_less_le_trans)
    qed
  qed
  then show ?thesis
    using safe_trans [OF d1] by (simp add: ExpireCurrentKeypairs_def Let_def)
qed

lemma dev_ok_routes:
  assumes ok: "dev_ok d" and t: "table_inv t" "ran (routes_of t) \<subseteq> {..<length (dv_peers d)}"
  shows "dev_ok (d\<lparr>dv_allowedips := t\<rparr>)"
proof -
  have s: "shape_of (d\<lparr>dv_allowedips := t\<rparr>) = (shape_of d)\<lparr>sh_routes := t\<rparr>" "length (dv_peers d) = length (sh_peers (shape_of d))"
    by (simp_all add: shape_of_def)
  have e: "entry_ok (s\<lparr>sh_routes := t\<rparr>) i e = entry_ok s i e" for s i e
    by (simp add: entry_ok_def split: index_target.split)
  show ?thesis using assms by (simp add: dev_ok_def shape_ok_def s e)
qed

lemma dev_ok_keyMap:
  assumes ok: "dev_ok d" and m: "snd ` set m \<subseteq> {..<length (dv_peers d)}"
  shows "dev_ok (d\<lparr>dv_keyMap := m\<rparr>)"
proof -
  have s: "shape_of (d\<lparr>dv_keyMap := m\<rparr>) = (shape_of d)\<lparr>sh_keys := snd ` set m\<rparr>" "length (dv_peers d) = length (sh_peers (shape_of d))"
    by (simp_all add: shape_of_def)
  have e: "entry_ok (s\<lparr>sh_keys := k\<rparr>) i e = entry_ok s i e" for s k i e
    by (simp add: entry_ok_def split: index_target.split)
  show ?thesis using assms by (simp add: dev_ok_def shape_ok_def s e)
qed

lemma dev_ok_RemoveByPeer: "dev_ok d \<Longrightarrow> dev_ok (d\<lparr>dv_allowedips := RemoveByPeer p (dv_allowedips d)\<rparr>)"
  using aip.remove_peer_law [of "dv_allowedips d" p] dev_okD(8,9)
  by (intro dev_ok_routes) (auto simp: ran_def split: if_splits)

lemma dev_ok_Insert:
  assumes ok: "dev_ok d" and p: "p < length (dv_peers d)" and v: "valid_prefix pfx"
  shows "Insert pfx p (dv_allowedips d) = Some t \<Longrightarrow> dev_ok (d\<lparr>dv_allowedips := t\<rparr>)"
    and "Remove pfx p (dv_allowedips d) = Some t \<Longrightarrow> dev_ok (d\<lparr>dv_allowedips := t\<rparr>)"
proof -
  have i: "routes_of (dv_allowedips d) r = Some q \<Longrightarrow> q < length (dv_peers d)" for r q using dev_okD(9) [OF ok] .
  show "dev_ok (d\<lparr>dv_allowedips := t\<rparr>)" if "Insert pfx p (dv_allowedips d) = Some t"
    using aip.insert_law [OF dev_okD(8) [OF ok] v, of p] that i p
    by (intro dev_ok_routes [OF ok]) (auto simp: ran_def split: if_splits)
  show "dev_ok (d\<lparr>dv_allowedips := t\<rparr>)" if "Remove pfx p (dv_allowedips d) = Some t"
    using aip.remove_law [OF dev_okD(8) [OF ok] v, of p] that i p
    by (intro dev_ok_routes [OF ok]) (auto simp: ran_def split: if_splits)
qed

lemma keyMap_delete: "snd ` set (AList.delete k m) \<subseteq> snd ` set m"
  by (auto simp: AList.delete_eq)

lemma safe_removePeerLocked:
  assumes p: "p < length (dv_peers d)"
  shows "safe d (removePeerLocked E p key d)"
proof -
  let ?d = "d\<lparr>dv_allowedips := RemoveByPeer p (dv_allowedips d)\<rparr>"
  have d1: "safe d ?d" by (rule safe_core) (simp_all add: dev_ok_RemoveByPeer)
  have "safe ?d (Stop E p ?d)" by (rule safe_Stop) (simp add: p)
  then have "safe d (Stop E p ?d)" by (rule safe_trans [OF d1])
  then have "safe d ((Stop E p ?d)\<lparr>dv_keyMap := AList.delete key (dv_keyMap (Stop E p ?d))\<rparr>)"
  proof (rule safe_then)
    assume ok: "dev_ok (Stop E p ?d)"
    show "safe (Stop E p ?d) ((Stop E p ?d)\<lparr>dv_keyMap := AList.delete key (dv_keyMap (Stop E p ?d))\<rparr>)"
      by (rule safe_core) (use dev_okD(7) [OF ok] keyMap_delete [of key "dv_keyMap (Stop E p ?d)"] in \<open>auto intro!: dev_ok_keyMap\<close>)
  qed
  then show ?thesis by (simp add: removePeerLocked_def Let_def)
qed

lemma safe_RemovePeer: "safe d (RemovePeer E key d)"
proof (rule safeI)
  assume ok: "dev_ok d"
  show "safe d (RemovePeer E key d)"
    by (auto simp: RemovePeer_def safe_refl split: option.split intro!: safe_removePeerLocked dest!: map_of_SomeD dev_okD(7) [OF ok])
qed

lemma safe_folds: "(\<And>x d. safe d (f x d)) \<Longrightarrow> safe d (fold f xs d)"
  by (rule safe_fold [OF _ order_refl])

lemma safe_RemoveAllPeers: "safe d (RemoveAllPeers E order d)"
  unfolding RemoveAllPeers_def
  by (rule safe_trans [OF safe_folds [OF safe_RemovePeer]], rule safe_core) (simp, rule dev_ok_keyMap, simp_all)

lemma safe_NewPeer: "safe d (snd (NewPeer E pk d))"
proof (cases "isClosed d \<or> length (dv_keyMap d) \<ge> MaxPeers \<or> map_of (dv_keyMap d) pk \<noteq> None")
  case True
  then show ?thesis by (auto simp: NewPeer_def safe_refl)
next
  case False
  then obtain r where r: "snd (NewPeer E pk d) = d\<lparr>dv_peers := dv_peers d @ [r], dv_keyMap := AList.update pk (length (dv_peers d)) (dv_keyMap d)\<rparr>"
    "hs_lastTimestamp (pr_handshake r) = zeros 12" "peer_shape r = ({}, 0, {})"
    by (auto simp: NewPeer_def Let_def Peer0_def Handshake0_def peer_shape_def slots_def)
  show ?thesis
  proof (rule safe_step)
    show "core_step (core_of d) (core_of (snd (NewPeer E pk d)))"
      using core_step.new_peer [of "core_of d"] r by (simp add: core_of_def)
    show "length (dv_peers d) \<le> length (dv_peers (snd (NewPeer E pk d)))" by (simp add: r(1))
    assume ok: "dev_ok d"
    let ?s = "shape_of d" and ?d = "snd (NewPeer E pk d)"
    have s: "sh_local (shape_of ?d) = sh_local ?s" "sh_table (shape_of ?d) = sh_table ?s" "sh_routes (shape_of ?d) = sh_routes ?s"
      "sh_peers (shape_of ?d) = sh_peers ?s @ [({}, 0, {})]" "sh_keys (shape_of ?d) \<subseteq> insert (length (sh_peers ?s)) (sh_keys ?s)"
      using set_alist_update [of pk "length (dv_peers d)" "dv_keyMap d"] by (auto simp: r shape_of_def)
    have "entry_ok (shape_of ?d) i e" if "entry_ok ?s i e" for i e
      using that by (auto simp: entry_ok_def s nth_append split: index_target.splits)
    then show "dev_ok ?d"
      using ok s(5) by (fastforce simp: dev_ok_def shape_ok_def s(1-4))
  qed
qed

lemma peers_in_range: "dev_ok d \<Longrightarrow> p \<in> set (peers_in order d) \<Longrightarrow> p < length (dv_peers d)"
  by (auto simp: peers_in_def keys_in_def dest!: weak_map_of_SomeI intro: dev_okD(7) [OF _ map_of_SomeD])

lemma safe_peers_fold:
  assumes "\<And>p d. p < length (dv_peers d) \<Longrightarrow> safe d (f p d)"
  shows "safe d (fold f (peers_in order d) d)"
proof (rule safeI)
  assume ok: "dev_ok d"
  show "safe d (fold f (peers_in order d) d)"
  proof (rule safe_fold [OF _ order_refl])
    fix p and d1 :: Device assume "length (dv_peers d) \<le> length (dv_peers d1)" "p \<in> set (peers_in order d)"
    then have "p < length (dv_peers d1)" using peers_in_range [OF ok, of p order] by simp
    then show "safe d1 (f p d1)" by (rule assms)
  qed
qed

lemma safe_if: "safe d (f d) \<Longrightarrow> safe d (if b then f d else d)"
  by (simp add: safe_refl)

lemma safe_expirationFunction: "p < length (dv_peers d) \<Longrightarrow> safe d (expirationFunction E t p d)"
proof (cases t)
  case RetransmitHandshake
  assume p: "p < length (dv_peers d)"
  have "dev_ok (SendHandshakeInitiation E True p d1)" if "dev_ok d" "shape_of d1 = shape_of d" "core_of d1 = core_of d" for d1
    using dev_ok_SendHandshakeInitiation [of d1 p E True] that p by (simp add: dev_ok_def peers_len)
  then have "safe d (expiredRetransmitHandshake E p d)"
    by (intro safe_core) (simp, simp add: expiredRetransmitHandshake_def Let_def dev_ok_def)
  then show ?thesis by (simp add: RetransmitHandshake)
next
  case SendKeepaliveTimer
  assume "p < length (dv_peers d)"
  then have "safe d (SendKeepalive E p d)" by (rule safe_SendKeepalive)
  moreover have "safe x (if b then (if c then upd_tm p f (upd_tm p g x) else upd_tm p g x) else x)" for x b c f g
    by (rule safe_frame) simp_all
  ultimately show ?thesis
    unfolding SendKeepaliveTimer expirationFunction.simps expiredSendKeepalive_def Let_def by (rule safe_trans)
next
  case NewHandshake
  assume p: "p < length (dv_peers d)"
  have f: "core_of (markEndpointSrcForClearing p d) = core_of d" "shape_of (markEndpointSrcForClearing p d) = shape_of d" by simp_all
  have "p < length (dv_peers (markEndpointSrcForClearing p d))" using p by (simp only: peers_len f)
  then show ?thesis
    unfolding NewHandshake expirationFunction.simps expiredNewHandshake_def by (rule safe_trans [OF safe_frame [OF f] safe_p(1)])
next
  case ZeroKeyMaterial
  assume "p < length (dv_peers d)"
  then show ?thesis by (simp add: ZeroKeyMaterial expiredZeroKeyMaterial_def safe_p)
next
  case PersistentKeepalive
  assume "p < length (dv_peers d)"
  then show ?thesis by (simp add: PersistentKeepalive expiredPersistentKeepalive_def safe_SendKeepalive safe_refl)
qed

lemma safe_fire_timer: "p < length (dv_peers d) \<Longrightarrow> safe d (fire_timer E t p d)"
proof -
  assume p: "p < length (dv_peers d)"
  have "p < length (dv_peers (upd_tm p (timer_Del t) d))" using p by (simp add: peers_len)
  then have "safe d (expirationFunction E t p (upd_tm p (timer_Del t) d))"
    by (intro safe_trans [OF safe_frame safe_expirationFunction]) simp_all
  then show ?thesis
    by (simp add: fire_timer_def safe_refl split: option.split)
qed

lemma safe_bind: "safe d (snd (BindUpdate order d))" "safe d (snd (BindSetMark order m d))"
  "safe d (snd (BindSetListenPort order lp u port d))" "safe d (snd (closeBindLocked d))"
  by (rule safe_frame; simp)+

lemma safe_upLocked: "safe d (snd (upLocked E order d))"
proof -
  obtain b d1 where u: "BindUpdate order d = (b, d1)" by force
  have d1: "safe d d1" using safe_bind(1) [of d order] u by simp
  let ?f = "\<lambda>p d. if pr_persistentKeepaliveInterval (dv_peers (Start p d) ! p) > 0 then SendKeepalive E p (Start p d) else Start p d"
  have "safe d1 (fold ?f (peers_in order d1) d1)"
  proof (rule safe_peers_fold)
    fix p and x :: Device assume p: "p < length (dv_peers x)"
    then have "safe x (Start p x)" by (rule safe_Start)
    moreover have "safe (Start p x) (?f p x)"
      using p by (auto simp: safe_refl peers_len intro: safe_SendKeepalive)
    ultimately show "safe x (?f p x)" by (rule safe_trans)
  qed
  then have "safe d (fold ?f (peers_in order d1) d1)" by (rule safe_trans [OF d1])
  then show ?thesis using d1 by (simp add: upLocked_def u Let_def split: bool.split)
qed

lemma safe_downLocked: "safe d (snd (downLocked E order d))"
proof -
  obtain b d1 where u: "closeBindLocked d = (b, d1)" by force
  have d1: "safe d d1" using safe_bind(4) [of d] u by simp
  have "safe d1 (fold (Stop E) (peers_in order d1) d1)" by (rule safe_peers_fold) (rule safe_Stop)
  then have "safe d (fold (Stop E) (peers_in order d1) d1)" by (rule safe_trans [OF d1])
  then show ?thesis by (simp add: downLocked_def u)
qed

lemma safe_state: "safe d (d\<lparr>dv_state := s\<rparr>)"
  by (rule safe_frame) simp_all

lemma safe_changeState: "safe d (snd (changeState E order want d))"
proof -
  let ?u = "upLocked E order (d\<lparr>dv_state := deviceStateUp\<rparr>)"
  have up: "safe d (snd ?u)" by (rule safe_trans [OF safe_state safe_upLocked])
  have "safe d (snd (downLocked E order ((snd ?u)\<lparr>dv_state := deviceStateDown\<rparr>)))"
    by (rule safe_trans [OF safe_trans [OF up safe_state] safe_downLocked])
  moreover have "safe d (snd (downLocked E order (d\<lparr>dv_state := deviceStateDown\<rparr>)))"
    by (rule safe_trans [OF safe_state safe_downLocked])
  ultimately show ?thesis
    using up by (cases ?u) (simp add: changeState_def Let_def safe_refl split: deviceState.split bool.split)
qed

lemma safe_Close: "safe d (Close E order d)"
proof -
  have "safe d (RemoveAllPeers E order (snd (downLocked E order (d\<lparr>dv_state := deviceStateClosed\<rparr>))))"
    by (rule safe_trans [OF safe_trans [OF safe_state safe_downLocked] safe_RemoveAllPeers])
  then show ?thesis by (simp add: Close_def Let_def safe_refl)
qed

lemma safe_SendKeepalivesToPeers: "safe d (SendKeepalivesToPeersWithCurrentKeypair E order d)"
  unfolding SendKeepalivesToPeersWithCurrentKeypair_def
  by (auto simp: safe_refl split: option.split intro!: safe_peers_fold intro: safe_SendKeepalive)

lemma safe_RoutineTUNEventReader: "safe d (RoutineTUNEventReader E order a mtu up down d)"
proof -
  define d1 where "d1 = (if a then d\<lparr>dv_mtu := min (nat (the mtu)) MaxContentSize\<rparr> else d)"
  define d2 where "d2 = (if up then snd (changeState E order deviceStateUp d1) else d1)"
  have "safe d d1" unfolding d1_def by (rule safe_frame) simp_all
  moreover have "safe d1 d2" by (simp add: d2_def safe_changeState safe_refl)
  moreover have "safe d2 (if down then snd (changeState E order deviceStateDown d2) else d2)"
    by (simp add: safe_changeState safe_refl)
  ultimately have "safe d (if down then snd (changeState E order deviceStateDown d2) else d2)"
    by (rule safe_trans [OF safe_trans])
  then show ?thesis
    by (simp only: RoutineTUNEventReader_def Let_def d1_def [symmetric] d2_def [symmetric] safe_refl if_split simp_thms) blast
qed

lemma safe_SetPrivateKey: "safe d (SetPrivateKey E order sk d)"
proof -
  let ?rm = "\<lambda>key d. case map_of (dv_keyMap d) key of None \<Rightarrow> d
      | Some p \<Rightarrow> if hs_remoteStatic (peer_hs p d) = publicKey E sk then removePeerLocked E p key d else d"
  let ?d1 = "fold ?rm (keys_in order d) d"
  let ?d2 = "?d1\<lparr>dv_privateKey := sk, dv_publicKey := publicKey E sk,
      dv_cookieChecker := CookieChecker_Init E (publicKey E sk) (dv_cookieChecker ?d1)\<rparr>"
  let ?g = "\<lambda>p. upd_hs p (\<lambda>h. h\<lparr>hs_precomputedStaticStatic := static_static E sk (hs_remoteStatic h)\<rparr>)"
  let ?d3 = "fold ?g (peers_in order ?d2) ?d2"
  have "safe x (?rm key x)" for key x
  proof (rule safeI)
    assume ok: "dev_ok x"
    show "safe x (?rm key x)"
      by (auto simp: safe_refl split: option.split intro!: safe_removePeerLocked dest!: map_of_SomeD dev_okD(7) [OF ok])
  qed
  then have d1: "safe d ?d1" by (rule safe_folds)
  have d2: "safe ?d1 ?d2" by (rule safe_frame) simp_all
  have d3: "core_of ?d3 = core_of ?d2" "shape_of ?d3 = shape_of ?d2" by (rule core_of_fold shape_of_fold; simp)+
  have "safe ?d3 (fold ExpireCurrentKeypairs (peers_in order ?d2) ?d3)"
  proof (rule safeI)
    assume "dev_ok ?d3"
    then have ok: "dev_ok ?d2" using d3(2) by (simp add: dev_ok_def)
    have l: "length (dv_peers ?d3) = length (dv_peers ?d2)" by (simp only: peers_len d3(1))
    show "safe ?d3 (fold ExpireCurrentKeypairs (peers_in order ?d2) ?d3)"
    proof (rule safe_fold [where ?d0.0 = ?d3, OF _ order_refl])
      fix p and x :: Device assume "length (dv_peers ?d3) \<le> length (dv_peers x)" "p \<in> set (peers_in order ?d2)"
      then have "p < length (dv_peers x)" using peers_in_range [OF ok, of p order] l by simp
      then show "safe x (ExpireCurrentKeypairs p x)" by (rule safe_Expire)
    qed
  qed
  then have "safe d (fold ExpireCurrentKeypairs (peers_in order ?d2) ?d3)"
    by (rule safe_trans [OF safe_trans [OF safe_trans [OF d1 d2] safe_frame [OF d3]]])
  then show ?thesis by (simp add: SetPrivateKey_def Let_def safe_refl)
qed

end
