(* ===== verification/Device_Run.thy ===== *)
theory Device_Run
  imports Device_Safe
begin

text \<open>
  Runs of the device: the operations its goroutines and its configuration
  interface perform, in any order, with any input and at any time, and what holds
  in every state they reach.
\<close>

section \<open>Steps\<close>

text \<open>
  The environment may advance the clock and supply random bytes, timer jitter and
  answers of the bind.  A configuration step sets what handlePeerLine sets of a
  peer besides its routes.
\<close>

inductive device_step :: "noise_env \<Rightarrow> Device \<Rightarrow> Device \<Rightarrow> bool" for E where
  read_tun: "device_step E d (RoutineReadFromTUN E order packets d)"
| receive_net: "device_step E d (RoutineReceiveIncoming E order' datagrams d)"
| handshake: "device_step E d (RoutineHandshake E d)"
| sender: "p < length (dv_peers d) \<Longrightarrow> device_step E d (RoutineSequentialSender E p d)"
| receiver: "p < length (dv_peers d) \<Longrightarrow> device_step E d (RoutineSequentialReceiver E p d)"
| timer: "p < length (dv_peers d) \<Longrightarrow> device_step E d (fire_timer E t p d)"
| tun_event: "device_step E d (RoutineTUNEventReader E visit mtuUpdate mtu up down d)"
| change_state: "device_step E d (snd (changeState E visit want d))"
| close: "device_step E d (Close E visit d)"
| keepalives: "device_step E d (SendKeepalivesToPeersWithCurrentKeypair E visit d)"
| bind_update: "device_step E d (snd (BindUpdate visit d))"
| set_mark: "device_step E d (snd (BindSetMark visit mark d))"
| set_port: "device_step E d (snd (BindSetListenPort visit listenPort updater port d))"
| set_key: "device_step E d (SetPrivateKey E visit sk d)"
| new_peer: "device_step E d (snd (NewPeer E pk d))"
| remove_peer: "device_step E d (RemovePeer E key d)"
| remove_all: "device_step E d (RemoveAllPeers E visit d)"
| start: "p < length (dv_peers d) \<Longrightarrow> device_step E d (Start p d)"
| keepalive: "p < length (dv_peers d) \<Longrightarrow> device_step E d (SendKeepalive E p d)"
| send_staged: "p < length (dv_peers d) \<Longrightarrow> device_step E d (SendStagedPackets E p d)"
| add_route: "p < length (dv_peers d) \<Longrightarrow> valid_prefix pfx \<Longrightarrow> Insert pfx p (dv_allowedips d) = Some table \<Longrightarrow>
    device_step E d (d\<lparr>dv_allowedips := table\<rparr>)"
| del_route: "p < length (dv_peers d) \<Longrightarrow> valid_prefix pfx \<Longrightarrow> Remove pfx p (dv_allowedips d) = Some table \<Longrightarrow>
    device_step E d (d\<lparr>dv_allowedips := table\<rparr>)"
| clear_routes: "device_step E d (d\<lparr>dv_allowedips := RemoveByPeer p (dv_allowedips d)\<rparr>)"
| configure: "device_step E d (upd_peer p (\<lambda>r. r\<lparr>pr_endpoint := endpoint, pr_disableRoaming := noRoaming,
    pr_persistentKeepaliveInterval := interval, pr_handshake := (pr_handshake r)\<lparr>hs_presharedKey := psk\<rparr>\<rparr>) d)"
| callbacks: "device_step E d (d\<lparr>dv_inboundFilter := inbound, dv_tonatHandler := tonat\<rparr>)"
| environment: "dv_now d \<le> now \<Longrightarrow>
    device_step E d (d\<lparr>dv_now := now, dv_rand := tape, dv_jitter := jitter, dv_sendq := sends, dv_bindq := binds\<rparr>)"

definition reachable :: "noise_env \<Rightarrow> Device \<Rightarrow> Device \<Rightarrow> bool" where
  "reachable E d d' \<longleftrightarrow> (device_step E)\<^sup>*\<^sup>* d d'"

lemma device_step_safe: "device_step E d d' \<Longrightarrow> safe d d'"
proof (induction rule: device_step.induct)
  case (configure d p endpoint noRoaming interval psk)
  show ?case by (rule safe_frame) (simp_all add: peer_shape_def)
next
  case (environment d now tape jitter sends binds)
  show ?case by (rule safe_frame) simp_all
next
  case (callbacks d inbound tonat)
  show ?case by (rule safe_frame) simp_all
next
  case (clear_routes d p)
  show ?case by (rule safe_core) (simp_all add: dev_ok_RemoveByPeer)
next
  case (add_route p d pfx table)
  then show ?case by (intro safe_core) (simp, rule dev_ok_Insert(1))
next
  case (del_route p d pfx table)
  then show ?case by (intro safe_core) (simp, rule dev_ok_Insert(2))
qed (simp_all add: safe_RoutineReadFromTUN safe_RoutineReceiveIncoming safe_RoutineHandshake safe_p safe_RoutineSequentialReceiver
    safe_fire_timer safe_RoutineTUNEventReader safe_changeState safe_Close safe_SendKeepalivesToPeers safe_bind safe_SetPrivateKey
    safe_NewPeer safe_RemovePeer safe_RemoveAllPeers safe_Start safe_SendKeepalive safe_SendStagedPackets)

lemma reachable_safe: "reachable E d d' \<Longrightarrow> safe d d'"
  unfolding reachable_def by (induction rule: rtranclp_induct) (auto intro: safe_refl safe_trans device_step_safe)

lemma NewDevice_ok: "dev_ok (NewDevice b mtu now tape)" "core_ok (core_of (NewDevice b mtu now tape))"
  by (simp_all add: NewDevice_def dev_ok_def shape_of_def shape_ok_def core_of_def core_ok_def table_inv0 routes_of0)

lemma reachable_ok:
  assumes "reachable E (NewDevice b mtu now tape) d"
  shows "dev_ok d" and "core_ok (core_of d)"
  using reachable_safe [OF assms] NewDevice_ok [of b mtu now tape] core_steps_ok by (auto simp: safe_def)

end
