(* ===== verification/Device_Demo.thy ===== *)
theory Device_Demo
  imports Device_Run
begin

text \<open>
  A run of a device against constant toy cryptography, evaluated step by step: a
  peer is created and configured, the device comes up, a keepalive starts a
  handshake, the response completes it and the keepalive is sealed, and a
  keepalive of the peer is accepted.
\<close>

section \<open>Constant cryptography\<close>

definition flat_noise :: noise_env where
  "flat_noise = \<lparr>blake2s = (\<lambda>_. zeros 32), blake2s_128 = (\<lambda>_ _. zeros 16),
     ScalarMult = (\<lambda>_ _. 1 # zeros 31), ScalarBaseMult = (\<lambda>_. zeros 32),
     aead_Seal = (\<lambda>k n p a. zeros 16 @ p),
     aead_Open = (\<lambda>k n c a. if take 16 c = zeros 16 then Some (drop 16 c) else None),
     xaead_Seal = (\<lambda>k n p a. zeros 16 @ p),
     xaead_Open = (\<lambda>k n c a. if take 16 c = zeros 16 then Some (drop 16 c) else None)\<rparr>"

lemma flat_noise_ok: "hash_sizes flat_noise" "aead_ok flat_noise" "dh_agrees flat_noise"
  by (simp_all add: hash_sizes_def aead_ok_def dh_agrees_def flat_noise_def zeros_def)

lemma length_zeros [simp]: "length (zeros n) = n"
  by (simp add: zeros_def)

lemma isZero_cons [simp]: "isZero (1 # x) = False"
  by (simp add: isZero_eq zeros_def)

lemma flat_simps [simp]:
  "blake2s flat_noise m = zeros 32" "blake2s_128 flat_noise k m = zeros 16"
  "mixHash flat_noise h x = zeros 32" "mixKey flat_noise h x = zeros 32" "InitialHash flat_noise = zeros 32"
  "InitialChainKey flat_noise = zeros 32" "KDF2 flat_noise c x = (zeros 32, zeros 32)"
  "KDF3 flat_noise c x = (zeros 32, zeros 32, zeros 32)" "publicKey flat_noise sk = zeros 32"
  "sharedSecret flat_noise sk pk = Some (1 # zeros 31)"
  "aead_Seal flat_noise k n p a = zeros 16 @ p" "aead_Open flat_noise k n (zeros 16 @ p) a = Some p"
  "aead_Open flat_noise k n (zeros 16) a = Some []"
  by (simp_all add: flat_noise_def mixHash_def mixKey_def InitialHash_def InitialChainKey_def KDF1_def KDF2_def KDF3_def
      HMAC1_def HMAC2_def hmac_def publicKey_def sharedSecret_def Let_def)

section \<open>The run\<close>

definition demo_endpoint :: TCPEndpoint where
  "demo_endpoint = \<lparr>ep_dst = \<lparr>ap_Addr = AddrZero, ap_Port = 1\<rparr>, ep_src = \<lparr>ap_Addr = AddrZero, ap_Port = 0\<rparr>, ep_toNAT = False\<rparr>"

definition demo_peered :: Device where
  "demo_peered = snd (NewPeer flat_noise (zeros 32) (NewDevice True None 0 []))"

definition demo_configured :: Device where
  "demo_configured = upd_peer 0 (\<lambda>r. r\<lparr>pr_endpoint := Some demo_endpoint, pr_disableRoaming := True,
     pr_persistentKeepaliveInterval := 0, pr_handshake := (pr_handshake r)\<lparr>hs_presharedKey := zeros 32\<rparr>\<rparr>) demo_peered"

definition demo_up :: Device where
  "demo_up = snd (changeState flat_noise [] deviceStateUp
     (demo_configured\<lparr>dv_now := 1, dv_rand := replicate 36 1, dv_jitter := [], dv_sendq := [], dv_bindq := [BindOK 0, BindOK 7]\<rparr>))"

definition demo_sent :: Device where
  "demo_sent = SendKeepalive flat_noise 0 demo_up"

definition demo_index :: "32 word" where "demo_index = le_get (replicate 4 1)"

definition demo_response :: "byte list" where
  "demo_response = le_put MessageResponseType @ le_put (5 :: 32 word) @ le_put demo_index @ zeros 32 @ zeros 16 @ zeros 16 @ zeros 16"

definition demo_queued :: Device where
  "demo_queued = RoutineReceiveIncoming flat_noise [] [(demo_response, demo_endpoint)] demo_sent"

definition demo_session :: Device where
  "demo_session = RoutineHandshake flat_noise demo_queued"

definition demo_keepalive :: "byte list" where
  "demo_keepalive = le_put MessageTransportType @ le_put demo_index @ le_put (0 :: 64 word) @ zeros 16"

definition demo_accepted :: Device where
  "demo_accepted = RoutineSequentialReceiver flat_noise 0
     (RoutineReceiveIncoming flat_noise [] [(demo_keepalive, demo_endpoint)] demo_session)"

lemma message_types [simp]:
  "MessageResponseType \<noteq> MessageTransportType" "MessageResponseType \<noteq> MessageCookieReplyType"
  "MessageInitiationType \<noteq> MessageResponseType" "MessageResponseType \<noteq> MessageInitiationType"
  by (simp_all add: MessageInitiationType_def MessageResponseType_def MessageCookieReplyType_def MessageTransportType_def)

lemma Reject_pos [simp]: "\<not> RejectAfterMessages \<le> 0" "(0 :: 64 word) < RejectAfterMessages" "RejectAfterMessages \<noteq> 0"
  using RejectAfterMessages_nat by (auto simp: word_less_nat_alt word_le_nat_alt)

lemma demo_response [simp]:
  "length demo_response = 92" "le_get (slice 0 4 demo_response) = MessageResponseType"
  "mr_unmarshal demo_response = Some \<lparr>mr_Type = MessageResponseType, mr_Sender = 5, mr_Receiver = demo_index,
     mr_Ephemeral = zeros 32, mr_Empty = zeros 16, mr_MAC1 = zeros 16, mr_MAC2 = zeros 16\<rparr>"
  "slice 60 16 demo_response = zeros 16"
proof -
  show "mr_unmarshal demo_response = Some \<lparr>mr_Type = MessageResponseType, mr_Sender = 5, mr_Receiver = demo_index,
     mr_Ephemeral = zeros 32, mr_Empty = zeros 16, mr_MAC1 = zeros 16, mr_MAC2 = zeros 16\<rparr>"
    using mr_unmarshal_bytes [of "\<lparr>mr_Type = MessageResponseType, mr_Sender = 5, mr_Receiver = demo_index,
     mr_Ephemeral = zeros 32, mr_Empty = zeros 16, mr_MAC1 = zeros 16, mr_MAC2 = zeros 16\<rparr>"]
    by (simp add: demo_response_def mr_sized_def)
qed (simp_all add: demo_response_def slice_def)

lemma demo_keepalive [simp]:
  "length demo_keepalive = 32" "le_get (slice 0 4 demo_keepalive) = MessageTransportType"
  "le_get (slice 4 4 demo_keepalive) = demo_index" "le_get (slice 8 8 demo_keepalive) = (0 :: 64 word)"
  "drop 16 demo_keepalive = zeros 16"
  by (simp_all add: demo_keepalive_def slice_def)

lemmas new_defs = NewDevice_def NewPeer_def isClosed_def isUp_def MaxPeers_def static_static_def Start_def Let_def
  Peer0_def Handshake0_def upd_hs_def upd_peer_def timersStart_def upd_tm_def timersInit_def second_def RekeyTimeout_def
  CookieGenerator_Init_def CookieGenerator0_def

lemmas up_defs = demo_up_def demo_configured_def demo_peered_def changeState_def upLocked_def BindUpdate_def closeBindLocked_def
  bind_call_def mark_endpoints_def peers_in_def keys_in_def markEndpointSrcForClearing_def

lemmas init_defs = SendHandshakeInitiation_def CreateMessageInitiation_def newPrivateKey_def rand_bytes_def hs_mixHash_def hs_mixKey_def
  index_Delete_def NewIndexForHandshake_def new_index.simps set_hs_def peer_hs_def stamp_packet_def AddMacs_def
  timersAnyAuthenticatedPacketTraversal_def timersAnyAuthenticatedPacketSent_def timersActive_def SendBuffers_def
  timersHandshakeInitiated_def fastrandn_def since_exceeds_def SendKeepalive_def SendStagedPackets_def send_staged.simps

definition demo_peer :: peer_obj where
  "demo_peer = Peer0\<lparr>pr_isRunning := True,
     pr_handshake := Handshake0\<lparr>hs_state := handshakeInitiationCreated, hs_localEphemeral := sk_clamp (replicate 32 1),
       hs_localIndex := demo_index, hs_precomputedStaticStatic := 1 # zeros 31, hs_lastSentHandshake := - 5999999999\<rparr>,
     pr_endpoint := Some (ClearSrc demo_endpoint), pr_disableRoaming := True, pr_staged := [[[]]],
     pr_cookieGenerator := CookieGenerator0\<lparr>cg_hasLastMAC1 := True\<rparr>\<rparr>"

lemma demo_sent_eq: "demo_sent = (NewDevice True None 1 [])\<lparr>dv_state := deviceStateUp, dv_peers := [demo_peer], dv_keyMap := [(zeros 32, 0)],
    dv_indexTable := [(demo_index, \<lparr>ie_peer = 0, ie_target = ToHandshake\<rparr>)], dv_bindOpen := True, dv_port := 7\<rparr>"
  by (simp add: demo_sent_def new_defs up_defs init_defs case_prod_unfold demo_index_def demo_peer_def)

lemma demo_queued_eq: "demo_queued = demo_sent\<lparr>dv_handshakeq := [(MessageResponseType, demo_response, demo_endpoint)]\<rparr>"
  by (simp add: demo_queued_def RoutineReceiveIncoming_def visit_order_def MinMessageSize_def MessageKeepaliveSize_def
      MessageTransportSize_def MessageTransportHeaderSize_def handshake_size_ok_def MessageResponseSize_def QueueHandshakeSize_def
      demo_sent_eq NewDevice_def Let_def)

lemma demo_session_handle: "demo_session = handle_response flat_noise demo_response demo_endpoint demo_sent"
  by (simp add: demo_session_def demo_queued_eq RoutineHandshake_def admit_handshake_def CheckMAC1_def IsUnderLoad_def smac1_def smac2_def
     QueueHandshakeSize_def demo_sent_eq NewDevice_def)

definition demo_keypair :: Keypair where
  "demo_keypair = \<lparr>kp_sendNonce = 1, kp_send = zeros 32, kp_receive = zeros 32, kp_replayFilter = Filter_Reset Filter0,
     kp_isInitiator = True, kp_created = 1, kp_localIndex = demo_index, kp_remoteIndex = 5\<rparr>"

definition demo_session_peer :: peer_obj where
  "demo_session_peer = demo_peer\<lparr>pr_keypairs := \<lparr>ks_current = Some 0, ks_previous = None, ks_next = None\<rparr>,
     pr_handshake := (pr_handshake demo_peer)\<lparr>hs_state := handshakeZeroed, hs_localEphemeral := setZero (sk_clamp (replicate 32 1)),
       hs_hash := setZero (zeros 32), hs_chainKey := setZero (zeros 32), hs_localIndex := 0, hs_remoteIndex := 5\<rparr>,
     pr_rxBytes := 92, pr_lastHandshakeNano := 1, pr_staged := [],
     pr_timers := timersInit\<lparr>tm_newHandshake := None, tm_zeroKeyMaterial := Some (1 + RejectAfterTime * 3)\<rparr>,
     pr_outbound := [[encrypt_packet flat_noise DefaultMTU demo_keypair 0 []]]\<rparr>"

lemma demo_session_eq: "demo_session = demo_sent\<lparr>dv_peers := [demo_session_peer], dv_keypairs := [demo_keypair],
    dv_indexTable := [(demo_index, \<lparr>ie_peer = 0, ie_target = ToKeypair 0\<rparr>)], dv_sealed := [(0, 0)]\<rparr>"
  apply (simp add: demo_session_handle handle_response_def ConsumeMessageResponse_def index_Lookup_def demo_sent_eq demo_peer_def NewDevice_def peer_hs_def set_hs_def
     Peer0_def Handshake0_def hs_mixHash_def hs_mixKey_def upd_peer_def upd_hs_def)
  apply (simp add: SetEndpointFromPacket_def add_rx_def timersAnyAuthenticatedPacketReceived_def timersAnyAuthenticatedPacketTraversal_def upd_tm_def upd_peer_def timersActive_def)
  apply (simp add: BeginSymmetricSession_def peer_hs_def set_hs_def upd_hs_def upd_peer_def SwapIndexForKeypair_def rotate_keypairs_def upd_ks_def DeleteKeypair_def)
  apply (simp add: timersSessionDerived_def timersHandshakeComplete_def upd_tm_def upd_peer_def timersActive_def isUp_def peer_hs_def RekeyTimeout_def second_def)
  apply (simp add: SendKeepalive_def SendStagedPackets_def send_staged.simps upd_peer_def isUp_def StagePackets_def)
  apply (simp add: Let_def upd_kp_def upd_peer_def queue_outbound_def send_staged.simps isUp_def RejectAfterTime_def second_def)
  apply (simp add: demo_session_peer_def demo_keypair_def demo_peer_def Peer0_def Handshake0_def timersInit_def RejectAfterTime_def second_def)
  done

definition demo_elem :: inbound_elem where
  "demo_elem = \<lparr>in_packet = Some [], in_counter = 0, in_keypair = 0, in_endpoint = demo_endpoint\<rparr>"

lemma demo_inbound_eq: "RoutineReceiveIncoming flat_noise [] [(demo_keepalive, demo_endpoint)] demo_session =
    demo_session\<lparr>dv_peers := [demo_session_peer\<lparr>pr_inbound := [[demo_elem]]\<rparr>]\<rparr>"
  by (simp add: demo_session_eq RoutineReceiveIncoming_def visit_order_def MinMessageSize_def MessageKeepaliveSize_def
      MessageTransportSize_def MessageTransportHeaderSize_def lookup_transport_def index_Lookup_def demo_sent_eq NewDevice_def
      decrypt_elem_def demo_keypair_def RejectAfterTime_def second_def upd_peer_def demo_session_peer_def demo_peer_def Peer0_def demo_elem_def)

lemma demo_validate: "fst (ValidateCounter 0 RejectAfterMessages (Filter_Reset Filter0))"
proof -
  have "represents (Filter_Reset Filter0) window0" by (rule Reset_represents) (simp add: Filter0_def ringBlocks_def)
  note ValidateCounter_refines [OF this, of 0 RejectAfterMessages]
  then show ?thesis using RejectAfterMessages_nat by (simp add: window_validate_def window_accepts_def window0_def)
qed

lemma accepted_frames [simp]:
  "dv_accepted (timersAnyAuthenticatedPacketReceived p d) = dv_accepted d"
  "dv_accepted (timersAnyAuthenticatedPacketTraversal p d) = dv_accepted d"
  "dv_accepted (SetEndpointFromPacket e p d) = dv_accepted d"
  by (auto simp: timers_defs endpoint_defs upd_tm_def upd_peer_def Let_def)

lemma demo_accepted_eq: "dv_accepted demo_accepted = [(0, 0)]"
  unfolding demo_accepted_def demo_inbound_eq
  using demo_validate
  apply (simp add: RoutineSequentialReceiver_def receive_batch_def receive_elem_def demo_elem_def
    case_prod_unfold  ReceivedWithKeypair_def upd_kp_def deliver_def finish_batch_def upd_peer_def demo_session_eq demo_session_peer_def
     demo_keypair_def demo_peer_def keepKeyFreshReceiving_def demo_sent_eq NewDevice_def
     SetEndpointFromPacket_def Peer0_def timersInit_def RejectAfterTime_def KeepaliveTimeout_def RekeyTimeout_def second_def)
  done

lemma demo_reachable:
  "reachable flat_noise (NewDevice True None 0 []) demo_up"
  "reachable flat_noise (NewDevice True None 0 []) demo_session"
  "reachable flat_noise (NewDevice True None 0 []) demo_accepted"
proof -
  let ?R = "(device_step flat_noise)\<^sup>*\<^sup>* (NewDevice True None 0 [])"
  have peered: "?R demo_peered" unfolding demo_peered_def by (rule r_into_rtranclp) (rule new_peer)
  then have "?R demo_configured" unfolding demo_configured_def by (rule rtranclp.rtrancl_into_rtrancl) (rule configure)
  then have "?R (demo_configured\<lparr>dv_now := 1, dv_rand := replicate 36 1, dv_jitter := [], dv_sendq := [], dv_bindq := [BindOK 0, BindOK 7]\<rparr>)"
    by (rule rtranclp.rtrancl_into_rtrancl) (rule environment, simp add: demo_configured_def demo_peered_def new_defs)
  then have up: "?R demo_up" unfolding demo_up_def by (rule rtranclp.rtrancl_into_rtrancl) (rule change_state)
  have "0 < length (dv_peers demo_up)" by (simp add: up_defs new_defs)
  then have "?R demo_sent" unfolding demo_sent_def by (intro rtranclp.rtrancl_into_rtrancl [OF up] keepalive)
  then have "?R demo_queued" unfolding demo_queued_def by (rule rtranclp.rtrancl_into_rtrancl) (rule receive_net)
  then have session: "?R demo_session" unfolding demo_session_def by (rule rtranclp.rtrancl_into_rtrancl) (rule handshake)
  then have r: "?R (RoutineReceiveIncoming flat_noise [] [(demo_keepalive, demo_endpoint)] demo_session)"
    by (rule rtranclp.rtrancl_into_rtrancl) (rule receive_net)
  have "?R demo_accepted" unfolding demo_accepted_def
    by (rule rtranclp.rtrancl_into_rtrancl [OF r], rule receiver, simp add: demo_inbound_eq)
  with up session show "reachable flat_noise (NewDevice True None 0 []) demo_up"
    "reachable flat_noise (NewDevice True None 0 []) demo_session"
    "reachable flat_noise (NewDevice True None 0 []) demo_accepted"
    by (simp_all add: reachable_def)
qed

section \<open>An initiation to the device\<close>

definition demo_msg :: MessageInitiation where
  "demo_msg = \<lparr>mi_Type = MessageInitiationType, mi_Sender = 9, mi_Ephemeral = zeros 32, mi_Static = zeros 16 @ zeros 32,
     mi_Timestamp = zeros 16 @ replicate 12 1, mi_MAC1 = zeros 16, mi_MAC2 = zeros 16\<rparr>"

definition demo_initiation :: "byte list" where
  "demo_initiation = le_put (mi_Type demo_msg) @ le_put (mi_Sender demo_msg) @ mi_Ephemeral demo_msg @ mi_Static demo_msg @
     mi_Timestamp demo_msg @ mi_MAC1 demo_msg @ mi_MAC2 demo_msg"

lemma demo_initiation: "mi_unmarshal demo_initiation = Some demo_msg"
  unfolding demo_initiation_def by (rule mi_unmarshal_bytes) (simp add: demo_msg_def mi_sized_def)

definition demo_up_peer :: peer_obj where
  "demo_up_peer = Peer0\<lparr>pr_isRunning := True,
     pr_handshake := Handshake0\<lparr>hs_precomputedStaticStatic := 1 # zeros 31, hs_lastSentHandshake := - 5999999999\<rparr>,
     pr_endpoint := Some demo_endpoint, pr_clearSrcOnTx := True, pr_disableRoaming := True\<rparr>"

lemma demo_up_eq: "demo_up = (NewDevice True None 1 (replicate 36 1))\<lparr>dv_state := deviceStateUp, dv_peers := [demo_up_peer], dv_keyMap := [(zeros 32, 0)],
    dv_bindOpen := True, dv_port := 7\<rparr>"
  by (simp add: new_defs up_defs case_prod_unfold demo_up_peer_def)

definition demo_consumed :: Handshake where
  "demo_consumed = (pr_handshake demo_up_peer)\<lparr>hs_hash := zeros 32, hs_chainKey := zeros 32, hs_remoteIndex := 9,
     hs_remoteEphemeral := zeros 32, hs_lastTimestamp := replicate 12 1, hs_lastInitiationConsumption := Some 1,
     hs_state := handshakeInitiationConsumed\<rparr>"

lemma demo_consume: "ConsumeMessageInitiation flat_noise demo_msg demo_up = (Some 0, set_hs 0 demo_consumed demo_up)"
proof -
  have "ts_After (replicate 12 1) (zeros 12)" by (simp add: ts_After_def zeros_def numeral_eq_Suc)
  then show ?thesis
    by (simp add: ConsumeMessageInitiation_def demo_msg_def demo_up_eq demo_up_peer_def NewDevice_def LookupPeer_def peer_hs_def
      Handshake0_def initiation_replay_def initiation_flood_def since_exceeds_def demo_consumed_def)
qed

definition demo_answered :: Device where
  "demo_answered = handle_initiation flat_noise demo_initiation demo_endpoint demo_up"

lemma demo_answered_keeps:
  "dv_privateKey demo_answered = dv_privateKey demo_up" "dv_publicKey demo_answered = dv_publicKey demo_up"
  "hs_precomputedStaticStatic (peer_hs 0 demo_answered) = hs_precomputedStaticStatic (peer_hs 0 demo_up)"
  "dv_keypairs demo_answered \<noteq> []"
  unfolding demo_answered_def handle_initiation_def
  apply (simp_all add: demo_initiation demo_consume)
  apply (simp_all add: set_hs_def upd_hs_def upd_peer_def demo_up_eq NewDevice_def demo_up_peer_def Peer0_def Handshake0_def demo_consumed_def
     timersAnyAuthenticatedPacketReceived_def timersAnyAuthenticatedPacketTraversal_def upd_tm_def timersActive_def isUp_def
     SetEndpointFromPacket_def add_rx_def)
  apply (simp_all add: SendHandshakeResponse_def upd_hs_def upd_peer_def CreateMessageResponse_def peer_hs_def set_hs_def 
    NewIndexForHandshake_def new_index.simps rand_bytes_def index_Delete_def newPrivateKey_def hs_mixHash_def hs_mixKey_def)
  apply (simp_all add: stamp_packet_def AddMacs_def since_exceeds_def case_prod_unfold CookieGenerator0_def Let_def upd_peer_def)
  apply (simp_all add: BeginSymmetricSession_def peer_hs_def set_hs_def upd_hs_def upd_peer_def SwapIndexForKeypair_def rotate_keypairs_def
     upd_ks_def DeleteKeypair_def timersSessionDerived_def upd_tm_def timersActive_def timersAnyAuthenticatedPacketTraversal_def
     timersAnyAuthenticatedPacketSent_def SendBuffers_def isUp_def isClosed_def timersInit_def index_Delete_def)
  done

section \<open>A handshake with a device of the same keys\<close>

lemma demo_created: "\<exists>A. CreateMessageInitiation flat_noise 0 demo_up = (Some \<lparr>mi_Type = MessageInitiationType, mi_Sender = demo_index,
    mi_Ephemeral = zeros 32, mi_Static = zeros 16 @ zeros 32, mi_Timestamp = zeros 16 @ tai64n_Now demo_up,
    mi_MAC1 = zeros 16, mi_MAC2 = zeros 16\<rparr>, A)"
  by (simp add: CreateMessageInitiation_def demo_up_eq NewDevice_def peer_hs_def demo_up_peer_def Handshake0_def tai64n_Now_def
     NewIndexForHandshake_def new_index.simps rand_bytes_def index_Delete_def newPrivateKey_def hs_mixHash_def hs_mixKey_def demo_index_def)

lemma demo_stamp: "ts_After (stamp 0 1) (zeros 12)"
  by code_simp

lemma demo_fresh: "ts_After (tai64n_Now demo_up) (hs_lastTimestamp (peer_hs 0 demo_up))" "dv_now demo_up = 1"
  using demo_stamp by (simp_all add: demo_up_eq peer_hs_def NewDevice_def demo_up_peer_def Handshake0_def tai64n_Now_def second_def)

lemma demo_answer: "\<exists>m2 B2. CreateMessageResponse flat_noise 0 (set_hs 0 (demo_consumed\<lparr>hs_remoteIndex := i, hs_lastTimestamp := t\<rparr>) demo_up) = (Some m2, B2)"
  by (simp add: CreateMessageResponse_def set_hs_def upd_hs_def upd_peer_def demo_up_eq NewDevice_def peer_hs_def demo_consumed_def demo_up_peer_def
   Handshake0_def NewIndexForHandshake_def new_index.simps rand_bytes_def index_Delete_def newPrivateKey_def hs_mixHash_def hs_mixKey_def)

lemma demo_consume_fresh: "ConsumeMessageInitiation flat_noise \<lparr>mi_Type = MessageInitiationType, mi_Sender = demo_index,
    mi_Ephemeral = zeros 32, mi_Static = zeros 16 @ zeros 32, mi_Timestamp = zeros 16 @ tai64n_Now demo_up,
    mi_MAC1 = x, mi_MAC2 = y\<rparr> demo_up =
    (Some 0, set_hs 0 (demo_consumed\<lparr>hs_remoteIndex := demo_index, hs_lastTimestamp := tai64n_Now demo_up\<rparr>) demo_up)"
proof -
  have "ts_After (tai64n_Now demo_up) (zeros 12)" using demo_fresh by (simp add: demo_up_eq peer_hs_def demo_up_peer_def Handshake0_def)
  then show ?thesis
    by (simp add: ConsumeMessageInitiation_def demo_up_eq demo_up_peer_def NewDevice_def LookupPeer_def peer_hs_def
      Handshake0_def initiation_replay_def initiation_flood_def since_exceeds_def demo_consumed_def tai64n_Now_def)
qed

end
