(* ===== verification/Device_Props.thy ===== *)
theory Device_Props
  imports Device_Demo
begin

text \<open>
  What holds of a device whatever happens to it: the handshake agrees on a
  session, the index table does not leak, nonces are not reused, transport packets
  and initiations are accepted once, only routed packets reach the TUN interface.
\<close>

section \<open>The handshake\<close>

text \<open>
  C1. The handshake establishes one session: when two devices that know each
  other share the preshared key, the responder accepts the initiator's fresh
  message whatever its MAC fields, the initiator accepts the response to it, and
  both derive a keypair; the two keypairs mirror each other (each sends with the
  key the other receives with, and under the index the other listens on), the
  initiator's is current at once and the responder's waits as next.
\<close>

theorem noise_handshake_agrees:
  assumes E: "aead_ok E" "dh_agrees E"
    and A: "knows_peer E A pa B" and B: "knows_peer E B pb A"
    and psk: "hs_presharedKey (peer_hs pa A) = hs_presharedKey (peer_hs pb B)"
    and fresh: "\<not> initiation_replay (tai64n_Now A) (peer_hs pb B)" "\<not> initiation_flood (dv_now B) (peer_hs pb B)"
    and m1: "CreateMessageInitiation E pa A = (Some m1, A1)"
    and r: "ConsumeMessageInitiation E (m1\<lparr>mi_MAC1 := x1, mi_MAC2 := y1\<rparr>) B = (r, B1)"
    and m2: "CreateMessageResponse E pb B1 = (Some m2, B2)"
  shows "r = Some pb \<and>
    (\<exists>A2 A3 B3 ka kb. ConsumeMessageResponse E (m2\<lparr>mr_MAC1 := x2, mr_MAC2 := y2\<rparr>) A1 = (Some pa, A2) \<and>
       BeginSymmetricSession E pa A2 = (True, A3) \<and> BeginSymmetricSession E pb B2 = (True, B3) \<and>
       ks_current (pr_keypairs (dv_peers A3 ! pa)) = Some ka \<and> ks_next (pr_keypairs (dv_peers B3 ! pb)) = Some kb \<and>
       ka < length (dv_keypairs A3) \<and> kb < length (dv_keypairs B3) \<and>
       mirrored (dv_keypairs A3 ! ka) (dv_keypairs B3 ! kb) \<and> kp_isInitiator (dv_keypairs A3 ! ka))"
proof -
  have l: "pa < length (dv_peers A)" "pb < length (dv_peers B)" and pk: "dv_publicKey A = publicKey E (dv_privateKey A)"
    using A B by (simp_all add: knows_peer_def)
  from initiation_consumed [OF E A B psk fresh m1, where x = x1 and y = y1] r obtain h where
    h: "r = Some pb" "B1 = set_hs pb h B" "responds_to E h (peer_hs pa A1)" "hs_remoteStatic h = dv_publicKey A"
      "map_of (dv_indexTable A1) (hs_localIndex (peer_hs pa A1)) = Some \<lparr>ie_peer = pa, ie_target = ToHandshake\<rparr>" by auto
  note fA = hs_frame_simps [OF CreateMessageInitiation_frame [OF m1]]
    and fB = hs_frame_simps [OF CreateMessageResponse_frame [OF m2]]
  have pb1: "pb < length (dv_peers B1)" "peer_hs pb B1 = h" "pb < length (dv_peers B2)" "pa < length (dv_peers A1)"
    using l fA fB by (simp_all add: h(2))
  then obtain h' where h':
    "ConsumeMessageResponse E (m2\<lparr>mr_MAC1 := x2, mr_MAC2 := y2\<rparr>) A1 = (Some pa, set_hs pa h' A1)"
    "hs_state h' = handshakeResponseConsumed" "hs_state (peer_hs pb B2) = handshakeResponseCreated"
    "hs_chainKey h' = hs_chainKey (peer_hs pb B2)" "hs_localIndex h' = hs_remoteIndex (peer_hs pb B2)"
    "hs_remoteIndex h' = hs_localIndex (peer_hs pb B2)"
    using response_consumed [OF E pb1(1) _ _ h(5) m2, where x = x2 and y = y2] h(3,4) pk fA by auto
  with sessions_mirror [of pa "set_hs pa h' A1" pb B2 E] pb1 h(1) show ?thesis by auto
qed

theorem noise_handshake_agrees_witness:
  "\<exists>A1 B1 B2 m1 m2 A2. CreateMessageInitiation flat_noise 0 demo_up = (Some m1, A1) \<and>
     ConsumeMessageInitiation flat_noise m1 demo_up = (Some 0, B1) \<and> CreateMessageResponse flat_noise 0 B1 = (Some m2, B2) \<and>
     ConsumeMessageResponse flat_noise m2 A1 = (Some 0, A2) \<and> fst (BeginSymmetricSession flat_noise 0 A2)"
proof -
  let ?m1 = "\<lparr>mi_Type = MessageInitiationType, mi_Sender = demo_index,
    mi_Ephemeral = zeros 32, mi_Static = zeros 16 @ zeros 32, mi_Timestamp = zeros 16 @ tai64n_Now demo_up,
    mi_MAC1 = zeros 16, mi_MAC2 = zeros 16\<rparr>"
  obtain A1 where m1: "CreateMessageInitiation flat_noise 0 demo_up = (Some ?m1, A1)" using demo_created by blast
  obtain B1 where B1: "ConsumeMessageInitiation flat_noise ?m1 demo_up = (Some 0, B1)"
    "B1 = set_hs 0 (demo_consumed\<lparr>hs_remoteIndex := demo_index, hs_lastTimestamp := tai64n_Now demo_up\<rparr>) demo_up"
    using demo_consume_fresh by blast
  obtain m2 B2 where m2: "CreateMessageResponse flat_noise 0 B1 = (Some m2, B2)" using demo_answer B1(2) by metis
  have knows: "knows_peer flat_noise demo_up 0 demo_up"
    by (simp add: knows_peer_def demo_up_eq NewDevice_def demo_up_peer_def peer_hs_def Handshake0_def LookupPeer_def) (simp add: flat_noise_def)
  have "\<not> initiation_replay (tai64n_Now demo_up) (peer_hs 0 demo_up)" "\<not> initiation_flood (dv_now demo_up) (peer_hs 0 demo_up)"
    using demo_fresh by (simp_all add: initiation_replay_def initiation_flood_def since_exceeds_def demo_up_eq peer_hs_def demo_up_peer_def Handshake0_def)
  note noise_handshake_agrees [where ?x1.0 = "zeros 16" and ?y1.0 = "zeros 16" and ?x2.0 = "mr_MAC1 m2" and ?y2.0 = "mr_MAC2 m2",
    OF flat_noise_ok(2,3) knows knows refl this m1, simplified, OF B1(1) m2]
  moreover have "m2\<lparr>mr_MAC1 := mr_MAC1 m2, mr_MAC2 := mr_MAC2 m2\<rparr> = m2" by simp
  ultimately show ?thesis using m1 B1(1) m2 by auto
qed

section \<open>The index table\<close>

lemma slots_card: "card (slots ks) \<le> 3" "finite (slots ks)"
proof -
  have o: "finite (set_option x)" "card (set_option x) \<le> 1" for x :: "nat option" by (cases x; simp)+
  have "card (slots ks) \<le> card (set_option (ks_current ks) \<union> set_option (ks_previous ks)) + card (set_option (ks_next ks))"
    unfolding slots_def by (rule card_Un_le)
  also have "\<dots> \<le> card (set_option (ks_current ks)) + card (set_option (ks_previous ks)) + card (set_option (ks_next ks))"
    using card_Un_le by simp
  finally show "card (slots ks) \<le> 3" using o(2) [of "ks_current ks"] o(2) [of "ks_previous ks"] o(2) [of "ks_next ks"] by linarith
  show "finite (slots ks)" by (simp add: slots_def o)
qed

lemma index_table_size:
  assumes ok: "dev_ok d"
  shows "length (dv_indexTable d) \<le> 4 * length (dv_peers d)"
proof -
  let ?T = "set (dv_indexTable d)"
  let ?f = "\<lambda>(i :: 32 word, e). (ie_peer e, ie_target e)"
  let ?P = "\<lambda>p. insert ToHandshake (ToKeypair ` slots (pr_keypairs (dv_peers d ! p)))"
  have inj: "inj_on ?f ?T"
  proof (rule inj_onI, clarify)
    fix i e j e' assume m: "(i, e) \<in> ?T" "(j, e') \<in> ?T" and q: "ie_peer e = ie_peer e'" "ie_target e = ie_target e'"
    have "i = j"
      using dev_okD(3,4) [OF ok m(1)] dev_okD(3,4) [OF ok m(2)] q by (cases "ie_target e'") auto
    then show "i = j \<and> e = e'" using m dev_okD(1) [OF ok] by (metis eq_key_imp_eq_value)
  qed
  have P: "card (?P p) \<le> 4" "finite (?P p)" for p
  proof -
    have "card (?P p) \<le> Suc (card (ToKeypair ` slots (pr_keypairs (dv_peers d ! p))))"
      by (rule card_insert_le_m1) (auto simp: slots_card)
    also have "card (ToKeypair ` slots (pr_keypairs (dv_peers d ! p))) \<le> 3"
      using card_image_le [OF slots_card(2)] slots_card(1) le_trans by blast
    finally show "card (?P p) \<le> 4" by simp
    show "finite (?P p)" by (simp add: slots_card)
  qed
  have sub: "?f ` ?T \<subseteq> (SIGMA p:{..<length (dv_peers d)}. ?P p)"
    using dev_okD(2,4) [OF ok] by (force split: index_target.splits simp: image_iff intro: index_target.exhaust)
  have "length (dv_indexTable d) = card ?T"
    using dev_okD(1) [OF ok] distinct_card [of "dv_indexTable d"] by (simp add: distinct_map)
  also have "\<dots> = card (?f ` ?T)" using card_image [OF inj] by simp
  also have "\<dots> \<le> card (SIGMA p:{..<length (dv_peers d)}. ?P p)"
    using sub P(2) by (intro card_mono) (auto intro: finite_SigmaI)
  also have "\<dots> = (\<Sum>p<length (dv_peers d). card (?P p))" using P(2) by (intro card_SigmaI) auto
  also have "\<dots> \<le> (\<Sum>p<length (dv_peers d). 4)" using P(1) by (intro sum_mono)
  finally show ?thesis by (simp add: mult.commute)
qed

text \<open>
  C7. The index table of a running device never leaks: in every state that any
  sequence of operations reaches, its indices are distinct, an entry points to
  the handshake that holds its index or to a keypair with that index which is in
  a slot (current, previous or next) of the entry's peer, and there are at most
  four entries for each peer ever created.
\<close>

theorem index_table_no_leak:
  assumes "reachable E (NewDevice isTCPBind mtu now tape) d"
  shows "distinct (map fst (dv_indexTable d)) \<and> length (dv_indexTable d) \<le> 4 * length (dv_peers d) \<and>
    (\<forall>(i, e) \<in> set (dv_indexTable d). ie_peer e < length (dv_peers d) \<and>
       (case ie_target e of
          ToHandshake \<Rightarrow> hs_localIndex (peer_hs (ie_peer e) d) = i
        | ToKeypair k \<Rightarrow> k \<in> slots (pr_keypairs (dv_peers d ! ie_peer e)) \<and> k < length (dv_keypairs d) \<and>
            kp_localIndex (dv_keypairs d ! k) = i))"
  using reachable_ok(1) [OF assms] index_table_size dev_okD(1-4) by (auto split: index_target.split)

theorem index_table_no_leak_witness:
  "reachable flat_noise (NewDevice True None 0 []) demo_session \<and> length (dv_indexTable demo_session) = 1 \<and>
   distinct (map fst (dv_indexTable demo_session)) \<and> length (dv_indexTable demo_session) \<le> 4 * length (dv_peers demo_session)"
  using index_table_no_leak [OF demo_reachable(2)] demo_reachable(2) by (simp add: demo_session_eq)

text \<open>
  C2. A nonce is never used twice with the same keypair: in every state that
  any sequence of operations reaches, the pairs of a keypair and a counter under
  which packets were sealed are distinct, and the counters are below
  RejectAfterMessages.
\<close>

theorem nonces_never_reused:
  assumes "reachable E (NewDevice isTCPBind mtu now tape) d"
  shows "distinct (dv_sealed d) \<and>
    (\<forall>(k, n) \<in> set (dv_sealed d). k < length (dv_keypairs d) \<and> n < kp_sendNonce (dv_keypairs d ! k) \<and> n < RejectAfterMessages)"
proof -
  note ok = reachable_ok(2) [OF assms]
  have s: "co_sealed (core_of d) = dv_sealed d" by (simp add: core_of_def)
  have "n < RejectAfterMessages" if "(k, n) \<in> set (dv_sealed d)" for k n
    using core_okD(3) [OF ok, of k n] core_okD(1) [OF ok, of "dv_keypairs d ! k"] that by (auto simp: s)
  then show ?thesis using core_okD(2,3) [OF ok] by (auto simp: s)
qed

theorem nonces_never_reused_witness:
  "reachable flat_noise (NewDevice True None 0 []) demo_session \<and> dv_sealed demo_session = [(0, 0)] \<and>
   0 < kp_sendNonce (dv_keypairs demo_session ! 0)"
  using nonces_never_reused [OF demo_reachable(2)] demo_reachable(2) by (simp add: demo_session_eq)

text \<open>
  C3. No transport packet is accepted twice: in every state that any sequence of
  operations reaches, the pairs of a keypair and a counter for which a packet
  passed decryption and the replay filter are distinct.
\<close>

theorem packets_accepted_once:
  assumes "reachable E (NewDevice isTCPBind mtu now tape) d"
  shows "distinct (dv_accepted d) \<and> (\<forall>(k, n) \<in> set (dv_accepted d). k < length (dv_keypairs d))"
  using core_okD(4,5) [OF reachable_ok(2) [OF assms]] by (auto simp: core_of_def)

theorem packets_accepted_once_witness:
  "reachable flat_noise (NewDevice True None 0 []) demo_accepted \<and> dv_accepted demo_accepted = [(0, 0)] \<and>
   dv_keypairs demo_accepted \<noteq> []"
  using packets_accepted_once [OF demo_reachable(3)] demo_reachable(3) by (auto simp: demo_accepted_eq)

section \<open>Replayed initiations\<close>

text \<open>The time stamp an initiation carries for a device with these keys, if it decrypts.\<close>

definition initiation_timestamp :: "noise_env \<Rightarrow> MessageInitiation \<Rightarrow> byte list \<Rightarrow> byte list \<Rightarrow> byte list \<Rightarrow> byte list option" where
  "initiation_timestamp E msg sk pk ss =
     (let hash = mixHash E (mixHash E (InitialHash E) pk) (mi_Ephemeral msg) in
      case sharedSecret E sk (mi_Ephemeral msg) of
        None \<Rightarrow> None
      | Some es \<Rightarrow>
          aead_Open E (snd (KDF2 E (fst (KDF2 E (mixKey E (InitialChainKey E) (mi_Ephemeral msg)) es)) ss)) ZeroNonce
            (mi_Timestamp msg) (mixHash E hash (mi_Static msg)))"

lemma ConsumeMessageInitiation_stamp:
  assumes "ConsumeMessageInitiation E msg d = (Some p, d')"
  shows "\<exists>ts. initiation_timestamp E msg (dv_privateKey d) (dv_publicKey d) (hs_precomputedStaticStatic (peer_hs p d)) = Some ts \<and>
    ts_After ts (hs_lastTimestamp (peer_hs p d)) \<and> (p < length (dv_peers d) \<longrightarrow> hs_lastTimestamp (peer_hs p d') = ts)"
  using assms
  by (auto simp: ConsumeMessageInitiation_def initiation_timestamp_def initiation_replay_def Let_def case_prod_unfold
      split: option.splits if_splits)

lemma core_step_stamps:
  "core_step c c' \<Longrightarrow> p < length (co_stamps c) \<Longrightarrow>
     p < length (co_stamps c') \<and> (co_stamps c' ! p = co_stamps c ! p \<or> ts_After (co_stamps c' ! p) (co_stamps c ! p))"
  by (induction rule: core_step.induct) (auto simp: nth_list_update nth_append)

lemma core_steps_stamps:
  "core_step\<^sup>*\<^sup>* c c' \<Longrightarrow> p < length (co_stamps c) \<Longrightarrow>
     p < length (co_stamps c') \<and> (co_stamps c' ! p = co_stamps c ! p \<or> ts_After (co_stamps c' ! p) (co_stamps c ! p))"
proof (induction rule: rtranclp_induct)
  case (step c1 c2)
  then show ?case using core_step_stamps [OF step(2), of p] bytes_after_trans by (auto simp: ts_After_def)
qed simp

lemma safe_stamps:
  assumes "safe d d'" and "dev_ok d" and "core_ok (core_of d)" and p: "p < length (dv_peers d)"
  shows "hs_lastTimestamp (peer_hs p d') = hs_lastTimestamp (peer_hs p d) \<or>
    ts_After (hs_lastTimestamp (peer_hs p d')) (hs_lastTimestamp (peer_hs p d))"
  using core_steps_stamps [of "core_of d" "core_of d'" p] assms by (auto simp: safe_def core_of_def peer_hs_def)

lemma safe_handled:
  assumes "mi_unmarshal packet = Some msg" and "ConsumeMessageInitiation E msg d = (Some p, d1)" and p: "p < length (dv_peers d1)"
  shows "safe d1 (handle_initiation E packet endpoint d)"
proof -
  let ?d2 = "add_rx p (length packet) (SetEndpointFromPacket endpoint p
      (timersAnyAuthenticatedPacketReceived p (timersAnyAuthenticatedPacketTraversal p d1)))"
  have f: "core_of ?d2 = core_of d1" "shape_of ?d2 = shape_of d1" by simp_all
  have "p < length (dv_peers ?d2)" using p by (simp only: peers_len f)
  then have "safe d1 (SendHandshakeResponse E p ?d2)"
    by (rule safe_trans [OF safe_frame [OF f] safe_SendHandshakeResponse])
  then show ?thesis by (simp add: handle_initiation_def Let_def assms)
qed

text \<open>
  C8. A handshake initiation is accepted at most once: after a device has accepted
  an initiation from a peer and answered it, the same message is not accepted
  from that peer again in any state the device reaches, as long as the device
  keeps its key pair (the peer's precomputed secret included).  Time stamps of
  a peer only grow.
\<close>

theorem initiation_accepted_once:
  assumes "reachable E (NewDevice isTCPBind mtu now tape) d"
    and "mi_unmarshal packet = Some msg" and "ConsumeMessageInitiation E msg d = (Some p, d1)"
    and "reachable E (handle_initiation E packet endpoint d) d2"
    and "dv_privateKey d2 = dv_privateKey d" and "dv_publicKey d2 = dv_publicKey d"
    and "hs_precomputedStaticStatic (peer_hs p d2) = hs_precomputedStaticStatic (peer_hs p d)"
  shows "fst (ConsumeMessageInitiation E msg d2) \<noteq> Some p"
proof
  assume again: "fst (ConsumeMessageInitiation E msg d2) = Some p"
  note ok = reachable_ok [OF assms(1)]
  have p: "p < length (dv_peers d)"
    using ConsumeMessageInitiation_set(1) [OF assms(3)] dev_okD(7) [OF ok(1)] map_of_SomeD by metis
  obtain ts where ts: "initiation_timestamp E msg (dv_privateKey d) (dv_publicKey d) (hs_precomputedStaticStatic (peer_hs p d)) = Some ts"
    "hs_lastTimestamp (peer_hs p d1) = ts"
    using ConsumeMessageInitiation_stamp [OF assms(3)] p by auto
  have "safe d d1" using safe_ConsumeMessageInitiation [of d E msg] assms(3) by simp
  then have ok1: "dev_ok d1" "core_ok (core_of d1)" "p < length (dv_peers d1)"
    using ok p core_steps_ok by (auto simp: safe_def)
  have "safe d1 d2"
    using safe_handled [OF assms(2,3) ok1(3)] reachable_safe [OF assms(4)] by (rule safe_trans)
  from safe_stamps [OF this ok1] have late: "\<not> ts_After ts (hs_lastTimestamp (peer_hs p d2))"
    using ts(2) bytes_after_irrefl bytes_after_trans unfolding ts_After_def by metis
  obtain d3 where "ConsumeMessageInitiation E msg d2 = (Some p, d3)" using again by (metis prod.collapse)
  from ConsumeMessageInitiation_stamp [OF this] ts(1) late show False by (simp add: assms(5-7))
qed

theorem initiation_accepted_once_witness:
  "reachable flat_noise (NewDevice True None 0 []) demo_up \<and> mi_unmarshal demo_initiation = Some demo_msg \<and>
   fst (ConsumeMessageInitiation flat_noise demo_msg demo_up) = Some 0 \<and>
   fst (ConsumeMessageInitiation flat_noise demo_msg (handle_initiation flat_noise demo_initiation demo_endpoint demo_up)) \<noteq> Some 0"
proof -
  have "reachable flat_noise (handle_initiation flat_noise demo_initiation demo_endpoint demo_up) demo_answered"
    by (simp add: reachable_def demo_answered_def)
  from initiation_accepted_once [OF demo_reachable(1) demo_initiation demo_consume this demo_answered_keeps(1-3)]
  show ?thesis by (simp add: demo_reachable(1) demo_initiation demo_consume demo_answered_def)
qed

end
