(* ===== verification/Device_Flow.thy ===== *)
theory Device_Flow
  imports Device_Props
begin

text \<open>
  The packets that flow through a device: what the sequential receiver writes to the
  TUN interface, that a packet sealed by one device comes out of the other
  unchanged, and that sending the staged packets ends with none left that could be
  sent.
\<close>

section \<open>What the device writes to its TUN interface\<close>

definition tun_view :: "Device \<Rightarrow> (nat \<times> byte list) list \<times> AllowedIPs \<times> (byte list \<Rightarrow> byte list \<Rightarrow> bool) option" where
  "tun_view d = (dv_tunOut d, dv_allowedips d, dv_inboundFilter d)"

lemma tun_view_fields [simp]:
  "tun_view (d\<lparr>dv_rand := a\<rparr>) = tun_view d" "tun_view (d\<lparr>dv_jitter := b\<rparr>) = tun_view d" "tun_view (d\<lparr>dv_indexTable := c\<rparr>) = tun_view d"
  "tun_view (d\<lparr>dv_sendq := e\<rparr>) = tun_view d" "tun_view (d\<lparr>dv_net := f\<rparr>) = tun_view d" "tun_view (d\<lparr>dv_peers := g\<rparr>) = tun_view d"
  "tun_view (d\<lparr>dv_keypairs := h\<rparr>) = tun_view d" "tun_view (d\<lparr>dv_handshakeq := i\<rparr>) = tun_view d" "tun_view (d\<lparr>dv_sealed := j\<rparr>) = tun_view d"
  "tun_view (d\<lparr>dv_natClients := k\<rparr>) = tun_view d" "tun_view (d\<lparr>dv_accepted := l\<rparr>) = tun_view d"
  by (simp_all add: tun_view_def)

lemma tun_view_upd [simp]:
  "tun_view (upd_peer p f d) = tun_view d" "tun_view (upd_kp k g d) = tun_view d" "tun_view (upd_tm p t d) = tun_view d"
  "tun_view (upd_ks p s d) = tun_view d" "tun_view (upd_hs p h d) = tun_view d" "tun_view (set_hs p h' d) = tun_view d"
  by (simp_all add: upd_peer_def upd_kp_def upd_tm_def upd_ks_def upd_hs_def set_hs_def)

lemma tun_view_index [simp]:
  "tun_view (index_Delete i d) = tun_view d" "tun_view (SwapIndexForKeypair i k d) = tun_view d" "tun_view (DeleteKeypair key d) = tun_view d"
  "tun_view (snd (NewIndexForHandshake p d)) = tun_view d" "tun_view (snd (newPrivateKey d)) = tun_view d"
  by (simp_all add: index_Delete_def SwapIndexForKeypair_def DeleteKeypair_def NewIndexForHandshake_def newPrivateKey_def
      split: option.split prod.split)

lemma tun_view_timers [simp]:
  "tun_view (timersDataReceived p d) = tun_view d"
  "tun_view (timersAnyAuthenticatedPacketSent p d) = tun_view d" "tun_view (timersAnyAuthenticatedPacketReceived p d) = tun_view d"
  "tun_view (timersHandshakeInitiated p d) = tun_view d" "tun_view (timersHandshakeComplete p d) = tun_view d"
  "tun_view (timersAnyAuthenticatedPacketTraversal p d) = tun_view d"
  by (simp_all add: timers_defs split: list.split)

lemma tun_view_endpoint [simp]:
  "tun_view (clearEndpoint p d) = tun_view d" "tun_view (SetEndpointFromPacket e p d) = tun_view d" "tun_view (StagePackets p x d) = tun_view d"
  "tun_view (snd (stamp_packet E p b d)) = tun_view d"
  by (simp_all add: endpoint_defs)

lemma tun_view_SendBuffers [simp]: "tun_view (snd (SendBuffers p bufs d)) = tun_view d"
  by (simp add: SendBuffers_def Let_def split: option.split send_result.split)

lemma tun_view_Create [simp]: "tun_view (snd (CreateMessageInitiation E p d)) = tun_view d"
  by (simp add: CreateMessageInitiation_def Let_def case_prod_unfold split: option.split)

lemma tun_view_SendHandshakeInitiation [simp]: "tun_view (SendHandshakeInitiation E b p d) = tun_view d"
  by (simp add: SendHandshakeInitiation_def Let_def case_prod_unfold split: option.split)

lemma tun_view_assign [simp]: "tun_view (snd (assign_nonces k xs d)) = tun_view d"
  by (induction k xs d rule: assign_nonces.induct) (simp_all add: Let_def case_prod_unfold)

lemma tun_view_queue [simp]: "tun_view (queue_outbound E p k xs d) = tun_view d"
  by (simp add: queue_outbound_def)

lemma tun_view_send_staged [simp]: "tun_view (send_staged E p at d) = tun_view d"
proof (induction E p at d rule: send_staged.induct)
  case (1 E p d)
  then show ?case by (subst send_staged.simps) (auto split: option.split)
next
  case (2 E p k d)
  show ?case
  proof (cases "if p < length (dv_peers d) then pr_staged (dv_peers d ! p) else []")
    case Nil
    then show ?thesis by (subst send_staged.simps) simp
  next
    case (Cons elems rest)
    note IH = 2(1) [OF Cons refl refl refl refl refl refl] 2(2,3) [OF Cons refl refl refl refl refl refl _ refl]
    show ?thesis using IH by (subst send_staged.simps) (simp add: Cons Let_def)
  qed
qed

lemma tun_view_receive [simp]:
  "tun_view (SendStagedPackets E p d) = tun_view d" "tun_view (snd (ReceivedWithKeypair p k d)) = tun_view d"
  "tun_view (keepKeyFreshReceiving E p d) = tun_view d"
  by (simp_all add: SendStagedPackets_def ReceivedWithKeypair_def keepKeyFreshReceiving_def Let_def split: option.split)

text \<open>The packets of a batch that a routing table and a filter let through for a peer.\<close>

definition routed :: "nat \<Rightarrow> AllowedIPs \<Rightarrow> inbound_elem list \<Rightarrow> byte list \<Rightarrow> bool" where
  "routed p table elems b \<longleftrightarrow>
     (\<exists>elem \<in> set elems. \<exists>packet. in_packet elem = Some packet \<and> check_inbound p packet table = Some b)"

lemma deliver_view:
  assumes "in_packet elem = Some packet"
  shows "tun_view (snd (deliver p elem packet acc d)) = tun_view d"
    and "\<exists>bs. ra_bufs (fst (deliver p elem packet acc d)) = ra_bufs acc @ bs \<and> (\<forall>b \<in> set bs. routed p (dv_allowedips d) [elem] b)"
  using assms by (auto simp: deliver_def Let_def routed_def split: option.split)

lemma tun_view_allowedips: "tun_view d' = tun_view d \<Longrightarrow> dv_allowedips d' = dv_allowedips d"
  by (simp add: tun_view_def)

lemma receive_elem_cases:
  obtains d' where "receive_elem E p elem (acc, d) = (acc, d')" "tun_view d' = tun_view d"
  | packet d' where "in_packet elem = Some packet" "tun_view d' = tun_view d"
      "receive_elem E p elem (acc, d) = deliver p elem packet (acc\<lparr>ra_tail := Some (in_endpoint elem)\<rparr>) d'"
proof (cases "in_packet elem")
  case None
  then show ?thesis using that(1) [of d] by (simp add: receive_elem_def)
next
  case (Some packet)
  define k where "k = in_keypair elem"
  define v where "v = ValidateCounter (in_counter elem) RejectAfterMessages (kp_replayFilter (dv_keypairs d ! k))"
  define d1 where "d1 = upd_kp k (\<lambda>kp. kp\<lparr>kp_replayFilter := snd v\<rparr>) d"
  define d2 where "d2 = d1\<lparr>dv_accepted := dv_accepted d1 @ [(k, in_counter elem)]\<rparr>"
  define r where "r = ReceivedWithKeypair p k d2"
  define d3 where "d3 = (if fst r then SendStagedPackets E p (timersHandshakeComplete p (SetEndpointFromPacket (in_endpoint elem) p (snd r))) else snd r)"
  have e: "receive_elem E p elem (acc, d) = (if \<not> fst v then (acc, d1) else deliver p elem packet (acc\<lparr>ra_tail := Some (in_endpoint elem)\<rparr>) d3)"
    by (simp add: receive_elem_def Some Let_def case_prod_unfold d3_def r_def d2_def d1_def v_def k_def)
  have "tun_view d1 = tun_view d" by (simp add: d1_def)
  moreover from this have "tun_view d3 = tun_view d" by (simp add: d3_def r_def d2_def)
  ultimately show ?thesis using that e Some by (cases "fst v") auto
qed

lemma receive_elem_valid:
  assumes "in_packet elem = Some packet"
    and "fst (ValidateCounter (in_counter elem) RejectAfterMessages (kp_replayFilter (dv_keypairs d ! in_keypair elem)))"
  obtains d' where "tun_view d' = tun_view d"
      "receive_elem E p elem (acc, d) = deliver p elem packet (acc\<lparr>ra_tail := Some (in_endpoint elem)\<rparr>) d'"
proof -
  define k where "k = in_keypair elem"
  define v where "v = ValidateCounter (in_counter elem) RejectAfterMessages (kp_replayFilter (dv_keypairs d ! k))"
  define d1 where "d1 = upd_kp k (\<lambda>kp. kp\<lparr>kp_replayFilter := snd v\<rparr>) d"
  define d2 where "d2 = d1\<lparr>dv_accepted := dv_accepted d1 @ [(k, in_counter elem)]\<rparr>"
  define r where "r = ReceivedWithKeypair p k d2"
  define d3 where "d3 = (if fst r then SendStagedPackets E p (timersHandshakeComplete p (SetEndpointFromPacket (in_endpoint elem) p (snd r))) else snd r)"
  have "tun_view d3 = tun_view d" by (simp add: d3_def r_def d2_def d1_def)
  moreover have "receive_elem E p elem (acc, d) = deliver p elem packet (acc\<lparr>ra_tail := Some (in_endpoint elem)\<rparr>) d3"
    using assms(2) by (simp add: receive_elem_def assms(1) Let_def case_prod_unfold d3_def r_def d2_def d1_def v_def k_def)
  ultimately show ?thesis by (rule that)
qed

lemma receive_elem_view:
  "tun_view (snd (receive_elem E p elem (acc, d))) = tun_view d \<and>
   (\<exists>bs. ra_bufs (fst (receive_elem E p elem (acc, d))) = ra_bufs acc @ bs \<and> (\<forall>b \<in> set bs. routed p (dv_allowedips d) [elem] b))"
proof (cases E p elem acc d rule: receive_elem_cases)
  case (1 d')
  then show ?thesis by simp
next
  case (2 packet d')
  from deliver_view(2) [OF 2(1), of p "acc\<lparr>ra_tail := Some (in_endpoint elem)\<rparr>" d'] deliver_view(1) [OF 2(1), of p _ d']
  show ?thesis by (simp add: 2(2,3) tun_view_allowedips [OF 2(2)])
qed

lemma routed_mono: "routed p table es b \<Longrightarrow> set es \<subseteq> set es' \<Longrightarrow> routed p table es' b"
  by (auto simp: routed_def)

lemma receive_elems_view:
  "tun_view (snd (fold (receive_elem E p) elems (acc, d))) = tun_view d \<and>
   (\<exists>bs. ra_bufs (fst (fold (receive_elem E p) elems (acc, d))) = ra_bufs acc @ bs \<and> (\<forall>b \<in> set bs. routed p (dv_allowedips d) elems b))"
proof (induction elems arbitrary: acc d)
  case (Cons elem elems)
  obtain acc1 d1 where r: "receive_elem E p elem (acc, d) = (acc1, d1)" by fastforce
  from receive_elem_view [of E p elem acc d] r obtain bs1 where
    1: "tun_view d1 = tun_view d" "ra_bufs acc1 = ra_bufs acc @ bs1" "\<forall>b \<in> set bs1. routed p (dv_allowedips d) [elem] b" by auto
  from Cons.IH [of acc1 d1] obtain bs2 where
    2: "tun_view (snd (fold (receive_elem E p) elems (acc1, d1))) = tun_view d1"
      "ra_bufs (fst (fold (receive_elem E p) elems (acc1, d1))) = ra_bufs acc1 @ bs2"
      "\<forall>b \<in> set bs2. routed p (dv_allowedips d) elems b" by (auto simp: tun_view_allowedips [OF 1(1)])
  have "\<forall>b \<in> set (bs1 @ bs2). routed p (dv_allowedips d) (elem # elems) b"
    using 1(3) 2(3) by (auto intro: routed_mono)
  with 1(1,2) 2(1,2) show ?case by (simp add: r)
qed simp

lemma finish_batch_view: "dv_tunOut (finish_batch E p acc d) = dv_tunOut d @ map (Pair p) (ra_bufs acc)"
proof -
  define d1 where "d1 = upd_peer p (\<lambda>r. r\<lparr>pr_rxBytes := pr_rxBytes r + ra_rx acc\<rparr>) d"
  define d2 where "d2 = (case ra_tail acc of None \<Rightarrow> d1
      | Some endpoint \<Rightarrow> timersAnyAuthenticatedPacketReceived p (timersAnyAuthenticatedPacketTraversal p
          (keepKeyFreshReceiving E p (SetEndpointFromPacket endpoint p d1))))"
  define d3 where "d3 = (if ra_data acc then timersDataReceived p d2 else d2)"
  have "tun_view d3 = tun_view d" by (simp add: d3_def d2_def d1_def split: option.split)
  moreover have "finish_batch E p acc d = d3\<lparr>dv_tunOut := dv_tunOut d3 @ map (\<lambda>b. (p, b)) (ra_bufs acc)\<rparr>"
    by (simp only: finish_batch_def Let_def d3_def d2_def d1_def)
  ultimately show ?thesis by (simp add: tun_view_def)
qed

text \<open>
  C9. Cryptokey routing of what is received: one step of the sequential receiver of
  a peer appends to the packets written to the TUN interface only packets of the
  batch that decrypted, whose IPv4 or IPv6 source address the routing table of
  that moment maps to this very peer.
\<close>

theorem tun_writes_routed:
  "\<exists>bs. dv_tunOut (RoutineSequentialReceiver E p d) = dv_tunOut d @ map (Pair p) bs \<and>
     list_all (\<lambda>b. \<exists>elem packet. elem \<in> set (concat (pr_inbound (dv_peers d ! p))) \<and> in_packet elem = Some packet \<and>
       take (length b) packet = b \<and>
       (ip_version packet = 4 \<and> Lookup (slice IPv4offsetSrc 4 packet) (dv_allowedips d) = Some (Some p) \<or>
        ip_version packet = 6 \<and> Lookup (slice IPv6offsetSrc 16 packet) (dv_allowedips d) = Some (Some p))) bs"
proof (cases "pr_inbound (dv_peers d ! p)")
  case Nil
  then show ?thesis by (intro exI [of _ "[]"]) (simp add: RoutineSequentialReceiver_def)
next
  case (Cons elems rest)
  let ?a = "\<lparr>ra_bufs = [], ra_tail = None, ra_data = False, ra_rx = 0\<rparr>"
  let ?d = "upd_peer p (\<lambda>r. r\<lparr>pr_inbound := rest\<rparr>) d"
  obtain acc1 d1 where r: "fold (receive_elem E p) elems (?a, ?d) = (acc1, d1)" by fastforce
  have al: "dv_allowedips ?d = dv_allowedips d" "tun_view ?d = tun_view d" by (simp_all add: upd_peer_def)
  from receive_elems_view [of E p elems ?a ?d] have
    bs: "tun_view d1 = tun_view d" "\<And>b. b \<in> set (ra_bufs acc1) \<Longrightarrow> routed p (dv_allowedips d) elems b"
    by (auto simp: r al)
  have "check_inbound p packet table = Some b \<Longrightarrow> take (length b) packet = b \<and>
       (ip_version packet = 4 \<and> Lookup (slice IPv4offsetSrc 4 packet) table = Some (Some p) \<or>
        ip_version packet = 6 \<and> Lookup (slice IPv6offsetSrc 16 packet) table = Some (Some p))" for packet b table
    by (auto simp: check_inbound_def Let_def split: if_splits)
  with bs(2) have "list_all (\<lambda>b. \<exists>elem packet. elem \<in> set (concat (pr_inbound (dv_peers d ! p))) \<and> in_packet elem = Some packet \<and>
       take (length b) packet = b \<and>
       (ip_version packet = 4 \<and> Lookup (slice IPv4offsetSrc 4 packet) (dv_allowedips d) = Some (Some p) \<or>
        ip_version packet = 6 \<and> Lookup (slice IPv6offsetSrc 16 packet) (dv_allowedips d) = Some (Some p))) (ra_bufs acc1)"
    unfolding list_all_iff routed_def by (simp add: Cons) blast
  moreover have "dv_tunOut (RoutineSequentialReceiver E p d) = dv_tunOut d @ map (Pair p) (ra_bufs acc1)"
    using bs(1) by (simp add: RoutineSequentialReceiver_def Cons receive_batch_def r finish_batch_view tun_view_def)
  ultimately show ?thesis by blast
qed

section \<open>From one device to the other\<close>

lemma encrypt_packet_fields:
  assumes "aead_ok E"
  shows "MessageTransportSize \<le> length (encrypt_packet E mtu a n packet)"
    "le_get (slice 0 4 (encrypt_packet E mtu a n packet)) = MessageTransportType"
    "le_get (slice 4 4 (encrypt_packet E mtu a n packet)) = kp_remoteIndex a"
    "le_get (slice 8 8 (encrypt_packet E mtu a n packet)) = n"
    "\<exists>m. aead_Open E (kp_send a) (transport_nonce n) (drop 16 (encrypt_packet E mtu a n packet)) [] = Some (packet @ zeros m)"
  using assms
  by (auto simp: encrypt_packet_def Let_def slice_def aead_ok_def MessageTransportSize_def MessageTransportHeaderSize_def)

lemma visit_one: "remdups (filter (\<lambda>q. q = p) order @ [p]) = [p]"
  by (induction order) auto

lemma received_datagram:
  assumes "MessageTransportSize \<le> length m" "le_get (slice 0 4 m) = MessageTransportType" "lookup_transport m d = Some (p, k)"
    "pr_isRunning (dv_peers d ! p)"
  shows "RoutineReceiveIncoming E order [(m, endpoint)] d =
    upd_peer p (\<lambda>r. r\<lparr>pr_inbound := pr_inbound r @ [[decrypt_elem E d k endpoint m]]\<rparr>) d"
  using assms
  by (simp add: RoutineReceiveIncoming_def visit_order_def visit_one MinMessageSize_def MessageKeepaliveSize_def not_le [symmetric])

lemma check_inbound_padded:
  assumes "ip_version packet = 4" "ipv4_HeaderLen \<le> length packet" "unat (be_uint16 (slice IPv4offsetTotalLength 2 packet)) = length packet"
    "Lookup (slice IPv4offsetSrc 4 packet) table = Some (Some p)"
  shows "check_inbound p (packet @ zeros m) table = Some packet"
proof -
  have "ip_version (packet @ zeros m) = 4" using assms(1,2) by (auto simp: ip_version_def nth_append ipv4_HeaderLen_def)
  then show ?thesis using assms
    by (simp add: check_inbound_def slice_def IPv4offsetTotalLength_def IPv4offsetSrc_def ipv4_HeaderLen_def Let_def)
qed

text \<open>
  C6. The tunnel delivers what was put in: an IPv4 packet that one end of a session
  encrypts is, after the other end received the datagram and its sequential
  receiver ran, written to the TUN interface there byte for byte, without its
  padding, provided that the session is in the index table and not expired, the
  counter is new, the peer is running and owns the source address.
\<close>

theorem tunnel_delivers:
  assumes E: "aead_ok E" and keys: "kp_send a = kp_receive b" "kp_remoteIndex a = kp_localIndex b"
    and b: "dv_keypairs d ! k = b" "index_Lookup (kp_localIndex b) d = Some \<lparr>ie_peer = p, ie_target = ToKeypair k\<rparr>"
    and live: "dv_now d \<le> kp_created b + RejectAfterTime" "fst (ValidateCounter n RejectAfterMessages (kp_replayFilter b))"
    and peer: "p < length (dv_peers d)" "pr_isRunning (dv_peers d ! p)" "pr_inbound (dv_peers d ! p) = []"
    and ip: "ip_version packet = 4" "ipv4_HeaderLen \<le> length packet"
      "unat (be_uint16 (slice IPv4offsetTotalLength 2 packet)) = length packet"
      "Lookup (slice IPv4offsetSrc 4 packet) (dv_allowedips d) = Some (Some p)"
    and filt: "dv_inboundFilter d = None"
  shows "dv_tunOut (RoutineSequentialReceiver E p
      (RoutineReceiveIncoming E order [(encrypt_packet E mtu a n packet, endpoint)] d)) = dv_tunOut d @ [(p, packet)]"
proof -
  let ?m = "encrypt_packet E mtu a n packet"
  note f = encrypt_packet_fields [OF E, where mtu = mtu and a = a and n = n and packet = packet]
  obtain z where z: "aead_Open E (kp_receive b) (transport_nonce n) (drop 16 ?m) [] = Some (packet @ zeros z)"
    using f(5) keys(1) by auto
  define elem where "elem = decrypt_elem E d k endpoint ?m"
  have elem: "in_packet elem = Some (packet @ zeros z)" "in_counter elem = n" "in_keypair elem = k"
    using z by (simp_all add: elem_def decrypt_elem_def f(4) b(1))
  have "lookup_transport ?m d = Some (p, k)"
    using f(1) b live(1) by (simp add: lookup_transport_def f(3) keys(2) not_less)
  from received_datagram [OF f(1,2) this peer(2), of E order endpoint]
  have r: "RoutineReceiveIncoming E order [(?m, endpoint)] d = upd_peer p (\<lambda>r. r\<lparr>pr_inbound := pr_inbound r @ [[elem]]\<rparr>) d"
    by (simp add: elem_def)
  let ?acc = "\<lparr>ra_bufs = [], ra_tail = None, ra_data = False, ra_rx = 0\<rparr>"
  define d0 where "d0 = upd_peer p (\<lambda>r. r\<lparr>pr_inbound := []\<rparr>) (upd_peer p (\<lambda>r. r\<lparr>pr_inbound := pr_inbound r @ [[elem]]\<rparr>) d)"
  have d0: "dv_keypairs d0 = dv_keypairs d" "tun_view d0 = tun_view d" by (simp_all add: d0_def upd_peer_def)
  have "fst (ValidateCounter (in_counter elem) RejectAfterMessages (kp_replayFilter (dv_keypairs d0 ! in_keypair elem)))"
    using live(2) by (simp add: elem d0 b(1))
  from receive_elem_valid [OF elem(1) this, of E p ?acc] obtain d1 where
    d1: "tun_view d1 = tun_view d0" "receive_elem E p elem (?acc, d0) = deliver p elem (packet @ zeros z) (?acc\<lparr>ra_tail := Some (in_endpoint elem)\<rparr>) d1"
    by blast
  have v: "dv_allowedips d1 = dv_allowedips d" "dv_inboundFilter d1 = None" "dv_tunOut d1 = dv_tunOut d"
    using d1(1) d0(2) filt by (simp_all add: tun_view_def)
  obtain acc d2 where dl: "deliver p elem (packet @ zeros z) (?acc\<lparr>ra_tail := Some (in_endpoint elem)\<rparr>) d1 = (acc, d2)" by fastforce
  have "packet \<noteq> []" using ip(2) by (auto simp: ipv4_HeaderLen_def)
  then have "ra_bufs acc = [packet]" "tun_view d2 = tun_view d1"
    using dl check_inbound_padded [OF ip, of z] by (auto simp: deliver_def Let_def v(1,2))
  then have out: "ra_bufs acc = [packet]" "dv_tunOut d2 = dv_tunOut d" using v(3) by (simp_all add: tun_view_def)
  have "RoutineSequentialReceiver E p (RoutineReceiveIncoming E order [(?m, endpoint)] d) = finish_batch E p acc d2"
    using peer d1(2) dl by (simp add: RoutineSequentialReceiver_def r receive_batch_def upd_peer_def d0_def)
  then show ?thesis by (simp add: finish_batch_view out)
qed

definition demo_packet :: "byte list" where
  "demo_packet = [0x45, 0, 0, 20, 0, 0, 0, 0, 64, 17, 0, 0, 10, 0, 0, 1, 10, 0, 0, 2]"

definition demo_routes :: AllowedIPs where
  "demo_routes = the (Insert \<lparr>pfx_Addr = Addr4 0x0A000000, pfx_Bits = 8\<rparr> 0 AllowedIPs0)"

lemma demo_packet:
  "ip_version demo_packet = 4" "ipv4_HeaderLen \<le> length demo_packet"
  "unat (be_uint16 (slice IPv4offsetTotalLength 2 demo_packet)) = length demo_packet"
  "Lookup (slice IPv4offsetSrc 4 demo_packet) demo_routes = Some (Some 0)"
  by code_simp+

theorem tunnel_delivers_witness:
  "dv_tunOut (RoutineSequentialReceiver flat_noise 0 (RoutineReceiveIncoming flat_noise []
     [(encrypt_packet flat_noise 1420 (demo_keypair\<lparr>kp_remoteIndex := demo_index\<rparr>) 0 demo_packet, demo_endpoint)]
     (demo_session\<lparr>dv_allowedips := demo_routes\<rparr>))) = [(0, demo_packet)]"
proof -
  have "dv_tunOut demo_session = []" by (simp add: demo_session_eq demo_sent_eq NewDevice_def)
  moreover have "0 < length (dv_peers demo_session)" "pr_isRunning (dv_peers demo_session ! 0)" "pr_inbound (dv_peers demo_session ! 0) = []"
    by (simp_all add: demo_session_eq demo_session_peer_def demo_peer_def Peer0_def)
  moreover have "dv_inboundFilter demo_session = None" "dv_now demo_session = 1"
    by (simp_all add: demo_session_eq demo_sent_eq NewDevice_def)
  ultimately show ?thesis
    using tunnel_delivers [OF flat_noise_ok(2), of "demo_keypair\<lparr>kp_remoteIndex := demo_index\<rparr>" demo_keypair "demo_session\<lparr>dv_allowedips := demo_routes\<rparr>" 0 0 0
      demo_packet "[]" 1420 demo_endpoint] demo_packet demo_validate
    by (simp add: demo_session_eq index_Lookup_def demo_keypair_def RejectAfterTime_def second_def)
qed

section \<open>Staged packets\<close>

definition key_view :: "nat \<Rightarrow> Device \<Rightarrow> Keypairs \<times> Keypair list \<times> int \<times> deviceState \<times> nat" where
  "key_view p d = (pr_keypairs (dv_peers d ! p), dv_keypairs d, dv_now d, dv_state d, length (dv_peers d))"

lemma key_view_fields [simp]:
  "key_view p (d\<lparr>dv_rand := a\<rparr>) = key_view p d" "key_view p (d\<lparr>dv_jitter := b\<rparr>) = key_view p d" "key_view p (d\<lparr>dv_indexTable := c\<rparr>) = key_view p d"
  "key_view p (d\<lparr>dv_sendq := e\<rparr>) = key_view p d" "key_view p (d\<lparr>dv_net := f\<rparr>) = key_view p d"
  by (simp_all add: key_view_def)

lemma nth_update_keeps: "g (f (xs ! q)) = g (xs ! q) \<Longrightarrow> g (xs[q := f (xs ! q)] ! p) = g (xs ! p)"
  by (cases "q < length xs"; cases "p = q") (simp_all add: list_update_beyond)

lemma key_view_upd [simp]:
  "(\<And>r. pr_keypairs (f r) = pr_keypairs r) \<Longrightarrow> key_view p (upd_peer q f d) = key_view p d"
  "key_view p (upd_tm q t d) = key_view p d" "key_view p (upd_hs q h d) = key_view p d" "key_view p (set_hs q h' d) = key_view p d"
  by (simp_all add: key_view_def upd_peer_def upd_tm_def upd_hs_def set_hs_def nth_update_keeps [where g = pr_keypairs])

lemma key_view_index [simp]:
  "key_view p (index_Delete i d) = key_view p d"
  "key_view p (snd (NewIndexForHandshake q d)) = key_view p d" "key_view p (snd (newPrivateKey d)) = key_view p d"
  by (simp_all add: index_Delete_def NewIndexForHandshake_def newPrivateKey_def split: option.split prod.split)

lemma key_view_timers [simp]:
  "key_view p (timersAnyAuthenticatedPacketSent q d) = key_view p d" "key_view p (timersHandshakeInitiated q d) = key_view p d"
  "key_view p (timersAnyAuthenticatedPacketTraversal q d) = key_view p d"
  by (simp_all add: timers_defs split: list.split)

lemma key_view_endpoint [simp]:
  "key_view p (clearEndpoint q d) = key_view p d" "key_view p (snd (stamp_packet E q b d)) = key_view p d"
  by (simp_all add: endpoint_defs)

lemma key_view_SendBuffers [simp]: "key_view p (snd (SendBuffers q bufs d)) = key_view p d"
  by (simp add: SendBuffers_def Let_def split: option.split send_result.split)

lemma key_view_Create [simp]: "key_view p (snd (CreateMessageInitiation E q d)) = key_view p d"
  by (simp add: CreateMessageInitiation_def Let_def case_prod_unfold split: option.split)

lemma key_view_SendHandshakeInitiation [simp]: "key_view p (SendHandshakeInitiation E b q d) = key_view p d"
  by (simp add: SendHandshakeInitiation_def Let_def case_prod_unfold split: option.split)

text \<open>The keypair a peer would send with, if it has one that is neither exhausted nor expired.\<close>

definition can_send :: "nat \<Rightarrow> Device \<Rightarrow> bool" where
  "can_send p d = (case ks_current (pr_keypairs (dv_peers d ! p)) of None \<Rightarrow> False
     | Some k \<Rightarrow> kp_sendNonce (dv_keypairs d ! k) < RejectAfterMessages \<and> dv_now d - kp_created (dv_keypairs d ! k) < RejectAfterTime)"

lemma can_send_view: "key_view p d' = key_view p d \<Longrightarrow> can_send p d' = can_send p d \<and> isUp d' = isUp d"
  by (auto simp: key_view_def can_send_def isUp_def split: option.split)

lemma staged_pops:
  "length (dv_peers (snd (assign_nonces k c d))) = length (dv_peers d)"
  "length (dv_peers (upd_peer p f d)) = length (dv_peers d)" "length (dv_peers (StagePackets p x d)) = length (dv_peers d)"
  "length (dv_peers (queue_outbound E p k xs d)) = length (dv_peers d)"
  by (simp_all add: upd_peer_def StagePackets_def queue_outbound_def)

lemma send_staged_drains:
  "p < length (dv_peers d) \<Longrightarrow>
   pr_staged (dv_peers (send_staged E p at d) ! p) = [] \<or> \<not> isUp (send_staged E p at d) \<or> \<not> can_send p (send_staged E p at d)"
proof (induction E p at d rule: send_staged.induct)
  case (1 E p d)
  have s: "\<not> can_send p d \<Longrightarrow> \<not> can_send p (SendHandshakeInitiation E False p d)"
    using can_send_view [OF key_view_SendHandshakeInitiation [of p E False p d]] by simp
  show ?case
    using 1 s by (subst (1 2 3) send_staged.simps) (auto simp: can_send_def not_le not_less split: option.split)
next
  case (2 E p k d)
  show ?case
  proof (cases "pr_staged (dv_peers d ! p)")
    case Nil
    then show ?thesis by (simp add: send_staged.simps)
  next
    case (Cons elems rest)
    then have c: "(if p < length (dv_peers d) then pr_staged (dv_peers d ! p) else []) = elems # rest" using 2(4) by simp
    note IH = 2(1) [OF c refl refl refl refl refl refl] 2(2,3) [OF c refl refl refl refl refl refl _ refl]
    have e: "send_staged E p (Some k) d =
      (let d1 = upd_peer p (\<lambda>r. r\<lparr>pr_staged := rest\<rparr>) d; res = assign_nonces k elems d1;
           d3 = (if snd (fst res) \<noteq> [] then StagePackets p (snd (fst res)) (snd res) else snd res);
           d4 = queue_outbound E p k (fst (fst res)) d3
       in send_staged E p (if fst (fst res) = [] \<or> snd (fst res) \<noteq> [] then None else Some k) (if fst (fst res) = [] then d3 else d4))"
      by (subst send_staged.simps) (simp add: Cons 2(4) Let_def)
    show ?thesis unfolding e Let_def using IH 2(4) by (simp add: staged_pops split: if_split)
  qed
qed

text \<open>
  C40. Sending what is staged terminates and leaves nothing behind that could be
  sent: the loop of SendStagedPackets, which starts again whenever it exhausts the
  counters of a keypair, is a total function, and when it returns no packet is
  staged for the peer, or the device is not up, or the peer has no current keypair
  that is neither exhausted nor expired (then a handshake was initiated).
\<close>

theorem staged_packets_drained:
  assumes "p < length (dv_peers d)"
  shows "pr_staged (dv_peers (SendStagedPackets E p d) ! p) = [] \<or> \<not> isUp (SendStagedPackets E p d) \<or>
    (case ks_current (pr_keypairs (dv_peers (SendStagedPackets E p d) ! p)) of None \<Rightarrow> True
     | Some k \<Rightarrow> kp_sendNonce (dv_keypairs (SendStagedPackets E p d) ! k) \<ge> RejectAfterMessages \<or>
         dv_now (SendStagedPackets E p d) - kp_created (dv_keypairs (SendStagedPackets E p d) ! k) \<ge> RejectAfterTime)"
  using send_staged_drains [OF assms, of E None] by (auto simp: SendStagedPackets_def can_send_def not_less split: option.splits)

theorem staged_packets_drained_witness:
  "let d = SendStagedPackets flat_noise 0 (StagePackets 0 [demo_packet] demo_session) in
     pr_staged (dv_peers d ! 0) = [] \<or> \<not> isUp d \<or>
     (case ks_current (pr_keypairs (dv_peers d ! 0)) of None \<Rightarrow> True
      | Some k \<Rightarrow> kp_sendNonce (dv_keypairs d ! k) \<ge> RejectAfterMessages \<or> dv_now d - kp_created (dv_keypairs d ! k) \<ge> RejectAfterTime)"
  unfolding Let_def by (rule staged_packets_drained) (simp add: staged_pops demo_session_eq)

section \<open>The length of an IPv6 packet\<close>

text \<open>
  The payload length and the header are added in 16 bits: a payload length near
  the top wraps, and the packet passes cut to less than its header.
\<close>

definition wrapped_packet :: "byte list" where
  "wrapped_packet = [0x60, 0, 0, 0, 0xFF, 0xF0, 17, 64] @ replicate 15 0 @ [1] @ replicate 16 0"

lemma check_inbound_ipv6_wraps:
  "length wrapped_packet = ipv6_HeaderLen"
  "map_option length (check_inbound 0 wrapped_packet (the (Insert \<lparr>pfx_Addr = Addr6 0 [], pfx_Bits = 0\<rparr> 0 AllowedIPs0))) = Some 24"
  by code_simp+

end
