(* ===== verification/Spec2Isabelle.thy ===== *)
theory Spec2Isabelle
  imports Wire_Codec Replay AllowedIPs_Correct Go_Text_Correct Transport_Config Device_Flow
begin

text \<open>
  Verification of a mesh of WireGuard tunnels over camouflaged TCP (repository
  wireguard-go-minecraft, sources under src/src).

  \<^bold>\<open>The program.\<close> A Master keeps the table of nodes and pushes to every agent its
  configuration over a framed binary protocol (core/wire).  An agent runs a
  WireGuard device (wireguard/device) whose datagrams travel over a bind; the
  bind of this fork (wireguard/conn) carries them in TCP sessions that look like
  the traffic of a game server: a camouflage handshake opens a session, and
  cover frames may hide the datagrams behind it.

  \<^bold>\<open>Conventions.\<close> Pure functions are HOL functions; state is a record passed from
  operation to operation; an error or a panic is a value of a sum or option
  type.  Machine integers are words of their width.  A Go string is its list of
  bytes (go_str gives the bytes of a literal).  Pointers to objects that are
  shared are indices into lists of the state.  What the program asks of its
  environment (clock, random bytes, answers of the network, the order in which
  a Go map is traversed) is an argument or a queue of the state; what it does to
  the outside is recorded in traces of the state.  Cryptography, X.509 and JSON
  are fields of parameter records (camo_env, noise_env, text_env); the laws used
  are named hypotheses (hash_sizes, dh_agrees, aead_ok, hmac_size, and so on),
  each met by the concrete instance of a witness.

  \<^bold>\<open>Theories.\<close>
  \<^item> Prelude: big-endian bytes, bit masks, the error monad, list updates; shared
    lemmas.  Netip: net/netip addresses and prefixes.  Go_Text and
    Go_Text_Correct: the functions of strings, strconv, net and net/netip on
    text, and that numbers, addresses and prefixes are read back from the text
    printed for them.
  \<^item> Wire, Wire_Codec (core/wire): frames, the writer, the reader with its sticky
    error and every message.  Decoding what was encoded gives the value back,
    every proper prefix of an encoding is rejected, and the limits hold.
  \<^item> Replay (wireguard/utils/replay): the ring of words refines a window of seen
    counters, a locale interpreted on the code's operations.
  \<^item> AllowedIPs, AllowedIPs_Correct (device/allowedips.go): both compressed tries
    and the per-peer entry lists.  Every history of insertions and removals
    leaves tries whose lookup is longest-prefix match on the table of routes.
  \<^item> Mc_Codec, Conn_IO, Camo_Secure, Camouflage, Camo_Profiles
    (conn/mc_camouflage.go, camo_*.go, camouflage.go): packets, an I/O monad over
    a connection, the secure exchange, both sides of every handshake, cover
    frames.  Honest peers finish and agree; a secure session is installed only
    for a peer that knows the secret; four theorems exhibit defects.
  \<^item> Tcp_Bind (conn/tcp_bind.go): the table of sessions over a heap, dialing with
    retries, sending, idle supervision.  The invariant of the table is kept by
    every operation, datagrams of a send arrive in order, and a send reconnects.
  \<^item> Json_Comments, Transport_Config: stripping comments, and the configuration
    pushed by the Master reaching the open binds.
  \<^item> Ratelimiter (utils/ratelimiter): the shared table answers for each address
    as a token bucket of its own.
  \<^item> Noise_Msg, Cookie, Device_State, Noise, Noise_Agree
    (device/noise-*.go, cookie.go, indextable.go, keypair.go): message layouts,
    MACs and cookies, the state of the device with its heaps of peers, keypairs
    and indices, the four functions of the handshake, and that two devices that
    exchange their messages derive the same pair of keys.
  \<^item> Device_Send, Device_Receive, Device_Peers (send.go, receive.go, peer.go,
    timers.go, device.go): the routines of the device, one definition per
    operation with its timers.
  \<^item> Device_Core, Device_Shape, Device_Safe, Device_Run: an abstract machine of
    sessions that the operations refine, the shape invariant (references in
    range, one owner per index), its preservation by every operation, and the
    relation reachable of all runs.
  \<^item> Device_Demo, Device_Props, Device_Flow: a concrete run used by the witnesses,
    and the theorems: nonces are never reused, a counter is accepted once, an
    initiation is consumed once, the index table does not leak, a packet sent
    through the tunnel is delivered, only packets whose source is routed to the
    sender are written to the TUN device, staged packets are drained.

  \<^bold>\<open>Bounds and termination.\<close> There is no fuel in the device model: send_staged is
  total by the measure of the staged queue, and the loops over indices end with
  the random tape.  Dial attempts end with the queue of network outcomes.  The
  readers of Mc_Codec and Conn_IO are total functions of the bytes available.

  \<^bold>\<open>Not modelled.\<close> Interleaving inside one operation (locks make operations
  atomic; encryption and decryption happen when a packet is queued); the text
  protocol of uapi.go and its sockets; UDP binds, TUN devices and offloads,
  which are calls of the operating system; the agent, the Master's store and
  services, updates and system integration, which are I/O around third-party
  libraries; floating-point arithmetic.
\<close>

end
